theory Spec2Isabelle
  imports Complex_Main "HOL-Library.Word"
begin

section \<open>Buffers, loops and errors\<close>

text \<open>
  A C pointer to floats (or ints) that the callee indexes from zero is a buffer: a function
  from the element offset to the element. The kernels of \<^verbatim>\<open>train_gpt2.c\<close> take their
  pointers \<^verbatim>\<open>__restrict\<close>, so every pointer argument is a buffer of its own, and a store
  through one is not seen through another. Offsets are not bounded here: staying inside
  the allocation is the caller's obligation in C, and the layout section below is what
  discharges it.

  Floats are modelled by the reals: rounding, overflow and underflow of IEEE single
  precision are outside the model. The one place where the code's arithmetic leaves the
  reals without any rounding, the logarithm of a zero probability and the loss built from
  it, is modelled by the type \<open>xfloat\<close> below. A float division by zero does not trap in C
  and is 0 in HOL; the theorems say where a divisor has to be non-zero. An integer
  division by zero traps and is an error value of the model.

  Array dimensions, loop counters and configuration values are natural numbers: the C
  \<^verbatim>\<open>int\<close> values are taken non-negative and small enough for their products not to
  overflow \<^verbatim>\<open>int\<close>. The \<^verbatim>\<open>size_t\<close> arithmetic of the layout planner is modelled with
  64-bit words, wrap-around included.
\<close>

type_synonym 'a buf = "nat \<Rightarrow> 'a"

text \<open>\<^verbatim>\<open>p + k\<close> as a buffer, and the buffer \<open>f\<close> after a callee that was handed \<^verbatim>\<open>f + k\<close>
  left the view \<open>g\<close> behind.\<close>

definition offset_view :: "'a buf \<Rightarrow> nat \<Rightarrow> 'a buf" where
  "offset_view f k = (\<lambda>i. f (k + i))"

definition store_view :: "'a buf \<Rightarrow> nat \<Rightarrow> 'a buf \<Rightarrow> 'a buf" where
  "store_view f k g = (\<lambda>j. if k \<le> j then g (j - k) else f j)"

text \<open>\<^verbatim>\<open>for (i = 0; i < n; i++) body\<close>: iteration \<open>0\<close> runs first, iteration \<open>n - 1\<close> last.\<close>

primrec for_upto :: "nat \<Rightarrow> (nat \<Rightarrow> 's \<Rightarrow> 's) \<Rightarrow> 's \<Rightarrow> 's" where
  "for_upto 0 body s = s"
| "for_upto (Suc n) body s = body n (for_upto n body s)"

text \<open>\<^verbatim>\<open>for (i = lo; i < hi; i++) body\<close> and \<^verbatim>\<open>for (i = 0; i < n; i += d) body\<close>.\<close>

definition for_range :: "nat \<Rightarrow> nat \<Rightarrow> (nat \<Rightarrow> 's \<Rightarrow> 's) \<Rightarrow> 's \<Rightarrow> 's" where
  "for_range lo hi body = for_upto (hi - lo) (\<lambda>j. body (lo + j))"

definition for_stride :: "nat \<Rightarrow> nat \<Rightarrow> (nat \<Rightarrow> 's \<Rightarrow> 's) \<Rightarrow> 's \<Rightarrow> 's" where
  "for_stride n d body = for_upto ((n + d - 1) div d) (\<lambda>k. body (k * d))"

datatype error = Assertion_failed | Division_by_zero | Null_pointer | Out_of_bounds

section \<open>The kernels\<close>

subsection \<open>Encoder\<close>

definition encoder_forward ::
  "'a::plus buf \<Rightarrow> int buf \<Rightarrow> 'a buf \<Rightarrow> 'a buf \<Rightarrow> nat \<Rightarrow> nat \<Rightarrow> nat \<Rightarrow> 'a buf" where
  "encoder_forward out inp wte wpe B T C =
     for_upto B (\<lambda>b. for_upto T (\<lambda>t out.
       let out_bt = b * T * C + t * C;
           ix = inp (b * T + t);
           wpe_t = t * C
       in for_upto C (\<lambda>i out.
            out(out_bt + i := wte (nat (ix * int C + int i)) + wpe (wpe_t + i))) out)) out"

subsection \<open>LayerNorm\<close>

text \<open>The body of the loop over \<open>(b, t)\<close>, on the three output buffers.\<close>

definition layernorm_bt ::
  "real buf \<Rightarrow> real buf \<Rightarrow> real buf \<Rightarrow> nat \<Rightarrow> nat \<Rightarrow> nat \<Rightarrow> nat \<Rightarrow>
   real buf \<times> real buf \<times> real buf \<Rightarrow> real buf \<times> real buf \<times> real buf" where
  "layernorm_bt inp weight bias T C b t = (\<lambda>(out, mean, rstd).
     let eps = 1 / 100000;
         x = b * T * C + t * C;
         m = for_upto C (\<lambda>i m. m + inp (x + i)) 0;
         m = m / real C;
         v = for_upto C (\<lambda>i v. let xshift = inp (x + i) - m in v + xshift * xshift) 0;
         v = v / real C;
         s = 1 / sqrt (v + eps);
         out_bt = b * T * C + t * C;
         out = for_upto C (\<lambda>i out.
                 let n = s * (inp (x + i) - m);
                     r = n * weight i + bias i
                 in out(out_bt + i := r)) out
     in (out, mean(b * T + t := m), rstd(b * T + t := s)))"

definition layernorm_forward ::
  "real buf \<Rightarrow> real buf \<Rightarrow> real buf \<Rightarrow> real buf \<Rightarrow> real buf \<Rightarrow> real buf \<Rightarrow>
   nat \<Rightarrow> nat \<Rightarrow> nat \<Rightarrow> real buf \<times> real buf \<times> real buf" where
  "layernorm_forward out mean rstd inp weight bias B T C =
     for_upto B (\<lambda>b. for_upto T (\<lambda>t. layernorm_bt inp weight bias T C b t)) (out, mean, rstd)"

subsection \<open>Matmul\<close>

text \<open>\<^verbatim>\<open>(bias != NULL) ? bias[o] : 0.0f\<close>\<close>

definition bias_at :: "'a::zero buf option \<Rightarrow> nat \<Rightarrow> 'a" where
  "bias_at bias oc = (case bias of None \<Rightarrow> 0 | Some bs \<Rightarrow> bs oc)"

definition matmul_forward_naive ::
  "'a::{zero,plus,times} buf \<Rightarrow> 'a buf \<Rightarrow> 'a buf \<Rightarrow> 'a buf option \<Rightarrow>
   nat \<Rightarrow> nat \<Rightarrow> nat \<Rightarrow> nat \<Rightarrow> 'a buf" where
  "matmul_forward_naive out inp weight bias B T C OC =
     for_upto B (\<lambda>b. for_upto T (\<lambda>t.
       let bt = b * T + t in
       for_upto OC (\<lambda>oc out.
         let val = for_upto C (\<lambda>i val. val + inp (bt * C + i) * weight (oc * C + i))
                     (bias_at bias oc)
         in out(bt * OC + oc := val)))) out"

definition LOOP_UNROLL :: nat where
  "LOOP_UNROLL = 8"

text \<open>The local array \<^verbatim>\<open>result\<close> is not initialised in C; its \<^verbatim>\<open>LOOP_UNROLL\<close> cells are
  all written before any is read, so its first content (here zeros) is never seen.\<close>

definition matmul_forward ::
  "'a::{zero,plus,times} buf \<Rightarrow> 'a buf \<Rightarrow> 'a buf \<Rightarrow> 'a buf option \<Rightarrow>
   nat \<Rightarrow> nat \<Rightarrow> nat \<Rightarrow> nat \<Rightarrow> 'a buf" where
  "matmul_forward out inp weight bias B T C OC =
     (if (B * T) mod LOOP_UNROLL \<noteq> 0 then matmul_forward_naive out inp weight bias B T C OC
      else for_stride (B * T) LOOP_UNROLL (\<lambda>obt.
        for_upto OC (\<lambda>oc out.
          let result = for_upto LOOP_UNROLL (\<lambda>ibt result. result(ibt := bias_at bias oc)) (\<lambda>_. 0);
              result = for_upto C (\<lambda>i result.
                let w = weight (i + oc * C) in
                for_upto LOOP_UNROLL (\<lambda>ibt result.
                  let bt = obt + ibt in result(ibt := result ibt + inp (bt * C + i) * w)) result) result
          in for_upto LOOP_UNROLL (\<lambda>ibt out.
               let bt = obt + ibt in out(bt * OC + oc := result ibt)) out)) out)"

subsection \<open>Causal self-attention\<close>

text \<open>The body of the loop over \<open>(b, t, h)\<close>, on the three output buffers. The offsets
  \<open>query_t\<close>, \<open>key_t2\<close> and \<open>value_t2\<close> are into \<open>inp\<close>, \<open>preatt_bth\<close> and \<open>att_bth\<close> into
  \<open>preatt\<close> and \<open>att\<close>, \<open>out_bth\<close> into \<open>out\<close>.\<close>

definition attention_bth ::
  "real buf \<Rightarrow> nat \<Rightarrow> nat \<Rightarrow> nat \<Rightarrow> nat \<Rightarrow> nat \<Rightarrow> nat \<Rightarrow>
   real buf \<times> real buf \<times> real buf \<Rightarrow> real buf \<times> real buf \<times> real buf" where
  "attention_bth inp T C NH b t h = (\<lambda>(out, preatt, att).
     let C3 = C * 3;
         hs = C div NH;
         scale = 1 / sqrt (real hs);
         query_t = b * T * C3 + t * C3 + h * hs;
         preatt_bth = b * NH * T * T + h * T * T + t * T;
         att_bth = b * NH * T * T + h * T * T + t * T;
         (maxval, preatt) = for_upto (Suc t) (\<lambda>t2 (maxval, preatt).
            let key_t2 = b * T * C3 + t2 * C3 + h * hs + C;
                val = for_upto hs (\<lambda>i val. val + inp (query_t + i) * inp (key_t2 + i)) 0;
                val = val * scale;
                maxval = (if val > maxval then val else maxval)
            in (maxval, preatt(preatt_bth + t2 := val))) (- 10000, preatt);
         (expsum, att) = for_upto (Suc t) (\<lambda>t2 (expsum, att).
            let expv = exp (preatt (preatt_bth + t2) - maxval)
            in (expsum + expv, att(att_bth + t2 := expv))) (0, att);
         expsum_inv = (if expsum = 0 then 0 else 1 / expsum);
         att = for_upto T (\<lambda>t2 att.
            if t2 \<le> t then att(att_bth + t2 := att (att_bth + t2) * expsum_inv)
            else att(att_bth + t2 := 0)) att;
         out_bth = b * T * C + t * C + h * hs;
         out = for_upto hs (\<lambda>i out. out(out_bth + i := 0)) out;
         out = for_upto (Suc t) (\<lambda>t2 out.
            let value_t2 = b * T * C3 + t2 * C3 + h * hs + C * 2;
                att_btht2 = att (att_bth + t2)
            in for_upto hs (\<lambda>i out.
                 out(out_bth + i := out (out_bth + i) + att_btht2 * inp (value_t2 + i))) out) out
     in (out, preatt, att))"

text \<open>\<^verbatim>\<open>int hs = C / NH\<close> is computed before the loops: with \<open>NH = 0\<close> the call traps.\<close>

definition attention_forward ::
  "real buf \<Rightarrow> real buf \<Rightarrow> real buf \<Rightarrow> real buf \<Rightarrow> nat \<Rightarrow> nat \<Rightarrow> nat \<Rightarrow> nat \<Rightarrow>
   error + real buf \<times> real buf \<times> real buf" where
  "attention_forward out preatt att inp B T C NH =
     (if NH = 0 then Inl Division_by_zero
      else Inr (for_upto B (\<lambda>b. for_upto T (\<lambda>t. for_upto NH (\<lambda>h.
             attention_bth inp T C NH b t h))) (out, preatt, att)))"

subsection \<open>GELU and the residual sum\<close>

definition GELU_SCALING_FACTOR :: real where
  "GELU_SCALING_FACTOR = sqrt (2 / pi)"

definition gelu_forward :: "real buf \<Rightarrow> real buf \<Rightarrow> nat \<Rightarrow> real buf" where
  "gelu_forward out inp N =
     for_upto N (\<lambda>i out.
       let x = inp i;
           cube = 44715 / 1000000 * x * x * x
       in out(i := 1 / 2 * x * (1 + tanh (GELU_SCALING_FACTOR * (x + cube))))) out"

definition residual_forward :: "'a::plus buf \<Rightarrow> 'a buf \<Rightarrow> 'a buf \<Rightarrow> nat \<Rightarrow> 'a buf" where
  "residual_forward out inp1 inp2 N = for_upto N (\<lambda>i out. out(i := inp1 i + inp2 i)) out"

subsection \<open>Softmax\<close>

definition softmax_bt :: "real buf \<Rightarrow> nat \<Rightarrow> nat \<Rightarrow> nat \<Rightarrow> nat \<Rightarrow> nat \<Rightarrow> real buf \<Rightarrow> real buf" where
  "softmax_bt logits T V Vp b t = (\<lambda>probs.
     let logits_bt = b * T * Vp + t * Vp;
         probs_bt = b * T * Vp + t * Vp;
         maxval = for_upto V (\<lambda>i maxval.
            if logits (logits_bt + i) > maxval then logits (logits_bt + i) else maxval) (- 10000);
         (sum, probs) = for_upto V (\<lambda>i (sum, probs).
            let probs = probs(probs_bt + i := exp (logits (logits_bt + i) - maxval))
            in (sum + probs (probs_bt + i), probs)) (0, probs);
         probs = for_upto V (\<lambda>i probs. probs(probs_bt + i := probs (probs_bt + i) / sum)) probs
     in for_range V Vp (\<lambda>i probs. probs(probs_bt + i := 0)) probs)"

definition softmax_forward :: "real buf \<Rightarrow> real buf \<Rightarrow> nat \<Rightarrow> nat \<Rightarrow> nat \<Rightarrow> nat \<Rightarrow> real buf" where
  "softmax_forward probs logits B T V Vp =
     for_upto B (\<lambda>b. for_upto T (\<lambda>t. softmax_bt logits T V Vp b t)) probs"

subsection \<open>Cross-entropy and the mean loss\<close>

text \<open>
  A float that is a real number, an infinity or not a number. The arithmetic is IEEE's on
  the special values and exact on the reals; the sign of a zero is not modelled, and a
  zero divisor is taken as \<open>+0\<close>.
\<close>

datatype xfloat = Fin real | PInf | NInf | NaN

instantiation xfloat :: "{zero, plus, uminus, inverse}"
begin

definition zero_xfloat :: xfloat where
  "zero_xfloat = Fin 0"

fun plus_xfloat :: "xfloat \<Rightarrow> xfloat \<Rightarrow> xfloat" where
  "plus_xfloat (Fin x) (Fin y) = Fin (x + y)"
| "plus_xfloat NaN _ = NaN"
| "plus_xfloat _ NaN = NaN"
| "plus_xfloat PInf NInf = NaN"
| "plus_xfloat NInf PInf = NaN"
| "plus_xfloat PInf _ = PInf"
| "plus_xfloat _ PInf = PInf"
| "plus_xfloat NInf _ = NInf"
| "plus_xfloat _ NInf = NInf"

fun uminus_xfloat :: "xfloat \<Rightarrow> xfloat" where
  "uminus_xfloat (Fin x) = Fin (- x)"
| "uminus_xfloat PInf = NInf"
| "uminus_xfloat NInf = PInf"
| "uminus_xfloat NaN = NaN"

fun divide_xfloat :: "xfloat \<Rightarrow> xfloat \<Rightarrow> xfloat" where
  "divide_xfloat (Fin x) (Fin y) =
     (if y \<noteq> 0 then Fin (x / y) else if x > 0 then PInf else if x < 0 then NInf else NaN)"
| "divide_xfloat NaN _ = NaN"
| "divide_xfloat _ NaN = NaN"
| "divide_xfloat (Fin x) _ = Fin 0"
| "divide_xfloat PInf (Fin y) = (if y \<ge> 0 then PInf else NInf)"
| "divide_xfloat NInf (Fin y) = (if y \<ge> 0 then NInf else PInf)"
| "divide_xfloat _ _ = NaN"

definition inverse_xfloat :: "xfloat \<Rightarrow> xfloat" where
  "inverse_xfloat x = divide (Fin 1) x"

instance ..

end

text \<open>\<^verbatim>\<open>logf\<close> on a finite argument.\<close>

definition logf :: "real \<Rightarrow> xfloat" where
  "logf x = (if x > 0 then Fin (ln x) else if x = 0 then NInf else NaN)"

text \<open>\<^verbatim>\<open>probs_bt[ix]\<close> with an \<^verbatim>\<open>int\<close> index \<open>ix\<close>: the cell \<open>ix\<close> places from \<open>probs_bt\<close>.\<close>

definition crossentropy_forward ::
  "xfloat buf \<Rightarrow> real buf \<Rightarrow> int buf \<Rightarrow> nat \<Rightarrow> nat \<Rightarrow> nat \<Rightarrow> xfloat buf" where
  "crossentropy_forward losses probs targets B T Vp =
     for_upto B (\<lambda>b. for_upto T (\<lambda>t losses.
       let probs_bt = b * T * Vp + t * Vp;
           ix = targets (b * T + t)
       in losses(b * T + t := - logf (probs (nat (int probs_bt + ix)))))) losses"

text \<open>Lines 747 to 751 of \<^verbatim>\<open>gpt2_forward\<close>: the sum of the losses from \<open>0.0f\<close>, divided by
  \<open>B * T\<close> converted to a float.\<close>

definition mean_reduce :: "xfloat buf \<Rightarrow> nat \<Rightarrow> xfloat" where
  "mean_reduce losses n =
     (let mean_loss = for_upto n (\<lambda>i mean_loss. mean_loss + losses i) 0
      in mean_loss / Fin (real n))"

section \<open>The model\<close>

record GPT2Config =
  max_seq_len :: nat
  vocab_size :: nat
  padded_vocab_size :: nat
  num_layers :: nat
  num_heads :: nat
  channels :: nat

subsection \<open>The layout of the parameters and of the activations\<close>







subsection \<open>The tensors as the forward pass sees them\<close>

text \<open>
  \<^verbatim>\<open>gpt2_forward\<close> reads the sixteen and writes the twenty-three pointers of the two
  structs and never the flat memory behind them. Each pointer is a buffer here; that the
  regions behind them do not overlap is what the layout above provides.
\<close>

record ParameterTensors =
  wte :: "real buf"
  wpe :: "real buf"
  ln1w :: "real buf"
  ln1b :: "real buf"
  qkvw :: "real buf"
  qkvb :: "real buf"
  attprojw :: "real buf"
  attprojb :: "real buf"
  ln2w :: "real buf"
  ln2b :: "real buf"
  fcw :: "real buf"
  fcb :: "real buf"
  fcprojw :: "real buf"
  fcprojb :: "real buf"
  lnfw :: "real buf"
  lnfb :: "real buf"

record ActivationTensors =
  encoded :: "real buf"
  ln1 :: "real buf"
  ln1_mean :: "real buf"
  ln1_rstd :: "real buf"
  qkv :: "real buf"
  atty :: "real buf"
  preatt :: "real buf"
  att :: "real buf"
  attproj :: "real buf"
  residual2 :: "real buf"
  ln2 :: "real buf"
  ln2_mean :: "real buf"
  ln2_rstd :: "real buf"
  fch :: "real buf"
  fch_gelu :: "real buf"
  fcproj :: "real buf"
  residual3 :: "real buf"
  lnf :: "real buf"
  lnf_mean :: "real buf"
  lnf_rstd :: "real buf"
  logits :: "real buf"
  probs :: "real buf"
  losses :: "xfloat buf"

text \<open>Of \<^verbatim>\<open>GPT2\<close> and \<^verbatim>\<open>GPT2Const\<close>, the fields that \<^verbatim>\<open>gpt2_forward\<close> and \<^verbatim>\<open>gpt2_update\<close>
  use. A \<^verbatim>\<open>NULL\<close> pointer is \<open>None\<close>.\<close>

record GPT2 =
  params :: ParameterTensors
  params_memory :: "real buf"
  acts :: ActivationTensors

record GPT2Const =
  config :: GPT2Config
  m_memory :: "real buf option"
  v_memory :: "real buf option"
  mean_loss :: xfloat
  num_parameters :: nat

subsection \<open>The forward pass\<close>

text \<open>The kernels by name, for the record of calls that the model of the forward pass
  keeps beside the activations.\<close>

datatype kernel =
  Encoder | LayerNorm | Matmul | Attention | Residual | Gelu | Softmax | Crossentropy

definition run :: "kernel \<Rightarrow> ('s \<Rightarrow> 's) \<Rightarrow> 's \<times> kernel list \<Rightarrow> 's \<times> kernel list" where
  "run k f = (\<lambda>(s, calls). (f s, calls @ [k]))"

text \<open>The loop of assertions at the head of \<^verbatim>\<open>gpt2_forward\<close>.\<close>

definition tokens_valid :: "int buf \<Rightarrow> int buf option \<Rightarrow> nat \<Rightarrow> nat \<Rightarrow> bool" where
  "tokens_valid inputs targets V n =
     for_upto n (\<lambda>i ok. ok \<and> 0 \<le> inputs i \<and> inputs i < int V \<and>
       (case targets of None \<Rightarrow> True | Some tg \<Rightarrow> 0 \<le> tg i \<and> tg i < int V)) True"

text \<open>
  The calls of the loop over the layers, one definition for each, in the order of the C.
  Layer \<open>l\<close> works on the slice of every tensor that starts \<open>l\<close> times the size of a slice
  after the pointer of the tensor: \<^verbatim>\<open>acts.ln1 + l * B * T * C\<close> and so on. \<open>residual\<close> is the
  encoder's output for the first layer and the slice of \<open>residual3\<close> of the layer before
  for the others.
\<close>

definition layer_residual :: "GPT2Config \<Rightarrow> nat \<Rightarrow> nat \<Rightarrow> nat \<Rightarrow> ActivationTensors \<Rightarrow> real buf" where
  "layer_residual cfg B T l a =
     (let C = channels cfg
      in if l = 0 then encoded a else offset_view (residual3 a) ((l - 1) * B * T * C))"

definition call_ln1 ::
  "GPT2Config \<Rightarrow> ParameterTensors \<Rightarrow> nat \<Rightarrow> nat \<Rightarrow> nat \<Rightarrow> ActivationTensors \<Rightarrow> ActivationTensors" where
  "call_ln1 cfg ps B T l a =
     (let C = channels cfg;
          residual = layer_residual cfg B T l a;
          l_ln1w = offset_view (ln1w ps) (l * C);
          l_ln1b = offset_view (ln1b ps) (l * C);
          l_ln1 = l * B * T * C;
          l_ln1_mean = l * B * T;
          l_ln1_rstd = l * B * T;
          (out, mean, rstd) = layernorm_forward (offset_view (ln1 a) l_ln1)
             (offset_view (ln1_mean a) l_ln1_mean) (offset_view (ln1_rstd a) l_ln1_rstd)
             residual l_ln1w l_ln1b B T C
      in a\<lparr>ln1 := store_view (ln1 a) l_ln1 out,
           ln1_mean := store_view (ln1_mean a) l_ln1_mean mean,
           ln1_rstd := store_view (ln1_rstd a) l_ln1_rstd rstd\<rparr>)"

definition call_qkv ::
  "GPT2Config \<Rightarrow> ParameterTensors \<Rightarrow> nat \<Rightarrow> nat \<Rightarrow> nat \<Rightarrow> ActivationTensors \<Rightarrow> ActivationTensors" where
  "call_qkv cfg ps B T l a =
     (let C = channels cfg;
          l_qkvw = offset_view (qkvw ps) (l * 3 * C * C);
          l_qkvb = offset_view (qkvb ps) (l * 3 * C);
          l_ln1 = l * B * T * C;
          l_qkv = l * B * T * 3 * C
      in a\<lparr>qkv := store_view (qkv a) l_qkv
              (matmul_forward (offset_view (qkv a) l_qkv) (offset_view (ln1 a) l_ln1)
                 l_qkvw (Some l_qkvb) B T C (3 * C))\<rparr>)"

definition call_attention ::
  "GPT2Config \<Rightarrow> nat \<Rightarrow> nat \<Rightarrow> nat \<Rightarrow> ActivationTensors \<Rightarrow> error + ActivationTensors" where
  "call_attention cfg B T l a =
     (let C = channels cfg;
          NH = num_heads cfg;
          l_qkv = l * B * T * 3 * C;
          l_atty = l * B * T * C;
          l_preatt = l * B * NH * T * T;
          l_att = l * B * NH * T * T
      in case attention_forward (offset_view (atty a) l_atty) (offset_view (preatt a) l_preatt)
                (offset_view (att a) l_att) (offset_view (qkv a) l_qkv) B T C NH of
           Inl e \<Rightarrow> Inl e
         | Inr (out, pre, post) \<Rightarrow>
             Inr (a\<lparr>atty := store_view (atty a) l_atty out,
                    preatt := store_view (preatt a) l_preatt pre,
                    att := store_view (att a) l_att post\<rparr>))"

definition call_attproj ::
  "GPT2Config \<Rightarrow> ParameterTensors \<Rightarrow> nat \<Rightarrow> nat \<Rightarrow> nat \<Rightarrow> ActivationTensors \<Rightarrow> ActivationTensors" where
  "call_attproj cfg ps B T l a =
     (let C = channels cfg;
          l_attprojw = offset_view (attprojw ps) (l * C * C);
          l_attprojb = offset_view (attprojb ps) (l * C);
          l_atty = l * B * T * C;
          l_attproj = l * B * T * C
      in a\<lparr>attproj := store_view (attproj a) l_attproj
              (matmul_forward (offset_view (attproj a) l_attproj) (offset_view (atty a) l_atty)
                 l_attprojw (Some l_attprojb) B T C C)\<rparr>)"

definition call_residual2 ::
  "GPT2Config \<Rightarrow> nat \<Rightarrow> nat \<Rightarrow> nat \<Rightarrow> ActivationTensors \<Rightarrow> ActivationTensors" where
  "call_residual2 cfg B T l a =
     (let C = channels cfg;
          residual = layer_residual cfg B T l a;
          l_attproj = l * B * T * C;
          l_residual2 = l * B * T * C
      in a\<lparr>residual2 := store_view (residual2 a) l_residual2
              (residual_forward (offset_view (residual2 a) l_residual2) residual
                 (offset_view (attproj a) l_attproj) (B * T * C))\<rparr>)"

definition call_ln2 ::
  "GPT2Config \<Rightarrow> ParameterTensors \<Rightarrow> nat \<Rightarrow> nat \<Rightarrow> nat \<Rightarrow> ActivationTensors \<Rightarrow> ActivationTensors" where
  "call_ln2 cfg ps B T l a =
     (let C = channels cfg;
          l_ln2w = offset_view (ln2w ps) (l * C);
          l_ln2b = offset_view (ln2b ps) (l * C);
          l_residual2 = l * B * T * C;
          l_ln2 = l * B * T * C;
          l_ln2_mean = l * B * T;
          l_ln2_rstd = l * B * T;
          (out, mean, rstd) = layernorm_forward (offset_view (ln2 a) l_ln2)
             (offset_view (ln2_mean a) l_ln2_mean) (offset_view (ln2_rstd a) l_ln2_rstd)
             (offset_view (residual2 a) l_residual2) l_ln2w l_ln2b B T C
      in a\<lparr>ln2 := store_view (ln2 a) l_ln2 out,
           ln2_mean := store_view (ln2_mean a) l_ln2_mean mean,
           ln2_rstd := store_view (ln2_rstd a) l_ln2_rstd rstd\<rparr>)"

definition call_fch ::
  "GPT2Config \<Rightarrow> ParameterTensors \<Rightarrow> nat \<Rightarrow> nat \<Rightarrow> nat \<Rightarrow> ActivationTensors \<Rightarrow> ActivationTensors" where
  "call_fch cfg ps B T l a =
     (let C = channels cfg;
          l_fcw = offset_view (fcw ps) (l * 4 * C * C);
          l_fcb = offset_view (fcb ps) (l * 4 * C);
          l_ln2 = l * B * T * C;
          l_fch = l * B * T * 4 * C
      in a\<lparr>fch := store_view (fch a) l_fch
              (matmul_forward (offset_view (fch a) l_fch) (offset_view (ln2 a) l_ln2)
                 l_fcw (Some l_fcb) B T C (4 * C))\<rparr>)"

definition call_gelu ::
  "GPT2Config \<Rightarrow> nat \<Rightarrow> nat \<Rightarrow> nat \<Rightarrow> ActivationTensors \<Rightarrow> ActivationTensors" where
  "call_gelu cfg B T l a =
     (let C = channels cfg;
          l_fch = l * B * T * 4 * C;
          l_fch_gelu = l * B * T * 4 * C
      in a\<lparr>fch_gelu := store_view (fch_gelu a) l_fch_gelu
              (gelu_forward (offset_view (fch_gelu a) l_fch_gelu) (offset_view (fch a) l_fch)
                 (B * T * 4 * C))\<rparr>)"

definition call_fcproj ::
  "GPT2Config \<Rightarrow> ParameterTensors \<Rightarrow> nat \<Rightarrow> nat \<Rightarrow> nat \<Rightarrow> ActivationTensors \<Rightarrow> ActivationTensors" where
  "call_fcproj cfg ps B T l a =
     (let C = channels cfg;
          l_fcprojw = offset_view (fcprojw ps) (l * C * 4 * C);
          l_fcprojb = offset_view (fcprojb ps) (l * C);
          l_fch_gelu = l * B * T * 4 * C;
          l_fcproj = l * B * T * C
      in a\<lparr>fcproj := store_view (fcproj a) l_fcproj
              (matmul_forward (offset_view (fcproj a) l_fcproj) (offset_view (fch_gelu a) l_fch_gelu)
                 l_fcprojw (Some l_fcprojb) B T (4 * C) C)\<rparr>)"

definition call_residual3 ::
  "GPT2Config \<Rightarrow> nat \<Rightarrow> nat \<Rightarrow> nat \<Rightarrow> ActivationTensors \<Rightarrow> ActivationTensors" where
  "call_residual3 cfg B T l a =
     (let C = channels cfg;
          l_residual2 = l * B * T * C;
          l_fcproj = l * B * T * C;
          l_residual3 = l * B * T * C
      in a\<lparr>residual3 := store_view (residual3 a) l_residual3
              (residual_forward (offset_view (residual3 a) l_residual3)
                 (offset_view (residual2 a) l_residual2) (offset_view (fcproj a) l_fcproj)
                 (B * T * C))\<rparr>)"

text \<open>One turn of the loop over the layers, on the activations and the record of calls.\<close>

definition layer_forward ::
  "GPT2Config \<Rightarrow> ParameterTensors \<Rightarrow> nat \<Rightarrow> nat \<Rightarrow> nat \<Rightarrow>
   ActivationTensors \<times> kernel list \<Rightarrow> error + ActivationTensors \<times> kernel list" where
  "layer_forward cfg ps B T l st =
     (let st = run LayerNorm (call_ln1 cfg ps B T l) st;
          st = run Matmul (call_qkv cfg ps B T l) st
      in case call_attention cfg B T l (fst st) of
           Inl e \<Rightarrow> Inl e
         | Inr a \<Rightarrow>
            (let st = run Attention (\<lambda>_. a) st;
                 st = run Matmul (call_attproj cfg ps B T l) st;
                 st = run Residual (call_residual2 cfg B T l) st;
                 st = run LayerNorm (call_ln2 cfg ps B T l) st;
                 st = run Matmul (call_fch cfg ps B T l) st;
                 st = run Gelu (call_gelu cfg B T l) st;
                 st = run Matmul (call_fcproj cfg ps B T l) st;
                 st = run Residual (call_residual3 cfg B T l) st
             in Inr st))"

text \<open>The calls before and after the loop.\<close>

definition call_encoder ::
  "GPT2Config \<Rightarrow> ParameterTensors \<Rightarrow> int buf \<Rightarrow> nat \<Rightarrow> nat \<Rightarrow> ActivationTensors \<Rightarrow> ActivationTensors" where
  "call_encoder cfg ps inputs B T a =
     a\<lparr>encoded := encoder_forward (encoded a) inputs (wte ps) (wpe ps) B T (channels cfg)\<rparr>"

definition call_lnf ::
  "GPT2Config \<Rightarrow> ParameterTensors \<Rightarrow> nat \<Rightarrow> nat \<Rightarrow> ActivationTensors \<Rightarrow> ActivationTensors" where
  "call_lnf cfg ps B T a =
     (let residual = offset_view (residual3 a) ((num_layers cfg - 1) * B * T * channels cfg);
          (out, mean, rstd) = layernorm_forward (lnf a) (lnf_mean a) (lnf_rstd a) residual
             (lnfw ps) (lnfb ps) B T (channels cfg)
      in a\<lparr>lnf := out, lnf_mean := mean, lnf_rstd := rstd\<rparr>)"

definition call_logits ::
  "GPT2Config \<Rightarrow> ParameterTensors \<Rightarrow> nat \<Rightarrow> nat \<Rightarrow> ActivationTensors \<Rightarrow> ActivationTensors" where
  "call_logits cfg ps B T a =
     a\<lparr>logits := matmul_forward (logits a) (lnf a) (wte ps) None B T (channels cfg)
                   (padded_vocab_size cfg)\<rparr>"

definition call_probs :: "GPT2Config \<Rightarrow> nat \<Rightarrow> nat \<Rightarrow> ActivationTensors \<Rightarrow> ActivationTensors" where
  "call_probs cfg B T a =
     a\<lparr>probs := softmax_forward (probs a) (logits a) B T (vocab_size cfg) (padded_vocab_size cfg)\<rparr>"

definition call_losses ::
  "GPT2Config \<Rightarrow> int buf \<Rightarrow> nat \<Rightarrow> nat \<Rightarrow> ActivationTensors \<Rightarrow> ActivationTensors" where
  "call_losses cfg targets B T a =
     a\<lparr>losses := crossentropy_forward (losses a) (probs a) targets B T (padded_vocab_size cfg)\<rparr>"

text \<open>
  The forward pass: the model and the constants after the call, the float written to
  \<^verbatim>\<open>*res\<close>, and the kernels in the order of their calls. A failed assertion aborts. After
  the loop the C takes \<^verbatim>\<open>acts.residual3 + (num_layers - 1) * B * T * C\<close>, which with no
  layer lies before the tensor: that is \<open>Out_of_bounds\<close> here. Without targets the loss is
  \<^verbatim>\<open>-1.0f\<close>.
\<close>

definition gpt2_forward ::
  "GPT2 \<Rightarrow> GPT2Const \<Rightarrow> int buf \<Rightarrow> int buf option \<Rightarrow> nat \<Rightarrow> nat \<Rightarrow>
   error + GPT2 \<times> GPT2Const \<times> xfloat \<times> kernel list" where
  "gpt2_forward model model_consts inputs targets B T =
     (let cfg = config model_consts;
          V = vocab_size cfg;
          ps = params model
      in if \<not> tokens_valid inputs targets V (B * T) then Inl Assertion_failed
         else
          (let st = run Encoder (call_encoder cfg ps inputs B T) (acts model, [])
           in case for_upto (num_layers cfg)
                     (\<lambda>l r. case r of Inl e \<Rightarrow> Inl e | Inr st \<Rightarrow> layer_forward cfg ps B T l st) (Inr st) of
                Inl e \<Rightarrow> Inl e
              | Inr st \<Rightarrow>
                 if num_layers cfg = 0 then Inl Out_of_bounds
                 else
                  (let st = run LayerNorm (call_lnf cfg ps B T) st;
                       st = run Matmul (call_logits cfg ps B T) st;
                       st = run Softmax (call_probs cfg B T) st
                   in case targets of
                        Some tg \<Rightarrow>
                          (let st = run Crossentropy (call_losses cfg tg B T) st;
                               mean_loss = mean_reduce (losses (fst st)) (B * T)
                           in Inr (model\<lparr>acts := fst st\<rparr>, model_consts\<lparr>mean_loss := mean_loss\<rparr>,
                                   mean_loss, snd st))
                      | None \<Rightarrow>
                          Inr (model\<lparr>acts := fst st\<rparr>, model_consts\<lparr>mean_loss := Fin (- 1)\<rparr>,
                               Fin (- 1), snd st))))"

subsection \<open>The AdamW update\<close>

text \<open>The body of the loop over the parameters, on \<^verbatim>\<open>model->params_memory\<close>,
  \<^verbatim>\<open>shadow_model->params_memory\<close>, \<^verbatim>\<open>m_memory\<close> and \<^verbatim>\<open>v_memory\<close>. \<^verbatim>\<open>powf\<close> with an
  \<^verbatim>\<open>int\<close> exponent is the integer power. The calls of \<^verbatim>\<open>printf\<close> are left out.\<close>

definition adamw_elem ::
  "real \<Rightarrow> real \<Rightarrow> real \<Rightarrow> real \<Rightarrow> real \<Rightarrow> int \<Rightarrow> nat \<Rightarrow>
   real buf \<times> real buf \<times> real buf \<times> real buf \<Rightarrow> real buf \<times> real buf \<times> real buf \<times> real buf" where
  "adamw_elem learning_rate beta1 beta2 eps weight_decay t i = (\<lambda>(pm, gm, mm, vm).
     let param = pm i;
         grad = gm i;
         gm = gm(i := 0);
         m = beta1 * mm i + (1 - beta1) * grad;
         v = beta2 * vm i + (1 - beta2) * grad * grad;
         m_hat = m / (1 - beta1 powi t);
         v_hat = v / (1 - beta2 powi t);
         update = learning_rate * (m_hat / (sqrt v_hat + eps) + weight_decay * param);
         mm = mm(i := m);
         vm = vm(i := v);
         pm = pm(i := pm i - update)
     in (pm, gm, mm, vm))"

text \<open>
  \<^verbatim>\<open>gpt2_update\<close>: both moment buffers are allocated, zeroed, when \<^verbatim>\<open>m_memory\<close> is
  \<^verbatim>\<open>NULL\<close>. A \<^verbatim>\<open>v_memory\<close> that is \<^verbatim>\<open>NULL\<close> beside an allocated \<^verbatim>\<open>m_memory\<close> is
  dereferenced in the first turn of the loop. \<^verbatim>\<open>calloc\<close> is taken to succeed.
\<close>

definition gpt2_update ::
  "GPT2 \<Rightarrow> GPT2 \<Rightarrow> GPT2Const \<Rightarrow> real \<Rightarrow> real \<Rightarrow> real \<Rightarrow> real \<Rightarrow> real \<Rightarrow> int \<Rightarrow>
   error + GPT2 \<times> GPT2 \<times> GPT2Const" where
  "gpt2_update model shadow_model const_model learning_rate beta1 beta2 eps weight_decay t =
     (let const_model =
            (if m_memory const_model = None
             then const_model\<lparr>m_memory := Some (\<lambda>_. 0), v_memory := Some (\<lambda>_. 0)\<rparr>
             else const_model)
      in if num_parameters const_model = 0 then Inr (model, shadow_model, const_model)
         else case (m_memory const_model, v_memory const_model) of
                (Some mm, Some vm) \<Rightarrow>
                  (let (pm, gm, mm, vm) = for_upto (num_parameters const_model)
                         (adamw_elem learning_rate beta1 beta2 eps weight_decay t)
                         (params_memory model, params_memory shadow_model, mm, vm)
                   in Inr (model\<lparr>params_memory := pm\<rparr>, shadow_model\<lparr>params_memory := gm\<rparr>,
                           const_model\<lparr>m_memory := Some mm, v_memory := Some vm\<rparr>))
              | _ \<Rightarrow> Inl Null_pointer)"

section \<open>Closed forms that the statements use\<close>

text \<open>The cell \<open>(bt, oc)\<close> of a matrix product: the bias, then the \<open>C\<close> products added in
  the order of \<open>i\<close>.\<close>

definition dotp :: "'a::{zero,plus,times} buf \<Rightarrow> 'a buf \<Rightarrow> 'a buf option \<Rightarrow> nat \<Rightarrow> nat \<Rightarrow> nat \<Rightarrow> 'a" where
  "dotp inp weight bias C bt oc =
     for_upto C (\<lambda>i val. val + inp (bt * C + i) * weight (oc * C + i)) (bias_at bias oc)"

text \<open>The first cell of row \<open>(b, h, t)\<close> of the two score buffers of the attention, and the
  scaled product of query \<open>t\<close> and key \<open>t2\<close> of head \<open>h\<close> that the first pass stores.\<close>

definition att_row :: "nat \<Rightarrow> nat \<Rightarrow> nat \<Rightarrow> nat \<Rightarrow> nat \<Rightarrow> nat" where
  "att_row NH T b h t = b * NH * T * T + h * T * T + t * T"

definition att_score :: "real buf \<Rightarrow> nat \<Rightarrow> nat \<Rightarrow> nat \<Rightarrow> nat \<Rightarrow> nat \<Rightarrow> nat \<Rightarrow> nat \<Rightarrow> real" where
  "att_score inp T C NH b t h t2 =
     for_upto (C div NH) (\<lambda>i val. val + inp (b * T * (C * 3) + t * (C * 3) + h * (C div NH) + i) *
         inp (b * T * (C * 3) + t2 * (C * 3) + h * (C div NH) + C + i)) 0
       * (1 / sqrt (real (C div NH)))"

text \<open>The running maximum of the scores of a row, from \<open>-10000\<close>, and the sum of the
  exponentials that the second pass accumulates.\<close>

definition att_maxval :: "real buf \<Rightarrow> nat \<Rightarrow> nat \<Rightarrow> nat \<Rightarrow> nat \<Rightarrow> nat \<Rightarrow> nat \<Rightarrow> real" where
  "att_maxval inp T C NH b t h =
     for_upto (Suc t) (\<lambda>t2 maxval.
       if att_score inp T C NH b t h t2 > maxval then att_score inp T C NH b t h t2 else maxval) (- 10000)"

definition att_expsum :: "real buf \<Rightarrow> nat \<Rightarrow> nat \<Rightarrow> nat \<Rightarrow> nat \<Rightarrow> nat \<Rightarrow> nat \<Rightarrow> real" where
  "att_expsum inp T C NH b t h =
     (\<Sum>t2<Suc t. exp (att_score inp T C NH b t h t2 - att_maxval inp T C NH b t h))"

text \<open>The three loops of \<^verbatim>\<open>attention_forward\<close>, which run when \<open>NH\<close> is not 0.\<close>

definition attention_loops ::
  "real buf \<Rightarrow> nat \<Rightarrow> nat \<Rightarrow> nat \<Rightarrow> nat \<Rightarrow> real buf \<times> real buf \<times> real buf \<Rightarrow> real buf \<times> real buf \<times> real buf" where
  "attention_loops inp B T C NH =
     for_upto B (\<lambda>b. for_upto T (\<lambda>t. for_upto NH (\<lambda>h. attention_bth inp T C NH b t h)))"

text \<open>The running maximum of the first \<open>V\<close> logits of the row at \<open>base\<close>, from \<open>-10000\<close>,
  and the sum of the exponentials of the row.\<close>

definition softmax_maxval :: "real buf \<Rightarrow> nat \<Rightarrow> nat \<Rightarrow> real" where
  "softmax_maxval lg base V =
     for_upto V (\<lambda>i maxval. if lg (base + i) > maxval then lg (base + i) else maxval) (- 10000)"

definition softmax_sum :: "real buf \<Rightarrow> nat \<Rightarrow> nat \<Rightarrow> real" where
  "softmax_sum lg base V = (\<Sum>i<V. exp (lg (base + i) - softmax_maxval lg base V))"

text \<open>
  The AdamW rule as the specification words it, for one parameter: the two moments from
  the old ones and the gradient \<open>g\<close>, their bias-corrected values at step \<open>t\<close>, and the new
  value of the parameter.
\<close>

definition adamw_m :: "real \<Rightarrow> real \<Rightarrow> real \<Rightarrow> real" where
  "adamw_m beta1 m g = beta1 * m + (1 - beta1) * g"

definition adamw_v :: "real \<Rightarrow> real \<Rightarrow> real \<Rightarrow> real" where
  "adamw_v beta2 v g = beta2 * v + (1 - beta2) * g\<^sup>2"

definition adamw_hat :: "real \<Rightarrow> int \<Rightarrow> real \<Rightarrow> real" where
  "adamw_hat beta t x = x / (1 - beta powi t)"

definition adamw_value :: "real \<Rightarrow> real \<Rightarrow> real \<Rightarrow> real \<Rightarrow> real \<Rightarrow> real \<Rightarrow> real" where
  "adamw_value lr eps weight_decay x m_hat v_hat =
     x - lr * (m_hat / (sqrt v_hat + eps) + weight_decay * x)"

text \<open>The moment buffers that a call of \<^verbatim>\<open>gpt2_update\<close> starts from: zeros when
  \<^verbatim>\<open>m_memory\<close> is \<^verbatim>\<open>NULL\<close>.\<close>

definition moments_before :: "GPT2Const \<Rightarrow> real buf \<times> real buf" where
  "moments_before c =
     (case m_memory c of
        None \<Rightarrow> (\<lambda>_. 0, \<lambda>_. 0)
      | Some mm \<Rightarrow> (mm, case v_memory c of None \<Rightarrow> (\<lambda>_. 0) | Some vm \<Rightarrow> vm))"

text \<open>A small model for the instances: one layer, one head, one channel, a vocabulary of
  two tokens, all tensors zero.\<close>

definition example_config :: GPT2Config where
  "example_config =
     \<lparr>max_seq_len = 2, vocab_size = 2, padded_vocab_size = 2, num_layers = 1, num_heads = 1,
      channels = 1\<rparr>"

definition example_params :: ParameterTensors where
  "example_params =
     \<lparr>wte = (\<lambda>_. 0), wpe = (\<lambda>_. 0), ln1w = (\<lambda>_. 0), ln1b = (\<lambda>_. 0), qkvw = (\<lambda>_. 0),
      qkvb = (\<lambda>_. 0), attprojw = (\<lambda>_. 0), attprojb = (\<lambda>_. 0), ln2w = (\<lambda>_. 0),
      ln2b = (\<lambda>_. 0), fcw = (\<lambda>_. 0), fcb = (\<lambda>_. 0), fcprojw = (\<lambda>_. 0),
      fcprojb = (\<lambda>_. 0), lnfw = (\<lambda>_. 0), lnfb = (\<lambda>_. 0)\<rparr>"

definition example_acts :: ActivationTensors where
  "example_acts =
     \<lparr>encoded = (\<lambda>_. 0), ln1 = (\<lambda>_. 0), ln1_mean = (\<lambda>_. 0), ln1_rstd = (\<lambda>_. 0),
      qkv = (\<lambda>_. 0), atty = (\<lambda>_. 0), preatt = (\<lambda>_. 0), att = (\<lambda>_. 0), attproj = (\<lambda>_. 0),
      residual2 = (\<lambda>_. 0), ln2 = (\<lambda>_. 0), ln2_mean = (\<lambda>_. 0), ln2_rstd = (\<lambda>_. 0),
      fch = (\<lambda>_. 0), fch_gelu = (\<lambda>_. 0), fcproj = (\<lambda>_. 0), residual3 = (\<lambda>_. 0),
      lnf = (\<lambda>_. 0), lnf_mean = (\<lambda>_. 0), lnf_rstd = (\<lambda>_. 0), logits = (\<lambda>_. 0),
      probs = (\<lambda>_. 0), losses = (\<lambda>_. Fin 0)\<rparr>"

definition example_model :: "real \<Rightarrow> GPT2" where
  "example_model x = \<lparr>params = example_params, params_memory = (\<lambda>_. x), acts = example_acts\<rparr>"

definition example_const :: "nat \<Rightarrow> GPT2Const" where
  "example_const n =
     \<lparr>config = example_config, m_memory = None, v_memory = None, mean_loss = Fin (- 1),
      num_parameters = n\<rparr>"




text \<open>
  The forward pass without its errors: the attention call and one layer on the
  activations when there is a head, the kernels of one layer in the order of their calls,
  and the activations that the whole pass leaves.
\<close>

definition attention_acts :: "GPT2Config \<Rightarrow> nat \<Rightarrow> nat \<Rightarrow> nat \<Rightarrow> ActivationTensors \<Rightarrow> ActivationTensors" where
  "attention_acts cfg B T l a =
     (let C = channels cfg;
          NH = num_heads cfg;
          r = attention_loops (offset_view (qkv a) (l * B * T * 3 * C)) B T C NH
                (offset_view (atty a) (l * B * T * C), offset_view (preatt a) (l * B * NH * T * T),
                 offset_view (att a) (l * B * NH * T * T))
      in a\<lparr>atty := store_view (atty a) (l * B * T * C) (fst r),
           preatt := store_view (preatt a) (l * B * NH * T * T) (fst (snd r)),
           att := store_view (att a) (l * B * NH * T * T) (snd (snd r))\<rparr>)"

definition layer_acts ::
  "GPT2Config \<Rightarrow> ParameterTensors \<Rightarrow> nat \<Rightarrow> nat \<Rightarrow> nat \<Rightarrow> ActivationTensors \<Rightarrow> ActivationTensors" where
  "layer_acts cfg ps B T l a =
     call_residual3 cfg B T l (call_fcproj cfg ps B T l (call_gelu cfg B T l (call_fch cfg ps B T l
       (call_ln2 cfg ps B T l (call_residual2 cfg B T l (call_attproj cfg ps B T l
         (attention_acts cfg B T l (call_qkv cfg ps B T l (call_ln1 cfg ps B T l a)))))))))"

definition layer_kernels :: "kernel list" where
  "layer_kernels =
     [LayerNorm, Matmul, Attention, Matmul, Residual, LayerNorm, Matmul, Gelu, Matmul, Residual]"

definition forward_acts ::
  "GPT2Config \<Rightarrow> ParameterTensors \<Rightarrow> int buf \<Rightarrow> int buf option \<Rightarrow> nat \<Rightarrow> nat \<Rightarrow>
   ActivationTensors \<Rightarrow> ActivationTensors" where
  "forward_acts cfg ps inputs targets B T a =
     (let a = call_encoder cfg ps inputs B T a;
          a = for_upto (num_layers cfg) (layer_acts cfg ps B T) a;
          a = call_probs cfg B T (call_logits cfg ps B T (call_lnf cfg ps B T a))
      in case targets of None \<Rightarrow> a | Some tg \<Rightarrow> call_losses cfg tg B T a)"

text \<open>The assertions of \<^verbatim>\<open>gpt2_forward\<close> as one condition on the first \<open>n\<close> tokens.\<close>

definition ids_in_range :: "int buf \<Rightarrow> int buf option \<Rightarrow> nat \<Rightarrow> nat \<Rightarrow> bool" where
  "ids_in_range inputs targets V n =
     (\<forall>i<n. 0 \<le> inputs i \<and> inputs i < int V \<and>
        (case targets of None \<Rightarrow> True | Some tg \<Rightarrow> 0 \<le> tg i \<and> tg i < int V))"

text \<open>
  Batch rows. A tensor with \<open>B\<close> rows of \<open>n\<close> cells for every layer holds row \<open>b\<close> of layer
  \<open>l\<close> in the cells \<open>l * (B * n) + b * n + j\<close>, \<open>j < n\<close>. \<open>row_eq\<close> says that two buffers
  agree on row \<open>b\<close> of the first slice, \<open>rows_eq\<close> that they agree on row \<open>b\<close> of every
  slice, and \<open>row_agree\<close> that two sets of activations agree on row \<open>b\<close> of every tensor.
  \<open>write_block\<close> is a buffer after \<open>m\<close> cells from \<open>base\<close> on were written.
\<close>

definition write_block :: "nat \<Rightarrow> nat \<Rightarrow> (nat \<Rightarrow> 'a) \<Rightarrow> 'a buf \<Rightarrow> 'a buf" where
  "write_block base m v out = (\<lambda>k. if base \<le> k \<and> k < base + m then v (k - base) else out k)"

definition row_eq :: "nat \<Rightarrow> nat \<Rightarrow> 'a buf \<Rightarrow> 'a buf \<Rightarrow> bool" where
  "row_eq n b f g = (\<forall>j<n. f (b * n + j) = g (b * n + j))"

definition rows_eq :: "nat \<Rightarrow> nat \<Rightarrow> nat \<Rightarrow> 'a buf \<Rightarrow> 'a buf \<Rightarrow> bool" where
  "rows_eq B n b f g = (\<forall>l j. j < n \<longrightarrow> f (l * (B * n) + b * n + j) = g (l * (B * n) + b * n + j))"

definition row_agree :: "GPT2Config \<Rightarrow> nat \<Rightarrow> nat \<Rightarrow> nat \<Rightarrow> ActivationTensors \<Rightarrow> ActivationTensors \<Rightarrow> bool" where
  "row_agree cfg B T b a1 a2 =
     (let C = channels cfg; NH = num_heads cfg; Vp = padded_vocab_size cfg
      in rows_eq B (T * C) b (encoded a1) (encoded a2) \<and>
         rows_eq B (T * C) b (ln1 a1) (ln1 a2) \<and>
         rows_eq B T b (ln1_mean a1) (ln1_mean a2) \<and>
         rows_eq B T b (ln1_rstd a1) (ln1_rstd a2) \<and>
         rows_eq B (T * (3 * C)) b (qkv a1) (qkv a2) \<and>
         rows_eq B (T * C) b (atty a1) (atty a2) \<and>
         rows_eq B (NH * T * T) b (preatt a1) (preatt a2) \<and>
         rows_eq B (NH * T * T) b (att a1) (att a2) \<and>
         rows_eq B (T * C) b (attproj a1) (attproj a2) \<and>
         rows_eq B (T * C) b (residual2 a1) (residual2 a2) \<and>
         rows_eq B (T * C) b (ln2 a1) (ln2 a2) \<and>
         rows_eq B T b (ln2_mean a1) (ln2_mean a2) \<and>
         rows_eq B T b (ln2_rstd a1) (ln2_rstd a2) \<and>
         rows_eq B (T * (4 * C)) b (fch a1) (fch a2) \<and>
         rows_eq B (T * (4 * C)) b (fch_gelu a1) (fch_gelu a2) \<and>
         rows_eq B (T * C) b (fcproj a1) (fcproj a2) \<and>
         rows_eq B (T * C) b (residual3 a1) (residual3 a2) \<and>
         rows_eq B (T * C) b (lnf a1) (lnf a2) \<and>
         rows_eq B T b (lnf_mean a1) (lnf_mean a2) \<and>
         rows_eq B T b (lnf_rstd a1) (lnf_rstd a2) \<and>
         rows_eq B (T * Vp) b (logits a1) (logits a2) \<and>
         rows_eq B (T * Vp) b (probs a1) (probs a2) \<and>
         rows_eq B T b (losses a1) (losses a2))"

text \<open>
  What the claim on the batch rows speaks of. Two optional target buffers agree on row \<open>b\<close>
  when both are absent, or both are present and agree on the \<open>T\<close> targets of the row.
  \<open>layer_rows_eq\<close> says that two buffers agree on row \<open>b\<close> of the slice of every layer
  \<open>l < L\<close>, and \<open>batch_row_eq\<close> that two sets of activations agree on row \<open>b\<close> of every
  tensor: of the slice of every layer for the tensors of the layers, and of the tensor
  for the others, the losses among them.
\<close>

definition targets_row_eq :: "nat \<Rightarrow> nat \<Rightarrow> int buf option \<Rightarrow> int buf option \<Rightarrow> bool" where
  "targets_row_eq T b targets1 targets2 =
     (case targets1 of
        None \<Rightarrow> targets2 = None
      | Some tg1 \<Rightarrow> (case targets2 of None \<Rightarrow> False | Some tg2 \<Rightarrow> row_eq T b tg1 tg2))"

definition layer_rows_eq :: "nat \<Rightarrow> nat \<Rightarrow> nat \<Rightarrow> nat \<Rightarrow> 'a buf \<Rightarrow> 'a buf \<Rightarrow> bool" where
  "layer_rows_eq L B n b f g =
     (\<forall>l<L. \<forall>j<n. f (l * (B * n) + b * n + j) = g (l * (B * n) + b * n + j))"

definition batch_row_eq ::
  "GPT2Config \<Rightarrow> nat \<Rightarrow> nat \<Rightarrow> nat \<Rightarrow> ActivationTensors \<Rightarrow> ActivationTensors \<Rightarrow> bool" where
  "batch_row_eq cfg B T b a1 a2 =
     (let C = channels cfg; NH = num_heads cfg; Vp = padded_vocab_size cfg; L = num_layers cfg
      in row_eq (T * C) b (encoded a1) (encoded a2) \<and>
         layer_rows_eq L B (T * C) b (ln1 a1) (ln1 a2) \<and>
         layer_rows_eq L B T b (ln1_mean a1) (ln1_mean a2) \<and>
         layer_rows_eq L B T b (ln1_rstd a1) (ln1_rstd a2) \<and>
         layer_rows_eq L B (T * (3 * C)) b (qkv a1) (qkv a2) \<and>
         layer_rows_eq L B (T * C) b (atty a1) (atty a2) \<and>
         layer_rows_eq L B (NH * T * T) b (preatt a1) (preatt a2) \<and>
         layer_rows_eq L B (NH * T * T) b (att a1) (att a2) \<and>
         layer_rows_eq L B (T * C) b (attproj a1) (attproj a2) \<and>
         layer_rows_eq L B (T * C) b (residual2 a1) (residual2 a2) \<and>
         layer_rows_eq L B (T * C) b (ln2 a1) (ln2 a2) \<and>
         layer_rows_eq L B T b (ln2_mean a1) (ln2_mean a2) \<and>
         layer_rows_eq L B T b (ln2_rstd a1) (ln2_rstd a2) \<and>
         layer_rows_eq L B (T * (4 * C)) b (fch a1) (fch a2) \<and>
         layer_rows_eq L B (T * (4 * C)) b (fch_gelu a1) (fch_gelu a2) \<and>
         layer_rows_eq L B (T * C) b (fcproj a1) (fcproj a2) \<and>
         layer_rows_eq L B (T * C) b (residual3 a1) (residual3 a2) \<and>
         row_eq (T * C) b (lnf a1) (lnf a2) \<and>
         row_eq T b (lnf_mean a1) (lnf_mean a2) \<and>
         row_eq T b (lnf_rstd a1) (lnf_rstd a2) \<and>
         row_eq (T * Vp) b (logits a1) (logits a2) \<and>
         row_eq (T * Vp) b (probs a1) (probs a2) \<and>
         row_eq T b (losses a1) (losses a2))"

text \<open>What the kernels write for one position: the mean, the reciprocal standard
  deviation and the outputs of the layer norm, the probabilities of the softmax, and the
  weights and outputs of one head of the attention.\<close>

definition ln_mean :: "real buf \<Rightarrow> nat \<Rightarrow> nat \<Rightarrow> nat \<Rightarrow> nat \<Rightarrow> real" where
  "ln_mean inp T C b t = for_upto C (\<lambda>i m. m + inp (b * T * C + t * C + i)) 0 / real C"

definition ln_rstd :: "real buf \<Rightarrow> nat \<Rightarrow> nat \<Rightarrow> nat \<Rightarrow> nat \<Rightarrow> real" where
  "ln_rstd inp T C b t =
     1 / sqrt (for_upto C (\<lambda>i v. v + (inp (b * T * C + t * C + i) - ln_mean inp T C b t) *
                                   (inp (b * T * C + t * C + i) - ln_mean inp T C b t)) 0 / real C
               + 1 / 100000)"

definition ln_out :: "real buf \<Rightarrow> real buf \<Rightarrow> real buf \<Rightarrow> nat \<Rightarrow> nat \<Rightarrow> nat \<Rightarrow> nat \<Rightarrow> nat \<Rightarrow> real" where
  "ln_out inp weight bias T C b t i =
     ln_rstd inp T C b t * (inp (b * T * C + t * C + i) - ln_mean inp T C b t) * weight i + bias i"

definition softmax_val :: "real buf \<Rightarrow> nat \<Rightarrow> nat \<Rightarrow> nat \<Rightarrow> real" where
  "softmax_val lg base V i =
     (if i < V then exp (lg (base + i) - softmax_maxval lg base V) / softmax_sum lg base V else 0)"

definition att_weight :: "real buf \<Rightarrow> nat \<Rightarrow> nat \<Rightarrow> nat \<Rightarrow> nat \<Rightarrow> nat \<Rightarrow> nat \<Rightarrow> nat \<Rightarrow> real" where
  "att_weight inp T C NH b t h t2 =
     (if t2 \<le> t
      then exp (att_score inp T C NH b t h t2 - att_maxval inp T C NH b t h) / att_expsum inp T C NH b t h
      else 0)"

definition att_out :: "real buf \<Rightarrow> nat \<Rightarrow> nat \<Rightarrow> nat \<Rightarrow> nat \<Rightarrow> nat \<Rightarrow> nat \<Rightarrow> nat \<Rightarrow> real" where
  "att_out inp T C NH b t h i =
     for_upto (Suc t) (\<lambda>t2 acc. acc + att_weight inp T C NH b t h t2 *
        inp (b * T * (C * 3) + t2 * (C * 3) + h * (C div NH) + C * 2 + i)) 0"

section \<open>Loops that write cells\<close>

text \<open>What a loop leaves of an observation \<open>f\<close> of its state: nothing changes it when no
  turn does, and it is what turn \<open>i\<close> makes of it when no later turn changes it.\<close>

lemma for_upto_frame:
  assumes "\<And>i s. i < n \<Longrightarrow> f (body i s) = f s"
  shows "f (for_upto n body s) = f s"
  using assms by (induction n) simp_all

lemma for_upto_at:
  assumes "i < n"
    and "\<And>j s. i < j \<Longrightarrow> j < n \<Longrightarrow> f (body j s) = f s"
    and "\<And>s. f (body i s) = v"
  shows "f (for_upto n body s) = v"
  using assms
proof (induction n)
  case 0
  then show ?case by simp
next
  case (Suc n)
  show ?case
  proof (cases "i = n")
    case True
    then show ?thesis using Suc.prems(3) by simp
  next
    case False
    with Suc.prems(1) have lt: "i < n" by simp
    have "f (body n (for_upto n body s)) = f (for_upto n body s)"
      using Suc.prems(2) [of n] lt by simp
    also have "\<dots> = v"
      using Suc.IH [OF lt] Suc.prems(2,3) by simp
    finally show ?thesis by simp
  qed
qed

lemma for_upto_cong:
  assumes "\<And>i s. i < n \<Longrightarrow> body i s = body' i s"
  shows "for_upto n body s = for_upto n body' s"
  using assms by (induction n) simp_all

lemma idx2_inj:
  fixes a a' x x' n :: nat
  assumes "x < n" "x' < n" "a * n + x = a' * n + x'"
  shows "a = a' \<and> x = x'"
proof -
  have "(a * n + x) div n = a" "(a' * n + x') div n = a'"
    using assms(1,2) by simp_all
  then have "a = a'" using assms(3) by simp
  then show ?thesis using assms(3) by simp
qed

lemma idx2_bound:
  fixes a x n m :: nat
  assumes "a < m" "x < n"
  shows "a * n + x < m * n"
proof -
  have "a * n + x < a * n + n" using assms(2) by simp
  also have "\<dots> = Suc a * n" by simp
  also have "\<dots> \<le> m * n" using assms(1) by (intro mult_le_mono1) simp
  finally show ?thesis .
qed

text \<open>The same for two and for three nested loops whose turns write apart from each other.\<close>

lemma for2_frame:
  assumes "\<And>i j s. i < n1 \<Longrightarrow> j < n2 \<Longrightarrow> f (body i j s) = f s"
  shows "f (for_upto n1 (\<lambda>i. for_upto n2 (\<lambda>j. body i j)) s) = f s"
  by (rule for_upto_frame, rule for_upto_frame) (rule assms)

lemma for3_frame:
  assumes "\<And>i j k s. i < n1 \<Longrightarrow> j < n2 \<Longrightarrow> k < n3 \<Longrightarrow> f (body i j k s) = f s"
  shows "f (for_upto n1 (\<lambda>i. for_upto n2 (\<lambda>j. for_upto n3 (\<lambda>k. body i j k))) s) = f s"
  by (rule for_upto_frame, rule for_upto_frame, rule for_upto_frame) (rule assms)

lemma for2_at:
  assumes i: "i < n1" and j: "j < n2"
    and others: "\<And>i' j' s. i' < n1 \<Longrightarrow> j' < n2 \<Longrightarrow> (i', j') \<noteq> (i, j) \<Longrightarrow> f (body i' j' s) = f s"
    and here: "\<And>s. f (body i j s) = v"
  shows "f (for_upto n1 (\<lambda>i. for_upto n2 (\<lambda>j. body i j)) s) = v"
proof (rule for_upto_at [where i = i])
  show "i < n1" by (rule i)
next
  fix i' s' assume "i < i'" "i' < n1"
  then show "f (for_upto n2 (\<lambda>j. body i' j) s') = f s'"
    by (intro for_upto_frame others) auto
next
  fix s'
  show "f (for_upto n2 (\<lambda>j. body i j) s') = v"
  proof (rule for_upto_at [where i = j])
    show "j < n2" by (rule j)
  next
    fix j' s'' assume "j < j'" "j' < n2"
    then show "f (body i j' s'') = f s''"
      using i by (intro others) auto
  next
    fix s''
    show "f (body i j s'') = v" by (rule here)
  qed
qed

lemma for3_at:
  assumes i: "i < n1" and j: "j < n2" and k: "k < n3"
    and others: "\<And>i' j' k' s. i' < n1 \<Longrightarrow> j' < n2 \<Longrightarrow> k' < n3 \<Longrightarrow> (i', j', k') \<noteq> (i, j, k) \<Longrightarrow>
                   f (body i' j' k' s) = f s"
    and here: "\<And>s. f (body i j k s) = v"
  shows "f (for_upto n1 (\<lambda>i. for_upto n2 (\<lambda>j. for_upto n3 (\<lambda>k. body i j k))) s) = v"
proof (rule for2_at [where i = i and j = j])
  show "i < n1" "j < n2" by (rule i, rule j)
next
  fix i' j' s' assume "i' < n1" "j' < n2" "(i', j') \<noteq> (i, j)"
  then show "f (for_upto n3 (\<lambda>k. body i' j' k) s') = f s'"
    by (intro for_upto_frame others) auto
next
  fix s'
  show "f (for_upto n3 (\<lambda>k. body i j k) s') = v"
  proof (rule for_upto_at [where i = k])
    show "k < n3" by (rule k)
  next
    fix k' s'' assume "k < k'" "k' < n3"
    then show "f (body i j k' s'') = f s''"
      using i j by (intro others) auto
  next
    fix s''
    show "f (body i j k s'') = v" by (rule here)
  qed
qed

text \<open>Offsets of cells in arrays of two, three and four dimensions.\<close>

lemma idx3_inj:
  fixes a a' x x' y y' n m :: nat
  assumes "x < n" "x' < n" "y < m" "y' < m" "(a * n + x) * m + y = (a' * n + x') * m + y'"
  shows "a = a' \<and> x = x' \<and> y = y'"
proof -
  from idx2_inj [OF assms(3,4,5)] have "a * n + x = a' * n + x'" "y = y'" by simp_all
  with idx2_inj [OF assms(1,2)] show ?thesis by simp
qed

section \<open>Loops over a pair of an accumulator and a buffer\<close>

lemma range_upd_snoc:
  "(\<lambda>k. if base \<le> k \<and> k < base + n then v (k - base) else p k)(base + n := v n) =
   (\<lambda>k. if base \<le> k \<and> k < base + Suc n then v (k - base) else p k)"
  by (rule ext) auto

lemma for_upto_acc_write:
  "for_upto n (\<lambda>i (a, p). (g i a, p(base + i := v i))) (a0, p0) =
   (for_upto n g a0, (\<lambda>k. if base \<le> k \<and> k < base + n then v (k - base) else p0 k))"
  by (induction n) (auto simp: fun_eq_iff)

lemma for_upto_write:
  "for_upto n (\<lambda>i p. p(base + i := v i)) p0 =
   (\<lambda>k. if base \<le> k \<and> k < base + n then v (k - base) else p0 k)"
  by (induction n) (auto simp: fun_eq_iff)

lemma for_upto_sum:
  fixes v :: "nat \<Rightarrow> real"
  shows "for_upto n (\<lambda>i a. a + v i) a0 = a0 + (\<Sum>i<n. v i)"
  by (induction n) simp_all

lemma for_upto_scale_or_zero:
  fixes p0 :: "real buf"
  shows "for_upto n (\<lambda>i p. if c i then p(base + i := p (base + i) * r) else p(base + i := 0)) p0 =
   (\<lambda>k. if base \<le> k \<and> k < base + n then (if c (k - base) then p0 k * r else 0) else p0 k)"
  by (induction n) (auto simp: fun_eq_iff)

lemma for_upto_divide:
  fixes p0 :: "real buf"
  shows "for_upto n (\<lambda>i p. p(base + i := p (base + i) / r)) p0 =
   (\<lambda>k. if base \<le> k \<and> k < base + n then p0 k / r else p0 k)"
  by (induction n) (auto simp: fun_eq_iff)

lemma for_range_const:
  "for_range lo hi (\<lambda>i p. p(base + i := c)) p0 =
   (\<lambda>k. if base + lo \<le> k \<and> k < base + lo + (hi - lo) then c else p0 k)"
  unfolding for_range_def by (simp only: add.assoc [symmetric] for_upto_write)

section \<open>The two matrix products\<close>

lemma naive_row_at:
  assumes "oc < OC"
  shows "for_upto OC (\<lambda>oc out. out(bt * OC + oc := g oc)) out (bt' * OC + oc) =
         (if bt' = bt then g oc else out (bt' * OC + oc))"
proof (cases "bt' = bt")
  case True
  have "for_upto OC (\<lambda>oc out. out(bt * OC + oc := g oc)) out (bt * OC + oc) = g oc"
    by (rule for_upto_at [where f = "\<lambda>s. s (bt * OC + oc)" and i = oc]) (use assms in simp_all)
  then show ?thesis using True by simp
next
  case False
  have "for_upto OC (\<lambda>oc out. out(bt * OC + oc := g oc)) out (bt' * OC + oc) = out (bt' * OC + oc)"
  proof (rule for_upto_frame [where f = "\<lambda>s. s (bt' * OC + oc)"])
    fix i s assume "i < OC"
    then have "bt' * OC + oc \<noteq> bt * OC + i"
      using idx2_inj [of oc OC i bt' bt] assms False by auto
    then show "(s(bt * OC + i := g i)) (bt' * OC + oc) = s (bt' * OC + oc)" by simp
  qed
  then show ?thesis using False by simp
qed

lemma matmul_forward_naive_at:
  assumes "b < B" "t < T" "oc < OC"
  shows "matmul_forward_naive out inp weight bias B T C OC ((b * T + t) * OC + oc) =
         dotp inp weight bias C (b * T + t) oc"
  unfolding matmul_forward_naive_def Let_def
proof (rule for_upto_at [where f = "\<lambda>s. s ((b * T + t) * OC + oc)" and i = b])
  show "b < B" by fact
next
  fix j s assume "b < j" "j < B"
  show "for_upto T (\<lambda>t. for_upto OC (\<lambda>oc out. out((j * T + t) * OC + oc :=
          for_upto C (\<lambda>i val. val + inp ((j * T + t) * C + i) * weight (oc * C + i)) (bias_at bias oc)))) s
          ((b * T + t) * OC + oc) = s ((b * T + t) * OC + oc)"
  proof (rule for_upto_frame [where f = "\<lambda>s. s ((b * T + t) * OC + oc)"])
    fix i s' assume "i < T"
    have "b * T + t \<noteq> j * T + i"
      using idx2_inj [of i T t j b] \<open>i < T\<close> \<open>t < T\<close> \<open>b < j\<close> by auto
    then show "for_upto OC (\<lambda>oc out. out((j * T + i) * OC + oc :=
          for_upto C (\<lambda>ia val. val + inp ((j * T + i) * C + ia) * weight (oc * C + ia)) (bias_at bias oc))) s'
          ((b * T + t) * OC + oc) = s' ((b * T + t) * OC + oc)"
      by (simp add: naive_row_at [OF assms(3)])
  qed
next
  fix s
  show "for_upto T (\<lambda>t. for_upto OC (\<lambda>oc out. out((b * T + t) * OC + oc :=
          for_upto C (\<lambda>i val. val + inp ((b * T + t) * C + i) * weight (oc * C + i)) (bias_at bias oc)))) s
          ((b * T + t) * OC + oc) = dotp inp weight bias C (b * T + t) oc"
  proof (rule for_upto_at [where f = "\<lambda>s. s ((b * T + t) * OC + oc)" and i = t])
    show "t < T" by fact
  next
    fix j s' assume "t < j" "j < T"
    then have "b * T + t \<noteq> b * T + j" by simp
    then show "for_upto OC (\<lambda>oc out. out((b * T + j) * OC + oc :=
          for_upto C (\<lambda>i val. val + inp ((b * T + j) * C + i) * weight (oc * C + i)) (bias_at bias oc))) s'
          ((b * T + t) * OC + oc) = s' ((b * T + t) * OC + oc)"
      by (simp add: naive_row_at [OF assms(3)])
  next
    fix s'
    show "for_upto OC (\<lambda>oc out. out((b * T + t) * OC + oc :=
          for_upto C (\<lambda>i val. val + inp ((b * T + t) * C + i) * weight (oc * C + i)) (bias_at bias oc))) s'
          ((b * T + t) * OC + oc) = dotp inp weight bias C (b * T + t) oc"
      by (simp add: naive_row_at [OF assms(3)] dotp_def)
  qed
qed

lemma matmul_forward_naive_frame:
  assumes "B * T * OC \<le> k"
  shows "matmul_forward_naive out inp weight bias B T C OC k = out k"
  unfolding matmul_forward_naive_def Let_def
proof (rule for_upto_frame [where f = "\<lambda>s. s k"])
  fix b s assume b: "b < B"
  show "for_upto T (\<lambda>t. for_upto OC (\<lambda>oc out. out((b * T + t) * OC + oc :=
          for_upto C (\<lambda>i val. val + inp ((b * T + t) * C + i) * weight (oc * C + i)) (bias_at bias oc)))) s k = s k"
  proof (rule for_upto_frame [where f = "\<lambda>s. s k"])
    fix t s' assume t: "t < T"
    show "for_upto OC (\<lambda>oc out. out((b * T + t) * OC + oc :=
          for_upto C (\<lambda>i val. val + inp ((b * T + t) * C + i) * weight (oc * C + i)) (bias_at bias oc))) s' k = s' k"
    proof (rule for_upto_frame [where f = "\<lambda>s. s k"])
      fix oc s'' assume oc: "oc < OC"
      have "b * T + t < B * T" using idx2_bound [OF b t] .
      then have "(b * T + t) * OC + oc < B * T * OC" using idx2_bound oc by blast
      then show "(s''((b * T + t) * OC + oc :=
          for_upto C (\<lambda>i val. val + inp ((b * T + t) * C + i) * weight (oc * C + i)) (bias_at bias oc))) k = s'' k"
        using assms by simp
    qed
  qed
qed

lemma acc_step:
  "for_upto n (\<lambda>j r. r(j := r j + x j)) r0 j = (if j < n then r0 j + x j else r0 j)"
  by (induction n arbitrary: j) (simp_all add: less_Suc_eq)

lemma init_step:
  "for_upto n (\<lambda>j r. r(j := c)) r0 j = (if j < n then c else r0 j)"
  by (induction n arbitrary: j) (simp_all add: less_Suc_eq)

lemma tile_accumulate:
  assumes "ibt < n"
  shows "for_upto m (\<lambda>i result. for_upto n (\<lambda>ibt result.
            result(ibt := result ibt + a ibt i * w i)) result) r0 ibt
         = for_upto m (\<lambda>i val. val + a ibt i * w i) (r0 ibt)"
  using assms by (induction m) (simp_all add: acc_step)

lemma tile_result:
  assumes "ibt < n"
  shows "for_upto C (\<lambda>i result. for_upto n (\<lambda>ibt result.
            result(ibt := result ibt + inp ((obt + ibt) * C + i) * weight (i + oc * C))) result) r0 ibt
         = for_upto C (\<lambda>i val. val + inp ((obt + ibt) * C + i) * weight (oc * C + i)) (r0 ibt)"
  using tile_accumulate [OF assms, of C "\<lambda>ibt i. inp ((obt + ibt) * C + i)" "\<lambda>i. weight (i + oc * C)" r0]
  by (simp add: add.commute [of _ "oc * C"])

lemma tile_write_at:
  assumes "oc < OC" "oc' < OC"
  shows "for_upto n (\<lambda>ibt out. out((obt + ibt) * OC + oc' := r ibt)) out (bt * OC + oc) =
         (if oc' = oc \<and> obt \<le> bt \<and> bt < obt + n then r (bt - obt) else out (bt * OC + oc))"
proof (cases "oc' = oc \<and> obt \<le> bt \<and> bt < obt + n")
  case True
  then have eq: "obt + (bt - obt) = bt" and lt: "bt - obt < n" by auto
  have "for_upto n (\<lambda>ibt out. out((obt + ibt) * OC + oc := r ibt)) out ((obt + (bt - obt)) * OC + oc) = r (bt - obt)"
    by (rule for_upto_at [where f = "\<lambda>s. s ((obt + (bt - obt)) * OC + oc)" and i = "bt - obt"])
      (use lt assms in simp_all)
  then show ?thesis using True eq by simp
next
  case False
  have "for_upto n (\<lambda>ibt out. out((obt + ibt) * OC + oc' := r ibt)) out (bt * OC + oc) = out (bt * OC + oc)"
  proof (rule for_upto_frame [where f = "\<lambda>s. s (bt * OC + oc)"])
    fix i s assume i: "i < n"
    have "bt * OC + oc \<noteq> (obt + i) * OC + oc'"
      using idx2_inj [OF assms, of bt "obt + i"] False i by auto
    then show "(s((obt + i) * OC + oc' := r i)) (bt * OC + oc) = s (bt * OC + oc)" by simp
  qed
  then show ?thesis by (simp only: False if_False)
qed

lemma matmul_tile_at:
  assumes "oc < OC" "obt \<le> bt" "bt < obt + n"
  shows "for_upto OC (\<lambda>oc out.
          let result = for_upto n (\<lambda>ibt result. result(ibt := bias_at bias oc)) (\<lambda>_. 0);
              result = for_upto C (\<lambda>i result.
                let w = weight (i + oc * C) in
                for_upto n (\<lambda>ibt result.
                  let bt = obt + ibt in result(ibt := result ibt + inp (bt * C + i) * w)) result) result
          in for_upto n (\<lambda>ibt out.
               let bt = obt + ibt in out(bt * OC + oc := result ibt)) out) s (bt * OC + oc)
        = dotp inp weight bias C bt oc"
  unfolding Let_def
proof (rule for_upto_at [where f = "\<lambda>s. s (bt * OC + oc)" and i = oc])
  show "oc < OC" by fact
next
  fix j s' assume "oc < j" "j < OC"
  then show "for_upto n (\<lambda>ibt out. out((obt + ibt) * OC + j :=
      for_upto C (\<lambda>i result. for_upto n (\<lambda>ibt result.
         result(ibt := result ibt + inp ((obt + ibt) * C + i) * weight (i + j * C))) result)
       (for_upto n (\<lambda>ibt result. result(ibt := bias_at bias j)) (\<lambda>_. 0)) ibt)) s' (bt * OC + oc)
     = s' (bt * OC + oc)"
    by (simp add: tile_write_at [OF assms(1)])
next
  fix s'
  have lt: "bt - obt < n" and eq: "obt + (bt - obt) = bt" using assms by auto
  show "for_upto n (\<lambda>ibt out. out((obt + ibt) * OC + oc :=
      for_upto C (\<lambda>i result. for_upto n (\<lambda>ibt result.
         result(ibt := result ibt + inp ((obt + ibt) * C + i) * weight (i + oc * C))) result)
       (for_upto n (\<lambda>ibt result. result(ibt := bias_at bias oc)) (\<lambda>_. 0)) ibt)) s' (bt * OC + oc)
     = dotp inp weight bias C bt oc"
    using assms lt eq by (simp add: tile_write_at [OF assms(1) assms(1)] tile_result [OF lt] init_step dotp_def)
qed

lemma matmul_tile_frame:
  assumes "oc < OC" "bt < obt \<or> obt + n \<le> bt"
  shows "for_upto OC (\<lambda>oc out.
          let result = for_upto n (\<lambda>ibt result. result(ibt := bias_at bias oc)) (\<lambda>_. 0);
              result = for_upto C (\<lambda>i result.
                let w = weight (i + oc * C) in
                for_upto n (\<lambda>ibt result.
                  let bt = obt + ibt in result(ibt := result ibt + inp (bt * C + i) * w)) result) result
          in for_upto n (\<lambda>ibt out.
               let bt = obt + ibt in out(bt * OC + oc := result ibt)) out) s (bt * OC + oc)
        = s (bt * OC + oc)"
  unfolding Let_def
  by (rule for_upto_frame [where f = "\<lambda>s. s (bt * OC + oc)"])
     (use assms in \<open>auto simp add: tile_write_at [OF assms(1)]\<close>)

lemma matmul_tile_frame_hi:
  assumes "m * OC \<le> k" "obt + n \<le> m"
  shows "for_upto OC (\<lambda>oc out.
          let result = for_upto n (\<lambda>ibt result. result(ibt := bias_at bias oc)) (\<lambda>_. 0);
              result = for_upto C (\<lambda>i result.
                let w = weight (i + oc * C) in
                for_upto n (\<lambda>ibt result.
                  let bt = obt + ibt in result(ibt := result ibt + inp (bt * C + i) * w)) result) result
          in for_upto n (\<lambda>ibt out.
               let bt = obt + ibt in out(bt * OC + oc := result ibt)) out) s k
        = s k"
  unfolding Let_def
proof (rule for_upto_frame [where f = "\<lambda>s. s k"])
  fix oc s' assume oc: "oc < OC"
  show "for_upto n (\<lambda>ibt out. out((obt + ibt) * OC + oc :=
      for_upto C (\<lambda>i result. for_upto n (\<lambda>ibt result.
         result(ibt := result ibt + inp ((obt + ibt) * C + i) * weight (i + oc * C))) result)
       (for_upto n (\<lambda>ibt result. result(ibt := bias_at bias oc)) (\<lambda>_. 0)) ibt)) s' k = s' k"
  proof (rule for_upto_frame [where f = "\<lambda>s. s k"])
    fix i s'' assume "i < n"
    then have "obt + i < m" using assms(2) by simp
    then have "(obt + i) * OC + oc < m * OC" using idx2_bound oc by blast
    then show "(s''((obt + i) * OC + oc :=
      for_upto C (\<lambda>ia result. for_upto n (\<lambda>ibt result.
         result(ibt := result ibt + inp ((obt + ibt) * C + ia) * weight (ia + oc * C))) result)
       (for_upto n (\<lambda>ibt result. result(ibt := bias_at bias oc)) (\<lambda>_. 0)) i)) k = s'' k"
      using assms(1) by simp
  qed
qed

lemma tile_count:
  fixes n :: nat
  assumes "n mod 8 = 0"
  shows "(n + 8 - 1) div 8 = n div 8"
proof -
  from assms have "8 dvd n" by (simp add: dvd_eq_mod_eq_0)
  then obtain q where "n = 8 * q" by (auto elim: dvdE)
  then show ?thesis by simp
qed

lemma tile_of_row:
  fixes n bt :: nat
  assumes "n mod 8 = 0" "bt < n"
  shows "bt div 8 < n div 8"
proof -
  from assms have "8 dvd n" by (simp add: dvd_eq_mod_eq_0)
  then obtain q where "n = 8 * q" by (auto elim: dvdE)
  then show ?thesis using assms(2) by (simp add: div_less_iff_less_mult mult.commute)
qed

lemma tile_later:
  fixes j bt :: nat
  assumes "bt div 8 < j"
  shows "bt < j * 8"
  using assms by (simp add: div_less_iff_less_mult)

lemma tile_bounds:
  fixes bt :: nat
  shows "bt div 8 * 8 \<le> bt" "bt < bt div 8 * 8 + 8"
proof -
  show "bt div 8 * 8 \<le> bt" by simp
  have "bt = bt div 8 * 8 + bt mod 8" by simp
  moreover have "bt mod 8 < 8" by simp
  ultimately show "bt < bt div 8 * 8 + 8" by linarith
qed

lemma tile_inside:
  fixes j n :: nat
  assumes "j < n div 8"
  shows "j * 8 + 8 \<le> n"
proof -
  have "Suc j \<le> n div 8" using assms by simp
  then have "Suc j * 8 \<le> n" by (simp add: less_eq_div_iff_mult_less_eq)
  then show ?thesis by simp
qed

lemma matmul_forward_at:
  assumes "bt < B * T" "oc < OC"
  shows "matmul_forward out inp weight bias B T C OC (bt * OC + oc) = dotp inp weight bias C bt oc"
proof (cases "(B * T) mod LOOP_UNROLL \<noteq> 0")
  case True
  have T0: "0 < T" using assms(1) by (cases T) simp_all
  then have "bt div T < B" using assms(1) by (simp add: less_mult_imp_div_less mult.commute)
  moreover have "bt mod T < T" using T0 by simp
  ultimately have "matmul_forward_naive out inp weight bias B T C OC ((bt div T * T + bt mod T) * OC + oc)
      = dotp inp weight bias C (bt div T * T + bt mod T) oc"
    using assms(2) by (rule matmul_forward_naive_at)
  then show ?thesis using True by (simp add: matmul_forward_def)
next
  case False
  then have dvd: "(B * T) mod 8 = 0" by (simp add: LOOP_UNROLL_def)
  have cnt: "(B * T + 8 - 1) div 8 = B * T div 8" using dvd by (rule tile_count)
  have k: "bt div 8 < B * T div 8" using dvd assms(1) by (rule tile_of_row)
  have "for_upto (B * T div 8) (\<lambda>k. for_upto OC (\<lambda>oc out.
          let result = for_upto 8 (\<lambda>ibt result. result(ibt := bias_at bias oc)) (\<lambda>_. 0);
              result = for_upto C (\<lambda>i result.
                let w = weight (i + oc * C) in
                for_upto 8 (\<lambda>ibt result.
                  let bt = k * 8 + ibt in result(ibt := result ibt + inp (bt * C + i) * w)) result) result
          in for_upto 8 (\<lambda>ibt out.
               let bt = k * 8 + ibt in out(bt * OC + oc := result ibt)) out)) out (bt * OC + oc)
        = dotp inp weight bias C bt oc"
  proof (rule for_upto_at [where f = "\<lambda>s. s (bt * OC + oc)" and i = "bt div 8"])
    show "bt div 8 < B * T div 8" by (rule k)
  next
    fix j s assume "bt div 8 < j" "j < B * T div 8"
    then have "bt < j * 8" using tile_later by blast
    then show "for_upto OC (\<lambda>oc out.
          let result = for_upto 8 (\<lambda>ibt result. result(ibt := bias_at bias oc)) (\<lambda>_. 0);
              result = for_upto C (\<lambda>i result.
                let w = weight (i + oc * C) in
                for_upto 8 (\<lambda>ibt result.
                  let bt = j * 8 + ibt in result(ibt := result ibt + inp (bt * C + i) * w)) result) result
          in for_upto 8 (\<lambda>ibt out.
               let bt = j * 8 + ibt in out(bt * OC + oc := result ibt)) out) s (bt * OC + oc)
        = s (bt * OC + oc)"
      using assms(2) by (intro matmul_tile_frame) simp_all
  next
    fix s
    have "bt div 8 * 8 \<le> bt" "bt < bt div 8 * 8 + 8" by (rule tile_bounds)+
    then show "for_upto OC (\<lambda>oc out.
          let result = for_upto 8 (\<lambda>ibt result. result(ibt := bias_at bias oc)) (\<lambda>_. 0);
              result = for_upto C (\<lambda>i result.
                let w = weight (i + oc * C) in
                for_upto 8 (\<lambda>ibt result.
                  let bt = bt div 8 * 8 + ibt in result(ibt := result ibt + inp (bt * C + i) * w)) result) result
          in for_upto 8 (\<lambda>ibt out.
               let bt = bt div 8 * 8 + ibt in out(bt * OC + oc := result ibt)) out) s (bt * OC + oc)
        = dotp inp weight bias C bt oc"
      using assms(2) by (intro matmul_tile_at) simp_all
  qed
  then show ?thesis using False cnt by (simp add: matmul_forward_def for_stride_def LOOP_UNROLL_def)
qed

lemma matmul_forward_frame:
  assumes "B * T * OC \<le> k"
  shows "matmul_forward out inp weight bias B T C OC k = out k"
proof (cases "(B * T) mod LOOP_UNROLL \<noteq> 0")
  case True
  then show ?thesis using matmul_forward_naive_frame [OF assms] by (simp add: matmul_forward_def)
next
  case False
  then have dvd: "(B * T) mod 8 = 0" by (simp add: LOOP_UNROLL_def)
  have cnt: "(B * T + 8 - 1) div 8 = B * T div 8" using dvd by (rule tile_count)
  have "for_upto (B * T div 8) (\<lambda>k. for_upto OC (\<lambda>oc out.
          let result = for_upto 8 (\<lambda>ibt result. result(ibt := bias_at bias oc)) (\<lambda>_. 0);
              result = for_upto C (\<lambda>i result.
                let w = weight (i + oc * C) in
                for_upto 8 (\<lambda>ibt result.
                  let bt = k * 8 + ibt in result(ibt := result ibt + inp (bt * C + i) * w)) result) result
          in for_upto 8 (\<lambda>ibt out.
               let bt = k * 8 + ibt in out(bt * OC + oc := result ibt)) out)) out k
        = out k"
  proof (rule for_upto_frame [where f = "\<lambda>s. s k"])
    fix j s assume "j < B * T div 8"
    then have "j * 8 + 8 \<le> B * T" by (rule tile_inside)
    with assms show "for_upto OC (\<lambda>oc out.
          let result = for_upto 8 (\<lambda>ibt result. result(ibt := bias_at bias oc)) (\<lambda>_. 0);
              result = for_upto C (\<lambda>i result.
                let w = weight (i + oc * C) in
                for_upto 8 (\<lambda>ibt result.
                  let bt = j * 8 + ibt in result(ibt := result ibt + inp (bt * C + i) * w)) result) result
          in for_upto 8 (\<lambda>ibt out.
               let bt = j * 8 + ibt in out(bt * OC + oc := result ibt)) out) s k = s k"
      by (intro matmul_tile_frame_hi [where m = "B * T"]) simp_all
  qed
  then show ?thesis using False cnt by (simp add: matmul_forward_def for_stride_def LOOP_UNROLL_def)
qed

lemma matmul_forward_naive_at':
  assumes "bt < B * T" "oc < OC"
  shows "matmul_forward_naive out inp weight bias B T C OC (bt * OC + oc) = dotp inp weight bias C bt oc"
proof -
  have T0: "0 < T" using assms(1) by (cases T) simp_all
  then have "bt div T < B" using assms(1) by (simp add: less_mult_imp_div_less mult.commute)
  moreover have "bt mod T < T" using T0 by simp
  ultimately have "matmul_forward_naive out inp weight bias B T C OC ((bt div T * T + bt mod T) * OC + oc)
      = dotp inp weight bias C (bt div T * T + bt mod T) oc"
    using assms(2) by (rule matmul_forward_naive_at)
  then show ?thesis by simp
qed

lemma matmul_forward_is_naive:
  "matmul_forward out inp weight bias B T C OC = matmul_forward_naive out inp weight bias B T C OC"
proof
  fix k
  show "matmul_forward out inp weight bias B T C OC k = matmul_forward_naive out inp weight bias B T C OC k"
  proof (cases "k < B * T * OC")
    case True
    then have OC0: "0 < OC" by (cases OC) simp_all
    have bt: "k div OC < B * T" using True OC0 by (simp add: less_mult_imp_div_less)
    have oc: "k mod OC < OC" using OC0 by simp
    have k: "k = k div OC * OC + k mod OC" by simp
    show ?thesis
      by (subst (1 2) k) (simp only: matmul_forward_at [OF bt oc] matmul_forward_naive_at' [OF bt oc])
  next
    case False
    then show ?thesis by (simp add: matmul_forward_frame matmul_forward_naive_frame)
  qed
qed


text \<open>
  Claim C4. For every shape \<open>(B, T, C, OC)\<close> and all input, weight and optional bias
  buffers, the tiled \<^verbatim>\<open>matmul_forward\<close> and the triple loop \<^verbatim>\<open>matmul_forward_naive\<close>
  leave the same output buffer. The element type is any type with a zero, a sum and a
  product, with no law assumed of them: each output cell is accumulated from the bias
  over \<open>i = 0, \<dots>, C - 1\<close> in both, so the two agree exactly, and with that within every
  tolerance, whether or not \<open>B * T\<close> is a multiple of 8.
\<close>

theorem matmul_forward_eq_naive:
  "matmul_forward out inp weight bias B T C OC = matmul_forward_naive out inp weight bias B T C OC"
  by (rule matmul_forward_is_naive)
section \<open>The attention\<close>

lemma attention_bth_preatt:
  "fst (snd (attention_bth inp T C NH b t h (out0, pre0, att0))) =
   (\<lambda>k. if att_row NH T b h t \<le> k \<and> k < att_row NH T b h t + Suc t
        then att_score inp T C NH b t h (k - att_row NH T b h t) else pre0 k)"
  unfolding attention_bth_def Let_def att_row_def att_score_def
  by (auto simp add: for_upto_acc_write fun_eq_iff simp del: for_upto.simps)


lemma attention_bth_att:
  assumes "t < T"
  shows "snd (snd (attention_bth inp T C NH b t h (out0, pre0, att0))) =
   (\<lambda>k. if att_row NH T b h t \<le> k \<and> k < att_row NH T b h t + T
        then (if k - att_row NH T b h t \<le> t
              then exp (att_score inp T C NH b t h (k - att_row NH T b h t) - att_maxval inp T C NH b t h)
                     / att_expsum inp T C NH b t h
              else 0)
        else att0 k)"
  unfolding attention_bth_def Let_def att_row_def att_score_def att_maxval_def att_expsum_def
  using assms
  by (auto simp add: for_upto_acc_write for_upto_scale_or_zero for_upto_sum fun_eq_iff simp del: for_upto.simps)

lemma att_row_inj:
  assumes "t < T" "t' < T" "h < NH" "h' < NH" "t2 < T" "t2' < T"
    and "att_row NH T b h t + t2 = att_row NH T b' h' t' + t2'"
  shows "b = b' \<and> h = h' \<and> t = t' \<and> t2 = t2'"
proof -
  have e: "att_row NH T x y z + w = ((x * NH + y) * T + z) * T + w" for x y z w
    by (simp add: att_row_def algebra_simps)
  from assms(7) have "((b * NH + h) * T + t) * T + t2 = ((b' * NH + h') * T + t') * T + t2'"
    by (simp only: e)
  from idx3_inj [OF assms(1,2,5,6) this] have "b * NH + h = b' * NH + h'" "t = t'" "t2 = t2'"
    by simp_all
  with idx2_inj [OF assms(3,4)] show ?thesis by simp
qed

lemma attention_bth_att_other:
  assumes "t < T" "t' < T" "h < NH" "h' < NH" "t2 < T" "(b', t', h') \<noteq> (b, t, h)"
  shows "snd (snd (attention_bth inp T C NH b' t' h' s)) (att_row NH T b h t + t2) =
         snd (snd s) (att_row NH T b h t + t2)"
proof -
  obtain out0 pre0 att0 where s: "s = (out0, pre0, att0)" by (cases s)
  have "\<not> (att_row NH T b' h' t' \<le> att_row NH T b h t + t2 \<and>
            att_row NH T b h t + t2 < att_row NH T b' h' t' + T)"
  proof
    assume a: "att_row NH T b' h' t' \<le> att_row NH T b h t + t2 \<and>
            att_row NH T b h t + t2 < att_row NH T b' h' t' + T"
    define d where "d = att_row NH T b h t + t2 - att_row NH T b' h' t'"
    have "d < T" "att_row NH T b h t + t2 = att_row NH T b' h' t' + d"
      using a by (auto simp: d_def)
    from att_row_inj [OF assms(1,2,3,4,5) this] assms(6) show False by simp
  qed
  then show ?thesis
    unfolding s by (auto simp add: attention_bth_att [OF assms(2)])
qed

lemma attention_bth_preatt_other:
  assumes "t < T" "t' < T" "h < NH" "h' < NH" "t2 < T" "(b', t', h') \<noteq> (b, t, h) \<or> t < t2"
  shows "fst (snd (attention_bth inp T C NH b' t' h' s)) (att_row NH T b h t + t2) =
         fst (snd s) (att_row NH T b h t + t2)"
proof -
  obtain out0 pre0 att0 where s: "s = (out0, pre0, att0)" by (cases s)
  have "\<not> (att_row NH T b' h' t' \<le> att_row NH T b h t + t2 \<and>
            att_row NH T b h t + t2 < att_row NH T b' h' t' + Suc t')"
  proof
    assume a: "att_row NH T b' h' t' \<le> att_row NH T b h t + t2 \<and>
            att_row NH T b h t + t2 < att_row NH T b' h' t' + Suc t'"
    define d where "d = att_row NH T b h t + t2 - att_row NH T b' h' t'"
    have d: "d \<le> t'" "att_row NH T b h t + t2 = att_row NH T b' h' t' + d"
      using a by (auto simp: d_def)
    then have "d < T" using assms(2) by simp
    from att_row_inj [OF assms(1,2,3,4,5) this d(2)] assms(6) d(1) show False by auto
  qed
  then show ?thesis
    unfolding s by (auto simp add: attention_bth_preatt)
qed

lemma attention_forward_loops:
  "0 < NH \<Longrightarrow> attention_forward out0 pre0 att0 inp B T C NH = Inr (attention_loops inp B T C NH (out0, pre0, att0))"
  by (simp add: attention_forward_def attention_loops_def)

lemma attention_loops_att:
  assumes "b < B" "t < T" "h < NH" "t2 < T"
  shows "snd (snd (attention_loops inp B T C NH s)) (att_row NH T b h t + t2) =
         (if t2 \<le> t
          then exp (att_score inp T C NH b t h t2 - att_maxval inp T C NH b t h) / att_expsum inp T C NH b t h
          else 0)"
  unfolding attention_loops_def
proof (rule for3_at [where f = "\<lambda>s. snd (snd s) (att_row NH T b h t + t2)" and i = b and j = t and k = h])
  show "b < B" "t < T" "h < NH" by fact+
next
  fix b' t' h' s'
  assume "b' < B" "t' < T" "h' < NH" "(b', t', h') \<noteq> (b, t, h)"
  then show "snd (snd (attention_bth inp T C NH b' t' h' s')) (att_row NH T b h t + t2) =
             snd (snd s') (att_row NH T b h t + t2)"
    using assms by (intro attention_bth_att_other) auto
next
  fix s' :: "real buf \<times> real buf \<times> real buf"
  obtain out0 pre0 att0 where s: "s' = (out0, pre0, att0)" by (cases s')
  show "snd (snd (attention_bth inp T C NH b t h s')) (att_row NH T b h t + t2) =
        (if t2 \<le> t
          then exp (att_score inp T C NH b t h t2 - att_maxval inp T C NH b t h) / att_expsum inp T C NH b t h
          else 0)"
    unfolding s using assms by (simp add: attention_bth_att)
qed

lemma attention_loops_preatt_written:
  assumes "b < B" "t < T" "h < NH" "t2 \<le> t"
  shows "fst (snd (attention_loops inp B T C NH s)) (att_row NH T b h t + t2) =
         att_score inp T C NH b t h t2"
  unfolding attention_loops_def
proof (rule for3_at [where f = "\<lambda>s. fst (snd s) (att_row NH T b h t + t2)" and i = b and j = t and k = h])
  show "b < B" "t < T" "h < NH" by fact+
next
  fix b' t' h' s'
  assume "b' < B" "t' < T" "h' < NH" "(b', t', h') \<noteq> (b, t, h)"
  then show "fst (snd (attention_bth inp T C NH b' t' h' s')) (att_row NH T b h t + t2) =
             fst (snd s') (att_row NH T b h t + t2)"
    using assms by (intro attention_bth_preatt_other) auto
next
  fix s' :: "real buf \<times> real buf \<times> real buf"
  obtain out0 pre0 att0 where s: "s' = (out0, pre0, att0)" by (cases s')
  show "fst (snd (attention_bth inp T C NH b t h s')) (att_row NH T b h t + t2) =
        att_score inp T C NH b t h t2"
    unfolding s using assms by (simp add: attention_bth_preatt)
qed

lemma attention_loops_preatt_masked:
  assumes "t < T" "h < NH" "t < t2" "t2 < T"
  shows "fst (snd (attention_loops inp B T C NH s)) (att_row NH T b h t + t2) =
         fst (snd s) (att_row NH T b h t + t2)"
  unfolding attention_loops_def
proof (rule for3_frame [where f = "\<lambda>s. fst (snd s) (att_row NH T b h t + t2)"])
  fix b' t' h' s'
  assume "b' < B" "t' < T" "h' < NH"
  then show "fst (snd (attention_bth inp T C NH b' t' h' s')) (att_row NH T b h t + t2) =
             fst (snd s') (att_row NH T b h t + t2)"
    using assms by (intro attention_bth_preatt_other) auto
qed





text \<open>
  Claim C10. For all \<open>b < B\<close>, \<open>t < T\<close>, \<open>h < NH\<close>, \<^verbatim>\<open>attention_forward\<close> returns; in row
  \<open>(b, h, t)\<close> of \<open>preatt\<close> the cells \<open>t2 \<le> t\<close> hold the scaled products of query \<open>t\<close> and key
  \<open>t2\<close>, and every cell \<open>t < t2 < T\<close> holds what it held before the call, while the same
  cell of \<open>att\<close> holds 0. So with \<open>T > 1\<close> the call leaves cells of the \<open>B * NH * T * T\<close>
  score buffer as it found them.
\<close>

theorem attention_forward_preatt_frame:
  assumes "b < B" "t < T" "h < NH"
  shows "\<exists>out' pre' att'.
           attention_forward out0 pre0 att0 inp B T C NH = Inr (out', pre', att') \<and>
           (\<forall>t2. t2 \<le> t \<longrightarrow>
              pre' (b * NH * T * T + h * T * T + t * T + t2) = att_score inp T C NH b t h t2) \<and>
           (\<forall>t2. t < t2 \<and> t2 < T \<longrightarrow>
              pre' (b * NH * T * T + h * T * T + t * T + t2) =
                pre0 (b * NH * T * T + h * T * T + t * T + t2) \<and>
              att' (b * NH * T * T + h * T * T + t * T + t2) = 0)"
proof -
  define r where "r = attention_loops inp B T C NH (out0, pre0, att0)"
  have ret: "attention_forward out0 pre0 att0 inp B T C NH = Inr (fst r, fst (snd r), snd (snd r))"
    using assms(3) by (simp add: attention_forward_loops r_def)
  have w: "fst (snd r) (b * NH * T * T + h * T * T + t * T + t2) = att_score inp T C NH b t h t2"
    if "t2 \<le> t" for t2
    using attention_loops_preatt_written [OF assms that, of inp C "(out0, pre0, att0)"]
    by (simp add: r_def att_row_def)
  have m: "fst (snd r) (b * NH * T * T + h * T * T + t * T + t2) =
           pre0 (b * NH * T * T + h * T * T + t * T + t2)"
    if "t < t2" "t2 < T" for t2
    using attention_loops_preatt_masked [OF assms(2,3) that, of inp B C "(out0, pre0, att0)" b]
    by (simp add: r_def att_row_def)
  have z: "snd (snd r) (b * NH * T * T + h * T * T + t * T + t2) = 0"
    if "t < t2" "t2 < T" for t2
    using attention_loops_att [OF assms that(2), of inp C "(out0, pre0, att0)"] that(1)
    by (simp add: r_def att_row_def)
  show ?thesis using ret w m z by blast
qed

theorem attention_forward_preatt_frame_witness:
  "\<exists>out' pre' att'.
     attention_forward (\<lambda>_. 0) (\<lambda>_. 7) (\<lambda>_. 7) (\<lambda>_. 0) 1 2 1 1 = Inr (out', pre', att') \<and>
     pre' 0 = 0 \<and> pre' 1 = 7 \<and> att' 1 = 0"
proof -
  have h: "(0::nat) < 1" "(0::nat) < 2" "(0::nat) < 1" by simp_all
  from attention_forward_preatt_frame [OF h, of "\<lambda>_. 0" "\<lambda>_. 7" "\<lambda>_. 7" "\<lambda>_. 0" 1]
  obtain out' pre' att' where
    r: "attention_forward (\<lambda>_. 0) (\<lambda>_. 7) (\<lambda>_. 7) (\<lambda>_. 0) 1 2 1 1 = Inr (out', pre', att')"
    and w: "\<forall>t2. t2 \<le> 0 \<longrightarrow>
              pre' (0 * 1 * 2 * 2 + 0 * 2 * 2 + 0 * 2 + t2) = att_score (\<lambda>_. 0) 2 1 1 0 0 0 t2"
    and m: "\<forall>t2. 0 < t2 \<and> t2 < 2 \<longrightarrow>
              pre' (0 * 1 * 2 * 2 + 0 * 2 * 2 + 0 * 2 + t2) =
                (\<lambda>_. 7) (0 * 1 * 2 * 2 + 0 * 2 * 2 + 0 * 2 + t2) \<and>
              att' (0 * 1 * 2 * 2 + 0 * 2 * 2 + 0 * 2 + t2) = 0"
    by blast
  from w have "pre' 0 = 0" by (simp add: att_score_def)
  moreover from m have "pre' 1 = 7 \<and> att' 1 = 0" by simp
  ultimately show ?thesis using r by blast
qed
section \<open>The softmax\<close>

lemma softmax_bt_eq:
  assumes "V \<le> Vp"
  shows "softmax_bt lg T V Vp b t p0 =
   (\<lambda>k. if b * T * Vp + t * Vp \<le> k \<and> k < b * T * Vp + t * Vp + V
        then exp (lg k - softmax_maxval lg (b * T * Vp + t * Vp) V)
               / softmax_sum lg (b * T * Vp + t * Vp) V
        else if b * T * Vp + t * Vp + V \<le> k \<and> k < b * T * Vp + t * Vp + Vp then 0
        else p0 k)"
  unfolding softmax_bt_def Let_def softmax_maxval_def softmax_sum_def
  using assms
  by (auto simp add: for_upto_acc_write for_upto_divide for_range_const for_upto_sum fun_eq_iff
      simp del: for_upto.simps)






section \<open>The cross-entropy and the mean loss\<close>

lemma crossentropy_forward_at:
  assumes "b < B" "t < T"
  shows "crossentropy_forward l0 p tg B T Vp (b * T + t) =
         - logf (p (nat (int (b * T * Vp + t * Vp) + tg (b * T + t))))"
  unfolding crossentropy_forward_def Let_def
proof (rule for2_at [where f = "\<lambda>l. l (b * T + t)" and i = b and j = t])
  show "b < B" "t < T" by fact+
next
  fix b' t' and l :: "xfloat buf"
  assume "b' < B" "t' < T" "(b', t') \<noteq> (b, t)"
  then have "b * T + t \<noteq> b' * T + t'"
    using idx2_inj [of t T t' b b'] assms(2) by auto
  then show "(l(b' * T + t' := - logf (p (nat (int (b' * T * Vp + t' * Vp) + tg (b' * T + t')))))) (b * T + t)
             = l (b * T + t)"
    by simp
next
  fix l :: "xfloat buf"
  show "(l(b * T + t := - logf (p (nat (int (b * T * Vp + t * Vp) + tg (b * T + t)))))) (b * T + t)
        = - logf (p (nat (int (b * T * Vp + t * Vp) + tg (b * T + t))))"
    by simp
qed

lemma crossentropy_forward_flat:
  assumes "i < B * T"
  shows "crossentropy_forward l0 p tg B T Vp i = - logf (p (nat (int (i * Vp) + tg i)))"
proof -
  have T0: "0 < T" using assms by (cases T) simp_all
  then have b: "i div T < B" using assms by (simp add: less_mult_imp_div_less mult.commute)
  have t: "i mod T < T" using T0 by simp
  have e: "i div T * T * Vp + i mod T * Vp = i * Vp"
    by (metis add_mult_distrib div_mult_mod_eq)
  from crossentropy_forward_at [OF b t, of l0 p tg Vp] show ?thesis
    by (simp add: e)
qed

lemma neg_logf_pos: "0 < x \<Longrightarrow> - logf x = Fin (- ln x)"
  by (simp add: logf_def)

lemma neg_logf_zero: "- logf 0 = PInf"
  by (simp add: logf_def)

lemma loss_sum_finite_or_inf:
  assumes "\<forall>i<n. l i = PInf \<or> (\<exists>r. l i = Fin r)"
  shows "if \<exists>i<n. l i = PInf then for_upto n (\<lambda>i m. m + l i) 0 = PInf
         else \<exists>r. for_upto n (\<lambda>i m. m + l i) 0 = Fin r"
  using assms
proof (induction n)
  case 0
  then show ?case by (simp add: zero_xfloat_def)
next
  case (Suc n)
  from Suc.prems have prev: "\<forall>i<n. l i = PInf \<or> (\<exists>r. l i = Fin r)" by simp
  from Suc.prems have last: "l n = PInf \<or> (\<exists>r. l n = Fin r)" by simp
  note IH = Suc.IH [OF prev]
  show ?case
  proof (cases "\<exists>i<n. l i = PInf")
    case True
    with IH have "for_upto n (\<lambda>i m. m + l i) 0 = PInf" by simp
    moreover from True have "\<exists>i<Suc n. l i = PInf" using less_Suc_eq by blast
    ultimately show ?thesis using last by auto
  next
    case False
    with IH obtain r where r: "for_upto n (\<lambda>i m. m + l i) 0 = Fin r" by auto
    show ?thesis
    proof (cases "l n = PInf")
      case True
      then show ?thesis using r by auto
    next
      case notinf: False
      with last obtain r' where "l n = Fin r'" by auto
      moreover have "\<not> (\<exists>i<Suc n. l i = PInf)" using False notinf less_Suc_eq by auto
      ultimately show ?thesis using r by auto
    qed
  qed
qed

lemma mean_reduce_inf:
  assumes "0 < n" "\<forall>i<n. l i = PInf \<or> (\<exists>r. l i = Fin r)" "j < n" "l j = PInf"
  shows "mean_reduce l n = PInf"
proof -
  have "for_upto n (\<lambda>i m. m + l i) 0 = PInf"
    using loss_sum_finite_or_inf [OF assms(2)] assms(3,4) by (auto split: if_splits)
  then show ?thesis by (simp add: mean_reduce_def)
qed

text \<open>
  Claim C8. With targets in \<open>[0, V)\<close>, the loss that \<^verbatim>\<open>crossentropy_forward\<close> leaves at
  position \<open>(b, t)\<close> is minus \<^verbatim>\<open>logf\<close> of the probability at the target index: minus its
  natural logarithm when it is positive, and plus infinity when it is zero. Nothing clamps
  it: when the probabilities at the targets are not negative and one of them is zero, the
  mean loss that \<^verbatim>\<open>gpt2_forward\<close> forms from the losses is plus infinity.
\<close>

theorem crossentropy_forward_neg_log:
  assumes "b < B" "t < T" "\<forall>i<B * T. 0 \<le> tg i \<and> tg i < int V"
  shows "crossentropy_forward l0 p tg B T Vp (b * T + t) =
           - logf (p (b * T * Vp + t * Vp + nat (tg (b * T + t)))) \<and>
         (0 < p (b * T * Vp + t * Vp + nat (tg (b * T + t))) \<longrightarrow>
            crossentropy_forward l0 p tg B T Vp (b * T + t) =
              Fin (- ln (p (b * T * Vp + t * Vp + nat (tg (b * T + t)))))) \<and>
         (p (b * T * Vp + t * Vp + nat (tg (b * T + t))) = 0 \<longrightarrow>
            crossentropy_forward l0 p tg B T Vp (b * T + t) = PInf \<and>
            ((\<forall>i<B * T. 0 \<le> p (i * Vp + nat (tg i))) \<longrightarrow>
               mean_reduce (crossentropy_forward l0 p tg B T Vp) (B * T) = PInf))"
proof -
  let ?L = "crossentropy_forward l0 p tg B T Vp"
  let ?k = "b * T * Vp + t * Vp + nat (tg (b * T + t))"
  have bt: "b * T + t < B * T" using idx2_bound [OF assms(1,2)] .
  have idx: "nat (int (i * Vp) + tg i) = i * Vp + nat (tg i)" if "i < B * T" for i
    using assms(3) that by (simp add: nat_add_distrib flip: of_nat_mult)
  have flat: "?L i = - logf (p (i * Vp + nat (tg i)))" if "i < B * T" for i
    using crossentropy_forward_flat [OF that, of l0 p tg Vp] idx [OF that] by simp
  have e: "(b * T + t) * Vp = b * T * Vp + t * Vp" by (simp add: algebra_simps)
  have 1: "?L (b * T + t) = - logf (p ?k)"
    using flat [OF bt] by (simp add: e)
  have 2: "?L (b * T + t) = Fin (- ln (p ?k))" if "0 < p ?k"
    using 1 that by (simp add: neg_logf_pos)
  have 3: "?L (b * T + t) = PInf" if "p ?k = 0"
    using 1 that by (simp add: neg_logf_zero)
  have 4: "mean_reduce ?L (B * T) = PInf" if z: "p ?k = 0" and nn: "\<forall>i<B * T. 0 \<le> p (i * Vp + nat (tg i))"
  proof (rule mean_reduce_inf [where j = "b * T + t"])
    show "0 < B * T" using assms(1,2) by simp
    show "b * T + t < B * T" by (rule bt)
    show "?L (b * T + t) = PInf" by (rule 3 [OF z])
    show "\<forall>i<B * T. ?L i = PInf \<or> (\<exists>r. ?L i = Fin r)"
    proof (intro allI impI)
      fix i assume i: "i < B * T"
      with nn have "0 \<le> p (i * Vp + nat (tg i))" by simp
      then show "?L i = PInf \<or> (\<exists>r. ?L i = Fin r)"
        using flat [OF i] by (cases "p (i * Vp + nat (tg i)) = 0") (auto simp: logf_def)
    qed
  qed
  show ?thesis using 1 2 3 4 by blast
qed

theorem crossentropy_forward_neg_log_witness:
  "crossentropy_forward (\<lambda>_. Fin 0) (\<lambda>k. if k = 1 then 0 else 1) (\<lambda>_. 1) 1 2 2 0 = PInf \<and>
   crossentropy_forward (\<lambda>_. Fin 0) (\<lambda>k. if k = 1 then 0 else 1) (\<lambda>_. 1) 1 2 2 1 = Fin 0 \<and>
   mean_reduce (crossentropy_forward (\<lambda>_. Fin 0) (\<lambda>k. if k = 1 then 0 else 1) (\<lambda>_. 1) 1 2 2) 2 = PInf"
proof -
  let ?p = "\<lambda>k::nat. if k = 1 then 0 else (1::real)"
  have h: "(0::nat) < 1" "(0::nat) < 2" "(1::nat) < 2" "\<forall>i<1 * 2. (0::int) \<le> (\<lambda>_. 1) i \<and> (\<lambda>_. 1) i < int 2"
    by simp_all
  have nn: "\<forall>i<1 * 2. 0 \<le> ?p (i * 2 + nat ((\<lambda>_. 1) i))" by simp
  from crossentropy_forward_neg_log [OF h(1,2,4), of "\<lambda>_. Fin 0" ?p 2] nn
  have "crossentropy_forward (\<lambda>_. Fin 0) ?p (\<lambda>_. 1) 1 2 2 0 = PInf"
    and "mean_reduce (crossentropy_forward (\<lambda>_. Fin 0) ?p (\<lambda>_. 1) 1 2 2) 2 = PInf"
    by (simp_all add: neg_logf_zero)
  moreover from crossentropy_forward_neg_log [OF h(1,3,4), of "\<lambda>_. Fin 0" ?p 2]
  have "crossentropy_forward (\<lambda>_. Fin 0) ?p (\<lambda>_. 1) 1 2 2 1 = Fin 0"
    by (simp add: neg_logf_pos)
  ultimately show ?thesis by blast
qed
section \<open>The AdamW update\<close>

lemma adamw_loop:
  "for_upto n (adamw_elem lr beta1 beta2 eps wd t) (pm, gm, mm, vm) =
   ((\<lambda>i. if i < n
          then adamw_value lr eps wd (pm i)
                 (adamw_hat beta1 t (adamw_m beta1 (mm i) (gm i)))
                 (adamw_hat beta2 t (adamw_v beta2 (vm i) (gm i)))
          else pm i),
    (\<lambda>i. if i < n then 0 else gm i),
    (\<lambda>i. if i < n then adamw_m beta1 (mm i) (gm i) else mm i),
    (\<lambda>i. if i < n then adamw_v beta2 (vm i) (gm i) else vm i))"
proof (induction n)
  case 0
  then show ?case by simp
next
  case (Suc n)
  show ?case
    unfolding for_upto.simps Suc.IH
    by (auto simp add: adamw_elem_def Let_def fun_eq_iff adamw_value_def adamw_hat_def adamw_m_def
        adamw_v_def power2_eq_square)
qed

lemma gpt2_update_eq:
  assumes "m_memory c = None \<or> v_memory c \<noteq> None"
  shows "gpt2_update model shadow c lr beta1 beta2 eps wd t =
     Inr (model\<lparr>params_memory := (\<lambda>i. if i < num_parameters c
              then adamw_value lr eps wd (params_memory model i)
                     (adamw_hat beta1 t (adamw_m beta1 (fst (moments_before c) i) (params_memory shadow i)))
                     (adamw_hat beta2 t (adamw_v beta2 (snd (moments_before c) i) (params_memory shadow i)))
              else params_memory model i)\<rparr>,
          shadow\<lparr>params_memory := (\<lambda>i. if i < num_parameters c then 0 else params_memory shadow i)\<rparr>,
          c\<lparr>m_memory := Some (\<lambda>i. if i < num_parameters c
                 then adamw_m beta1 (fst (moments_before c) i) (params_memory shadow i)
                 else fst (moments_before c) i),
            v_memory := Some (\<lambda>i. if i < num_parameters c
                 then adamw_v beta2 (snd (moments_before c) i) (params_memory shadow i)
                 else snd (moments_before c) i)\<rparr>)"
  using assms
  by (cases "m_memory c"; cases "v_memory c")
     (auto simp add: gpt2_update_def moments_before_def Let_def adamw_loop cong: if_cong)

text \<open>
  Claim C3. A call of \<^verbatim>\<open>gpt2_update\<close> with step counter \<open>t\<close> returns when the moment
  buffers are both allocated or both not yet, and then for every parameter \<open>i\<close> the new
  moments and the new value are those of the AdamW rule, from the moments before the
  call (zeros at the first call), the gradient \<open>g\<close> in the shadow buffer and the old value.
  At the first call with value 1, gradient 0.1, learning rate 1e-4, \<open>\<beta>1 = 0.9\<close>,
  \<open>\<beta>2 = 0.999\<close>, \<open>\<epsilon> = 1e-8\<close>, no weight decay and \<open>t = 1\<close>, the moments are 0.01 and
  1e-5, their corrected values 0.1 and 0.01, the update is within 1e-9 of 9.9999e-5 and
  the new value within 1e-8 of 0.99990001.
\<close>

theorem gpt2_update_adamw:
  assumes "m_memory c = None \<or> v_memory c \<noteq> None" "i < num_parameters c"
  shows "\<exists>model' shadow' c' m' v'.
     gpt2_update model shadow c lr beta1 beta2 eps wd t = Inr (model', shadow', c') \<and>
     m_memory c' = Some m' \<and> v_memory c' = Some v' \<and>
     m' i = adamw_m beta1 (fst (moments_before c) i) (params_memory shadow i) \<and>
     v' i = adamw_v beta2 (snd (moments_before c) i) (params_memory shadow i) \<and>
     params_memory model' i =
       adamw_value lr eps wd (params_memory model i) (adamw_hat beta1 t (m' i)) (adamw_hat beta2 t (v' i)) \<and>
     (m_memory c = None \<and> params_memory model i = 1 \<and> params_memory shadow i = 1 / 10 \<and>
      lr = 1 / 10000 \<and> beta1 = 9 / 10 \<and> beta2 = 999 / 1000 \<and> eps = 1 / 100000000 \<and> wd = 0 \<and> t = 1
      \<longrightarrow> m' i = 1 / 100 \<and> v' i = 1 / 100000 \<and>
          adamw_hat beta1 t (m' i) = 1 / 10 \<and> adamw_hat beta2 t (v' i) = 1 / 100 \<and>
          \<bar>(params_memory model i - params_memory model' i) - 99999 / 1000000000\<bar> < 1 / 1000000000 \<and>
          \<bar>params_memory model' i - 99990001 / 100000000\<bar> < 1 / 100000000)"
proof -
  let ?m = "\<lambda>i. if i < num_parameters c
                 then adamw_m beta1 (fst (moments_before c) i) (params_memory shadow i)
                 else fst (moments_before c) i"
  let ?v = "\<lambda>i. if i < num_parameters c
                 then adamw_v beta2 (snd (moments_before c) i) (params_memory shadow i)
                 else snd (moments_before c) i"
  let ?p = "\<lambda>i. if i < num_parameters c
              then adamw_value lr eps wd (params_memory model i)
                     (adamw_hat beta1 t (adamw_m beta1 (fst (moments_before c) i) (params_memory shadow i)))
                     (adamw_hat beta2 t (adamw_v beta2 (snd (moments_before c) i) (params_memory shadow i)))
              else params_memory model i"
  have sq: "sqrt (1 / 100) = 1 / 10"
    by (rule real_sqrt_unique) (simp_all add: power2_eq_square)
  have ex: "?m i = 1 / 100 \<and> ?v i = 1 / 100000 \<and>
          adamw_hat beta1 t (?m i) = 1 / 10 \<and> adamw_hat beta2 t (?v i) = 1 / 100 \<and>
          \<bar>(params_memory model i - ?p i) - 99999 / 1000000000\<bar> < 1 / 1000000000 \<and>
          \<bar>?p i - 99990001 / 100000000\<bar> < 1 / 100000000"
    if "m_memory c = None \<and> params_memory model i = 1 \<and> params_memory shadow i = 1 / 10 \<and>
      lr = 1 / 10000 \<and> beta1 = 9 / 10 \<and> beta2 = 999 / 1000 \<and> eps = 1 / 100000000 \<and> wd = 0 \<and> t = 1"
  proof -
    from that have a: "m_memory c = None" "params_memory model i = 1" "params_memory shadow i = 1 / 10"
      "lr = 1 / 10000" "beta1 = 9 / 10" "beta2 = 999 / 1000" "eps = 1 / 100000000" "wd = 0" "t = 1"
      by blast+
    have mb: "moments_before c = (\<lambda>_. 0, \<lambda>_. 0)"
      using a(1) by (simp add: moments_before_def)
    show ?thesis
      using assms(2)
      by (simp add: a mb adamw_m_def adamw_v_def adamw_hat_def adamw_value_def power2_eq_square sq)
  qed
  let ?model' = "model\<lparr>params_memory := ?p\<rparr>"
  let ?shadow' = "shadow\<lparr>params_memory := (\<lambda>i. if i < num_parameters c then 0 else params_memory shadow i)\<rparr>"
  let ?c' = "c\<lparr>m_memory := Some ?m, v_memory := Some ?v\<rparr>"
  have f1: "gpt2_update model shadow c lr beta1 beta2 eps wd t = Inr (?model', ?shadow', ?c')"
    by (rule gpt2_update_eq [OF assms(1)])
  have f2: "m_memory ?c' = Some ?m" and f3: "v_memory ?c' = Some ?v" by simp_all
  have f4: "?m i = adamw_m beta1 (fst (moments_before c) i) (params_memory shadow i)"
    and f5: "?v i = adamw_v beta2 (snd (moments_before c) i) (params_memory shadow i)"
    and f6: "params_memory ?model' i =
       adamw_value lr eps wd (params_memory model i) (adamw_hat beta1 t (?m i)) (adamw_hat beta2 t (?v i))"
    using assms(2) by simp_all
  have f7: "m_memory c = None \<and> params_memory model i = 1 \<and> params_memory shadow i = 1 / 10 \<and>
      lr = 1 / 10000 \<and> beta1 = 9 / 10 \<and> beta2 = 999 / 1000 \<and> eps = 1 / 100000000 \<and> wd = 0 \<and> t = 1
      \<longrightarrow> ?m i = 1 / 100 \<and> ?v i = 1 / 100000 \<and>
          adamw_hat beta1 t (?m i) = 1 / 10 \<and> adamw_hat beta2 t (?v i) = 1 / 100 \<and>
          \<bar>(params_memory model i - params_memory ?model' i) - 99999 / 1000000000\<bar> < 1 / 1000000000 \<and>
          \<bar>params_memory ?model' i - 99990001 / 100000000\<bar> < 1 / 100000000"
    using ex by simp
  show ?thesis
    by (intro exI conjI) (rule f1, rule f2, rule f3, rule f4, rule f5, rule f6, rule f7)
qed

theorem gpt2_update_adamw_witness:
  "\<exists>model' shadow' c' m' v'.
     gpt2_update (example_model 1) (example_model (1 / 10)) (example_const 1)
       (1 / 10000) (9 / 10) (999 / 1000) (1 / 100000000) 0 1 = Inr (model', shadow', c') \<and>
     m_memory c' = Some m' \<and> v_memory c' = Some v' \<and> m' 0 = 1 / 100 \<and> v' 0 = 1 / 100000 \<and>
     \<bar>params_memory model' 0 - 99990001 / 100000000\<bar> < 1 / 100000000"
proof -
  have h: "m_memory (example_const 1) = None \<or> v_memory (example_const 1) \<noteq> None"
    "0 < num_parameters (example_const 1)"
    by (simp_all add: example_const_def)
  have p: "m_memory (example_const 1) = None \<and> params_memory (example_model 1) 0 = 1 \<and>
      params_memory (example_model (1 / 10)) 0 = 1 / 10 \<and>
      (1 / 10000 :: real) = 1 / 10000 \<and> (9 / 10 :: real) = 9 / 10 \<and> (999 / 1000 :: real) = 999 / 1000 \<and>
      (1 / 100000000 :: real) = 1 / 100000000 \<and> (0 :: real) = 0 \<and> (1 :: int) = 1"
    by (simp add: example_const_def example_model_def)
  from gpt2_update_adamw [OF h, of "example_model 1" "example_model (1 / 10)"
      "1 / 10000" "9 / 10" "999 / 1000" "1 / 100000000" 0 1] p
  show ?thesis by blast
qed

text \<open>
  Claim C7. \<^verbatim>\<open>gpt2_update\<close> returns when the moment buffers are both allocated or both
  not yet, and after any call that returns, every one of the \<open>num_parameters\<close> elements
  of the gradient buffer (the shadow parameters) is 0, and the first moment of that
  element has taken up the gradient that the element held before the call.
\<close>

theorem gpt2_update_zeroes_gradients:
  "(m_memory c = None \<or> v_memory c \<noteq> None \<longrightarrow>
      (\<exists>r. gpt2_update model shadow c lr beta1 beta2 eps wd t = Inr r)) \<and>
   (\<forall>model' shadow' c'.
      gpt2_update model shadow c lr beta1 beta2 eps wd t = Inr (model', shadow', c') \<longrightarrow>
      (\<forall>i<num_parameters c.
         params_memory shadow' i = 0 \<and>
         (\<exists>m'. m_memory c' = Some m' \<and>
               m' i = adamw_m beta1 (fst (moments_before c) i) (params_memory shadow i))))"
proof (cases "m_memory c = None \<or> v_memory c \<noteq> None")
  case True
  show ?thesis
    unfolding gpt2_update_eq [OF True] using True by auto
next
  case False
  then have "gpt2_update model shadow c lr beta1 beta2 eps wd t =
      (if num_parameters c = 0 then Inr (model, shadow, c) else Inl Null_pointer)"
    by (auto simp add: gpt2_update_def Let_def)
  then show ?thesis using False by auto
qed

theorem gpt2_update_zeroes_gradients_witness:
  "\<exists>model' shadow' c'.
     gpt2_update (example_model 1) (example_model (1 / 10)) (example_const 2)
       (1 / 10000) (9 / 10) (999 / 1000) (1 / 100000000) 0 1 = Inr (model', shadow', c') \<and>
     params_memory shadow' 0 = 0 \<and> params_memory shadow' 1 = 0"
proof -
  have h: "m_memory (example_const 2) = None \<or> v_memory (example_const 2) \<noteq> None"
    by (simp add: example_const_def)
  have n: "num_parameters (example_const 2) = 2"
    by (simp add: example_const_def)
  note t = gpt2_update_zeroes_gradients [of "example_const 2" "example_model 1" "example_model (1 / 10)"
      "1 / 10000" "9 / 10" "999 / 1000" "1 / 100000000" 0 1]
  from t h obtain r where r: "gpt2_update (example_model 1) (example_model (1 / 10)) (example_const 2)
       (1 / 10000) (9 / 10) (999 / 1000) (1 / 100000000) 0 1 = Inr r"
    by blast
  obtain model' shadow' c' where rr: "r = (model', shadow', c')" by (cases r)
  from t r rr n have "params_memory shadow' 0 = 0 \<and> params_memory shadow' 1 = 0"
    by simp
  with r rr show ?thesis by blast
qed
section \<open>The layout\<close>














section \<open>The forward pass\<close>

lemma tokens_valid_iff: "tokens_valid inputs targets V n = ids_in_range inputs targets V n"
  unfolding tokens_valid_def ids_in_range_def
  by (induction n) (auto simp add: less_Suc_eq)

lemma call_attention_acts:
  assumes "0 < num_heads cfg"
  shows "call_attention cfg B T l a = Inr (attention_acts cfg B T l a)"
  using assms
  by (simp add: call_attention_def attention_acts_def attention_forward_loops Let_def case_prod_beta)

lemma layer_forward_acts:
  assumes "0 < num_heads cfg"
  shows "layer_forward cfg ps B T l (a, calls) = Inr (layer_acts cfg ps B T l a, calls @ layer_kernels)"
  by (simp add: layer_forward_def Let_def run_def call_attention_acts [OF assms] layer_acts_def
      layer_kernels_def)

lemma layers_loop:
  assumes "0 < num_heads cfg"
  shows "for_upto L (\<lambda>l r. case r of Inl e \<Rightarrow> Inl e | Inr st \<Rightarrow> layer_forward cfg ps B T l st)
           (Inr (a, calls)) =
         Inr (for_upto L (layer_acts cfg ps B T) a, calls @ concat (replicate L layer_kernels))"
proof (induction L)
  case 0
  then show ?case by simp
next
  case (Suc L)
  have "concat (replicate L layer_kernels) @ layer_kernels = concat (replicate (Suc L) layer_kernels)"
    by (induction L) simp_all
  then show ?case
    by (simp add: Suc.IH layer_forward_acts [OF assms] del: replicate.simps)
qed

lemma gpt2_forward_eq:
  assumes "ids_in_range inputs targets (vocab_size (config c)) (B * T)"
    and "0 < num_heads (config c)" "0 < num_layers (config c)"
  shows "gpt2_forward model c inputs targets B T =
     Inr (model\<lparr>acts := forward_acts (config c) (params model) inputs targets B T (acts model)\<rparr>,
          c\<lparr>mean_loss := (case targets of None \<Rightarrow> Fin (- 1)
              | Some tg \<Rightarrow> mean_reduce (losses (forward_acts (config c) (params model) inputs targets B T
                           (acts model))) (B * T))\<rparr>,
          (case targets of None \<Rightarrow> Fin (- 1)
              | Some tg \<Rightarrow> mean_reduce (losses (forward_acts (config c) (params model) inputs targets B T
                           (acts model))) (B * T)),
          [Encoder] @ concat (replicate (num_layers (config c)) layer_kernels) @
          [LayerNorm, Matmul, Softmax] @ (case targets of None \<Rightarrow> [] | Some tg \<Rightarrow> [Crossentropy]))"
  using assms
  by (cases targets)
     (simp_all add: gpt2_forward_def Let_def tokens_valid_iff run_def layers_loop forward_acts_def)










section \<open>Batch rows\<close>

subsection \<open>Loops that write blocks inside batch rows\<close>

lemma for_upto_rel:
  assumes "R s s'"
    and "\<And>i x x'. i < n \<Longrightarrow> R x x' \<Longrightarrow> R (body i x) (body' i x')"
  shows "R (for_upto n body s) (for_upto n body' s')"
  using assms by (induction n) simp_all

lemma rows_apart:
  fixes b b' n k :: nat
  assumes "b' * n \<le> k" "k < b' * n + n" "b * n \<le> k" "k < b * n + n"
  shows "b' = b"
proof (rule ccontr)
  assume "b' \<noteq> b"
  then consider "b' < b" | "b < b'" by linarith
  then show False
  proof cases
    case 1
    then have "Suc b' * n \<le> b * n" by (intro mult_le_mono1) simp
    then show False using assms(2,3) by simp
  next
    case 2
    then have "Suc b * n \<le> b' * n" by (intro mult_le_mono1) simp
    then show False using assms(1,4) by simp
  qed
qed

lemma write_block_rel:
  assumes "row_eq n b o1 o2" "b' * n \<le> base" "base + m \<le> b' * n + n"
    and "b' = b \<Longrightarrow> \<forall>i<m. v1 i = v2 i"
  shows "row_eq n b (write_block base m v1 o1) (write_block base m v2 o2)"
  unfolding row_eq_def
proof (intro allI impI)
  fix j assume j: "j < n"
  show "write_block base m v1 o1 (b * n + j) = write_block base m v2 o2 (b * n + j)"
  proof (cases "base \<le> b * n + j \<and> b * n + j < base + m")
    case True
    then have "b' * n \<le> b * n + j" "b * n + j < b' * n + n" using assms(2,3) by simp_all
    then have "b' = b" using j by (intro rows_apart [of b' n "b * n + j" b]) simp_all
    moreover have "b * n + j - base < m" using True by linarith
    ultimately have "v1 (b * n + j - base) = v2 (b * n + j - base)"
      using assms(4) by blast
    then show ?thesis using True by (simp add: write_block_def)
  next
    case False
    then show ?thesis using assms(1) j by (auto simp add: write_block_def row_eq_def)
  qed
qed

lemma write_block_above:
  assumes "base + m \<le> N" "N \<le> k"
  shows "write_block base m v out k = out k"
  using assms by (simp add: write_block_def)

lemma row_in_batch:
  fixes b' B n :: nat
  assumes "b' < B"
  shows "b' * n + n \<le> B * n"
proof -
  have "Suc b' * n \<le> B * n" using assms by (intro mult_le_mono1) simp
  then show ?thesis by simp
qed

lemma blocks2_rel:
  fixes o1 o2 :: "'a buf"
  assumes "row_eq n b o1 o2"
    and "\<And>b' t. b' < B \<Longrightarrow> t < T \<Longrightarrow> b' * n \<le> base b' t \<and> base b' t + m b' t \<le> b' * n + n"
    and "\<And>t i. t < T \<Longrightarrow> i < m b t \<Longrightarrow> v1 b t i = v2 b t i"
  shows "row_eq n b
     (for_upto B (\<lambda>b'. for_upto T (\<lambda>t. write_block (base b' t) (m b' t) (v1 b' t))) o1)
     (for_upto B (\<lambda>b'. for_upto T (\<lambda>t. write_block (base b' t) (m b' t) (v2 b' t))) o2)"
proof (rule for_upto_rel [where R = "row_eq n b"])
  show "row_eq n b o1 o2" by fact
next
  fix b' and x x' :: "'a buf" assume b': "b' < B" and x: "row_eq n b x x'"
  show "row_eq n b (for_upto T (\<lambda>t. write_block (base b' t) (m b' t) (v1 b' t)) x)
          (for_upto T (\<lambda>t. write_block (base b' t) (m b' t) (v2 b' t)) x')"
  proof (rule for_upto_rel [where R = "row_eq n b"])
    show "row_eq n b x x'" by fact
  next
    fix t and y y' :: "'a buf" assume t: "t < T" and y: "row_eq n b y y'"
    show "row_eq n b (write_block (base b' t) (m b' t) (v1 b' t) y)
            (write_block (base b' t) (m b' t) (v2 b' t) y')"
      using y assms(2) [OF b' t] assms(3) [OF t] by (intro write_block_rel [where b' = b']) auto
  qed
qed

lemma blocks3_rel:
  fixes o1 o2 :: "'a buf"
  assumes "row_eq n b o1 o2"
    and "\<And>b' t h. b' < B \<Longrightarrow> t < T \<Longrightarrow> h < H \<Longrightarrow>
           b' * n \<le> base b' t h \<and> base b' t h + m b' t h \<le> b' * n + n"
    and "\<And>t h i. t < T \<Longrightarrow> h < H \<Longrightarrow> i < m b t h \<Longrightarrow> v1 b t h i = v2 b t h i"
  shows "row_eq n b
     (for_upto B (\<lambda>b'. for_upto T (\<lambda>t. for_upto H (\<lambda>h.
        write_block (base b' t h) (m b' t h) (v1 b' t h)))) o1)
     (for_upto B (\<lambda>b'. for_upto T (\<lambda>t. for_upto H (\<lambda>h.
        write_block (base b' t h) (m b' t h) (v2 b' t h)))) o2)"
proof (rule for_upto_rel [where R = "row_eq n b"])
  show "row_eq n b o1 o2" by fact
next
  fix b' and x x' :: "'a buf" assume b': "b' < B" and x: "row_eq n b x x'"
  show "row_eq n b
          (for_upto T (\<lambda>t. for_upto H (\<lambda>h. write_block (base b' t h) (m b' t h) (v1 b' t h))) x)
          (for_upto T (\<lambda>t. for_upto H (\<lambda>h. write_block (base b' t h) (m b' t h) (v2 b' t h))) x')"
  proof (rule for_upto_rel [where R = "row_eq n b"])
    show "row_eq n b x x'" by fact
  next
    fix t and y y' :: "'a buf" assume t: "t < T" and y: "row_eq n b y y'"
    show "row_eq n b (for_upto H (\<lambda>h. write_block (base b' t h) (m b' t h) (v1 b' t h)) y)
            (for_upto H (\<lambda>h. write_block (base b' t h) (m b' t h) (v2 b' t h)) y')"
    proof (rule for_upto_rel [where R = "row_eq n b"])
      show "row_eq n b y y'" by fact
    next
      fix h and z z' :: "'a buf" assume h: "h < H" and z: "row_eq n b z z'"
      show "row_eq n b (write_block (base b' t h) (m b' t h) (v1 b' t h) z)
              (write_block (base b' t h) (m b' t h) (v2 b' t h) z')"
        using z assms(2) [OF b' t h] assms(3) [OF t h] by (intro write_block_rel [where b' = b']) auto
    qed
  qed
qed

lemma blocks2_above:
  assumes "\<And>b' t. b' < B \<Longrightarrow> t < T \<Longrightarrow> base b' t + m b' t \<le> b' * n + n"
    and "B * n \<le> k"
  shows "for_upto B (\<lambda>b'. for_upto T (\<lambda>t. write_block (base b' t) (m b' t) (v b' t))) out k = out k"
proof (rule for2_frame [where f = "\<lambda>s. s k"])
  fix b' t s assume b': "b' < B" and t: "t < T"
  have "base b' t + m b' t \<le> B * n"
    using assms(1) [OF b' t] row_in_batch [OF b', of n] by simp
  then show "write_block (base b' t) (m b' t) (v b' t) s k = s k"
    using assms(2) by (rule write_block_above)
qed

lemma blocks3_above:
  assumes "\<And>b' t h. b' < B \<Longrightarrow> t < T \<Longrightarrow> h < H \<Longrightarrow> base b' t h + m b' t h \<le> b' * n + n"
    and "B * n \<le> k"
  shows "for_upto B (\<lambda>b'. for_upto T (\<lambda>t. for_upto H (\<lambda>h.
           write_block (base b' t h) (m b' t h) (v b' t h)))) out k = out k"
proof (rule for3_frame [where f = "\<lambda>s. s k"])
  fix b' t h s assume b': "b' < B" and t: "t < T" and h: "h < H"
  have "base b' t h + m b' t h \<le> B * n"
    using assms(1) [OF b' t h] row_in_batch [OF b', of n] by simp
  then show "write_block (base b' t h) (m b' t h) (v b' t h) s k = s k"
    using assms(2) by (rule write_block_above)
qed

text \<open>A loop on three buffers whose turns treat each buffer by itself is three loops.\<close>

lemma for_upto_prod3:
  assumes "\<And>i x y z. i < n \<Longrightarrow> body i (x, y, z) = (f i x, g i y, h i z)"
  shows "for_upto n body (x, y, z) = (for_upto n f x, for_upto n g y, for_upto n h z)"
  using assms by (induction n) simp_all

lemma for2_prod3:
  assumes "\<And>i j x y z. i < n1 \<Longrightarrow> j < n2 \<Longrightarrow> body i j (x, y, z) = (f i j x, g i j y, h i j z)"
  shows "for_upto n1 (\<lambda>i. for_upto n2 (body i)) (x, y, z) =
     (for_upto n1 (\<lambda>i. for_upto n2 (f i)) x, for_upto n1 (\<lambda>i. for_upto n2 (g i)) y,
      for_upto n1 (\<lambda>i. for_upto n2 (h i)) z)"
  by (rule for_upto_prod3) (rule for_upto_prod3, rule assms)

lemma for3_prod3:
  assumes "\<And>i j k x y z. i < n1 \<Longrightarrow> j < n2 \<Longrightarrow> k < n3 \<Longrightarrow>
             body i j k (x, y, z) = (f i j k x, g i j k y, h i j k z)"
  shows "for_upto n1 (\<lambda>i. for_upto n2 (\<lambda>j. for_upto n3 (body i j))) (x, y, z) =
     (for_upto n1 (\<lambda>i. for_upto n2 (\<lambda>j. for_upto n3 (f i j))) x,
      for_upto n1 (\<lambda>i. for_upto n2 (\<lambda>j. for_upto n3 (g i j))) y,
      for_upto n1 (\<lambda>i. for_upto n2 (\<lambda>j. for_upto n3 (h i j))) z)"
  by (rule for_upto_prod3) (rule for_upto_prod3, rule for_upto_prod3, rule assms)

lemma for_upto_write_block:
  "for_upto n (\<lambda>i p. p(base + i := v i)) p0 = write_block base n v p0"
  by (simp add: for_upto_write write_block_def)

lemma for_upto_write_block_fun:
  "for_upto n (\<lambda>i p. p(base + i := v i)) = write_block base n v"
  by (rule ext) (rule for_upto_write_block)

lemma fun_upd_write_block: "p(k := x) = write_block k 1 (\<lambda>_. x) p"
  by (auto simp add: write_block_def fun_eq_iff)

lemma for_upto_write_all:
  "for_upto n (\<lambda>i p. p(i := v i)) p0 = write_block 0 n v p0"
  using for_upto_write_block [of n 0 v p0] by simp

lemma block_in_row:
  fixes b t T m :: nat
  assumes "t < T"
  shows "b * (T * m) \<le> b * T * m + t * m \<and> b * T * m + t * m + m \<le> b * (T * m) + T * m"
proof -
  have "Suc t * m \<le> T * m" using assms by (intro mult_le_mono1) simp
  then show ?thesis by (simp add: mult.assoc)
qed

lemma row_cell:
  assumes "row_eq (T * m) b f g" "t < T" "i < m"
  shows "f (b * T * m + t * m + i) = g (b * T * m + t * m + i)"
proof -
  have "t * m + i < T * m" using assms(2,3) by (rule idx2_bound)
  then have "f (b * (T * m) + (t * m + i)) = g (b * (T * m) + (t * m + i))"
    using assms(1) by (simp add: row_eq_def)
  then show ?thesis by (simp add: mult.assoc add.assoc)
qed

subsection \<open>The kernels, row by row\<close>

lemma encoder_forward_blocks:
  "encoder_forward out inp wte0 wpe0 B T C =
     for_upto B (\<lambda>b. for_upto T (\<lambda>t. write_block (b * T * C + t * C) C
       (\<lambda>i. wte0 (nat (inp (b * T + t) * int C + int i)) + wpe0 (t * C + i)))) out"
  by (simp add: encoder_forward_def Let_def for_upto_write_block)

lemma encoder_forward_row:
  fixes o1 o2 :: "'a::plus buf"
  assumes "row_eq T b inp1 inp2" "row_eq (T * C) b o1 o2"
  shows "row_eq (T * C) b (encoder_forward o1 inp1 wte0 wpe0 B T C)
           (encoder_forward o2 inp2 wte0 wpe0 B T C)"
  unfolding encoder_forward_blocks
proof (rule blocks2_rel [where base = "\<lambda>b t. b * T * C + t * C" and m = "\<lambda>_ _. C"])
  show "row_eq (T * C) b o1 o2" by fact
next
  fix b' t assume "b' < B" "t < T"
  then show "b' * (T * C) \<le> b' * T * C + t * C \<and> b' * T * C + t * C + C \<le> b' * (T * C) + T * C"
    by (intro block_in_row)
next
  fix t i assume "t < T" "i < C"
  then have "inp1 (b * T + t) = inp2 (b * T + t)" using assms(1) by (simp add: row_eq_def)
  then show "wte0 (nat (inp1 (b * T + t) * int C + int i)) + wpe0 (t * C + i) =
             wte0 (nat (inp2 (b * T + t) * int C + int i)) + wpe0 (t * C + i)"
    by simp
qed

lemma encoder_forward_above:
  assumes "B * (T * C) \<le> k"
  shows "encoder_forward out inp wte0 wpe0 B T C k = out k"
  unfolding encoder_forward_blocks
  by (rule blocks2_above [where base = "\<lambda>b t. b * T * C + t * C" and m = "\<lambda>_ _. C" and n = "T * C"])
     (use assms block_in_row in auto)

lemma matmul_forward_blocks:
  "matmul_forward out inp weight bias B T C OC =
     for_upto B (\<lambda>b. for_upto T (\<lambda>t. write_block ((b * T + t) * OC) OC
       (dotp inp weight bias C (b * T + t)))) out"
proof -
  have "for_upto OC (\<lambda>oc out. out(bt * OC + oc :=
          for_upto C (\<lambda>i val. val + inp (bt * C + i) * weight (oc * C + i)) (bias_at bias oc))) =
        write_block (bt * OC) OC (dotp inp weight bias C bt)" for bt
    unfolding for_upto_write_block_fun by (simp add: dotp_def [abs_def])
  then show ?thesis
    by (simp add: matmul_forward_is_naive matmul_forward_naive_def Let_def)
qed

lemma matmul_block_in_row:
  fixes b t T OC :: nat
  assumes "t < T"
  shows "b * (T * OC) \<le> (b * T + t) * OC \<and> (b * T + t) * OC + OC \<le> b * (T * OC) + T * OC"
  using block_in_row [OF assms, of b OC] by (simp add: add_mult_distrib)

lemma dotp_row:
  assumes "row_eq (T * C) b inp1 inp2" "t < T"
  shows "dotp inp1 weight bias C (b * T + t) oc = dotp inp2 weight bias C (b * T + t) oc"
  unfolding dotp_def
proof (rule for_upto_cong)
  fix i s assume "i < C"
  from row_cell [OF assms this] have "inp1 ((b * T + t) * C + i) = inp2 ((b * T + t) * C + i)"
    by (simp add: add_mult_distrib)
  then show "s + inp1 ((b * T + t) * C + i) * weight (oc * C + i) =
             s + inp2 ((b * T + t) * C + i) * weight (oc * C + i)"
    by simp
qed

lemma matmul_forward_row:
  fixes o1 o2 :: "'a::{zero,plus,times} buf"
  assumes "row_eq (T * C) b inp1 inp2" "row_eq (T * OC) b o1 o2"
  shows "row_eq (T * OC) b (matmul_forward o1 inp1 weight bias B T C OC)
           (matmul_forward o2 inp2 weight bias B T C OC)"
  unfolding matmul_forward_blocks
proof (rule blocks2_rel [where base = "\<lambda>b t. (b * T + t) * OC" and m = "\<lambda>_ _. OC"])
  show "row_eq (T * OC) b o1 o2" by fact
next
  fix b' t assume "b' < B" "t < T"
  then show "b' * (T * OC) \<le> (b' * T + t) * OC \<and> (b' * T + t) * OC + OC \<le> b' * (T * OC) + T * OC"
    by (intro matmul_block_in_row)
next
  fix t i assume "t < T" "i < OC"
  then show "dotp inp1 weight bias C (b * T + t) i = dotp inp2 weight bias C (b * T + t) i"
    using assms(1) by (intro dotp_row)
qed

lemma matmul_forward_above:
  assumes "B * (T * OC) \<le> k"
  shows "matmul_forward out inp weight bias B T C OC k = out k"
  using matmul_forward_frame [of B T OC k out inp weight bias C] assms by (simp add: mult.assoc)

lemma layernorm_bt_blocks:
  "layernorm_bt inp weight bias T C b t (out, m0, r0) =
     (write_block (b * T * C + t * C) C (ln_out inp weight bias T C b t) out,
      write_block (b * T + t) 1 (\<lambda>_. ln_mean inp T C b t) m0,
      write_block (b * T + t) 1 (\<lambda>_. ln_rstd inp T C b t) r0)"
  by (simp add: layernorm_bt_def Let_def for_upto_write_block
      ln_out_def [abs_def] ln_rstd_def ln_mean_def)
     (auto simp add: write_block_def fun_eq_iff)

lemma layernorm_forward_blocks:
  "layernorm_forward out m0 r0 inp weight bias B T C =
     (for_upto B (\<lambda>b. for_upto T (\<lambda>t. write_block (b * T * C + t * C) C
        (ln_out inp weight bias T C b t))) out,
      for_upto B (\<lambda>b. for_upto T (\<lambda>t. write_block (b * T + t) 1 (\<lambda>_. ln_mean inp T C b t))) m0,
      for_upto B (\<lambda>b. for_upto T (\<lambda>t. write_block (b * T + t) 1 (\<lambda>_. ln_rstd inp T C b t))) r0)"
  unfolding layernorm_forward_def
  by (rule for2_prod3) (rule layernorm_bt_blocks)

lemma ln_mean_row:
  assumes "row_eq (T * C) b inp1 inp2" "t < T"
  shows "ln_mean inp1 T C b t = ln_mean inp2 T C b t"
proof -
  have "for_upto C (\<lambda>i m. m + inp1 (b * T * C + t * C + i)) 0 =
        for_upto C (\<lambda>i m. m + inp2 (b * T * C + t * C + i)) 0"
    by (rule for_upto_cong) (simp add: row_cell [OF assms])
  then show ?thesis by (simp add: ln_mean_def)
qed

lemma ln_rstd_row:
  assumes "row_eq (T * C) b inp1 inp2" "t < T"
  shows "ln_rstd inp1 T C b t = ln_rstd inp2 T C b t"
proof -
  have "for_upto C (\<lambda>i v. v + (inp1 (b * T * C + t * C + i) - ln_mean inp1 T C b t) *
                                   (inp1 (b * T * C + t * C + i) - ln_mean inp1 T C b t)) 0 =
        for_upto C (\<lambda>i v. v + (inp2 (b * T * C + t * C + i) - ln_mean inp2 T C b t) *
                                   (inp2 (b * T * C + t * C + i) - ln_mean inp2 T C b t)) 0"
    by (rule for_upto_cong) (simp add: row_cell [OF assms] ln_mean_row [OF assms])
  then show ?thesis by (simp add: ln_rstd_def)
qed

lemma ln_out_row:
  assumes "row_eq (T * C) b inp1 inp2" "t < T" "i < C"
  shows "ln_out inp1 weight bias T C b t i = ln_out inp2 weight bias T C b t i"
  by (simp add: ln_out_def row_cell [OF assms] ln_mean_row [OF assms(1,2)] ln_rstd_row [OF assms(1,2)])

lemma cell_in_row:
  fixes b t T :: nat
  assumes "t < T"
  shows "b * T \<le> b * T + t \<and> b * T + t + 1 \<le> b * T + T"
  using assms by simp

lemma layernorm_forward_row:
  assumes "row_eq (T * C) b inp1 inp2"
    and "row_eq (T * C) b o1 o2" "row_eq T b m1 m2" "row_eq T b r1 r2"
  shows "row_eq (T * C) b (fst (layernorm_forward o1 m1 r1 inp1 weight bias B T C))
           (fst (layernorm_forward o2 m2 r2 inp2 weight bias B T C)) \<and>
         row_eq T b (fst (snd (layernorm_forward o1 m1 r1 inp1 weight bias B T C)))
           (fst (snd (layernorm_forward o2 m2 r2 inp2 weight bias B T C))) \<and>
         row_eq T b (snd (snd (layernorm_forward o1 m1 r1 inp1 weight bias B T C)))
           (snd (snd (layernorm_forward o2 m2 r2 inp2 weight bias B T C)))"
  unfolding layernorm_forward_blocks fst_conv snd_conv
proof (intro conjI)
  show "row_eq (T * C) b
     (for_upto B (\<lambda>b. for_upto T (\<lambda>t. write_block (b * T * C + t * C) C (ln_out inp1 weight bias T C b t))) o1)
     (for_upto B (\<lambda>b. for_upto T (\<lambda>t. write_block (b * T * C + t * C) C (ln_out inp2 weight bias T C b t))) o2)"
    by (rule blocks2_rel [where base = "\<lambda>b t. b * T * C + t * C" and m = "\<lambda>_ _. C"])
       (use assms block_in_row ln_out_row in auto)
  show "row_eq T b
     (for_upto B (\<lambda>b. for_upto T (\<lambda>t. write_block (b * T + t) 1 (\<lambda>_. ln_mean inp1 T C b t))) m1)
     (for_upto B (\<lambda>b. for_upto T (\<lambda>t. write_block (b * T + t) 1 (\<lambda>_. ln_mean inp2 T C b t))) m2)"
    by (rule blocks2_rel [where base = "\<lambda>b t. b * T + t" and m = "\<lambda>_ _. 1"])
       (use assms ln_mean_row in auto)
  show "row_eq T b
     (for_upto B (\<lambda>b. for_upto T (\<lambda>t. write_block (b * T + t) 1 (\<lambda>_. ln_rstd inp1 T C b t))) r1)
     (for_upto B (\<lambda>b. for_upto T (\<lambda>t. write_block (b * T + t) 1 (\<lambda>_. ln_rstd inp2 T C b t))) r2)"
    by (rule blocks2_rel [where base = "\<lambda>b t. b * T + t" and m = "\<lambda>_ _. 1"])
       (use assms ln_rstd_row in auto)
qed

lemma layernorm_forward_above:
  "B * (T * C) \<le> k \<Longrightarrow> fst (layernorm_forward out m0 r0 inp weight bias B T C) k = out k"
  "B * T \<le> k' \<Longrightarrow> fst (snd (layernorm_forward out m0 r0 inp weight bias B T C)) k' = m0 k'"
  "B * T \<le> k' \<Longrightarrow> snd (snd (layernorm_forward out m0 r0 inp weight bias B T C)) k' = r0 k'"
  unfolding layernorm_forward_blocks fst_conv snd_conv
proof -
  show "B * (T * C) \<le> k \<Longrightarrow>
    for_upto B (\<lambda>b. for_upto T (\<lambda>t. write_block (b * T * C + t * C) C (ln_out inp weight bias T C b t)))
      out k = out k"
    by (rule blocks2_above [where base = "\<lambda>b t. b * T * C + t * C" and m = "\<lambda>_ _. C" and n = "T * C"])
       (use block_in_row in auto)
  show "B * T \<le> k' \<Longrightarrow>
    for_upto B (\<lambda>b. for_upto T (\<lambda>t. write_block (b * T + t) 1 (\<lambda>_. ln_mean inp T C b t))) m0 k' = m0 k'"
    by (rule blocks2_above [where base = "\<lambda>b t. b * T + t" and m = "\<lambda>_ _. 1" and n = T]) auto
  show "B * T \<le> k' \<Longrightarrow>
    for_upto B (\<lambda>b. for_upto T (\<lambda>t. write_block (b * T + t) 1 (\<lambda>_. ln_rstd inp T C b t))) r0 k' = r0 k'"
    by (rule blocks2_above [where base = "\<lambda>b t. b * T + t" and m = "\<lambda>_ _. 1" and n = T]) auto
qed

lemma gelu_forward_eq:
  "gelu_forward out inp N =
     write_block 0 N (\<lambda>i. 1 / 2 * inp i * (1 + tanh (GELU_SCALING_FACTOR *
        (inp i + 44715 / 1000000 * inp i * inp i * inp i)))) out"
  by (simp add: gelu_forward_def Let_def for_upto_write_all)

lemma residual_forward_eq:
  "residual_forward out inp1 inp2 N = write_block 0 N (\<lambda>i. inp1 i + inp2 i) out"
  by (simp add: residual_forward_def for_upto_write_all)

lemma row_below:
  fixes b B n j :: nat
  assumes "b < B" "j < n"
  shows "b * n + j < B * n"
  using assms by (rule idx2_bound)

lemma gelu_forward_row:
  assumes "row_eq n b inp1 inp2" "b < B"
  shows "row_eq n b (gelu_forward o1 inp1 (B * n)) (gelu_forward o2 inp2 (B * n))"
  using assms row_below [OF assms(2)]
  by (simp add: gelu_forward_eq write_block_def row_eq_def)

lemma residual_forward_row:
  fixes o1 o2 :: "'a::plus buf"
  assumes "row_eq n b x1 x2" "row_eq n b y1 y2" "b < B"
  shows "row_eq n b (residual_forward o1 x1 y1 (B * n)) (residual_forward o2 x2 y2 (B * n))"
  using assms row_below [OF assms(3)]
  by (simp add: residual_forward_eq write_block_def row_eq_def)

lemma gelu_forward_above: "N \<le> k \<Longrightarrow> gelu_forward out inp N k = out k"
  by (simp add: gelu_forward_eq write_block_def)

lemma residual_forward_above: "N \<le> k \<Longrightarrow> residual_forward out inp1 inp2 N k = out k"
  by (simp add: residual_forward_eq write_block_def)

lemma softmax_bt_block:
  assumes "V \<le> Vp"
  shows "softmax_bt lg T V Vp b t =
         write_block (b * T * Vp + t * Vp) Vp (softmax_val lg (b * T * Vp + t * Vp) V)"
proof (rule ext)
  fix p0
  show "softmax_bt lg T V Vp b t p0 =
         write_block (b * T * Vp + t * Vp) Vp (softmax_val lg (b * T * Vp + t * Vp) V) p0"
    using assms unfolding softmax_bt_eq [OF assms]
    by (auto simp add: write_block_def softmax_val_def fun_eq_iff)
qed

lemma softmax_forward_blocks:
  assumes "V \<le> Vp"
  shows "softmax_forward p0 lg B T V Vp =
     for_upto B (\<lambda>b. for_upto T (\<lambda>t. write_block (b * T * Vp + t * Vp) Vp
        (softmax_val lg (b * T * Vp + t * Vp) V))) p0"
  by (simp add: softmax_forward_def softmax_bt_block [OF assms])

lemma softmax_val_row:
  assumes "row_eq (T * Vp) b lg1 lg2" "t < T" "V \<le> Vp"
  shows "softmax_val lg1 (b * T * Vp + t * Vp) V i = softmax_val lg2 (b * T * Vp + t * Vp) V i"
proof -
  have c: "lg1 (b * T * Vp + t * Vp + j) = lg2 (b * T * Vp + t * Vp + j)" if "j < V" for j
    using row_cell [OF assms(1,2), of j] that assms(3) by simp
  have m: "softmax_maxval lg1 (b * T * Vp + t * Vp) V = softmax_maxval lg2 (b * T * Vp + t * Vp) V"
    unfolding softmax_maxval_def by (rule for_upto_cong) (simp add: c)
  have s: "softmax_sum lg1 (b * T * Vp + t * Vp) V = softmax_sum lg2 (b * T * Vp + t * Vp) V"
    unfolding softmax_sum_def m by (rule sum.cong) (simp_all add: c)
  show ?thesis by (simp add: softmax_val_def m s c)
qed

lemma softmax_rows_agree:
  assumes "row_eq (T * Vp) b lg1 lg2" "row_eq (T * Vp) b p1 p2" "V \<le> Vp"
  shows "row_eq (T * Vp) b (softmax_forward p1 lg1 B T V Vp) (softmax_forward p2 lg2 B T V Vp)"
  unfolding softmax_forward_blocks [OF assms(3)]
  by (rule blocks2_rel [where base = "\<lambda>b t. b * T * Vp + t * Vp" and m = "\<lambda>_ _. Vp"])
     (use assms block_in_row softmax_val_row in auto)

lemma softmax_forward_above:
  assumes "V \<le> Vp" "B * (T * Vp) \<le> k"
  shows "softmax_forward p0 lg B T V Vp k = p0 k"
  unfolding softmax_forward_blocks [OF assms(1)]
  by (rule blocks2_above [where base = "\<lambda>b t. b * T * Vp + t * Vp" and m = "\<lambda>_ _. Vp" and n = "T * Vp"])
     (use assms block_in_row in auto)

lemma crossentropy_forward_blocks:
  "crossentropy_forward l0 p tg B T Vp =
     for_upto B (\<lambda>b. for_upto T (\<lambda>t. write_block (b * T + t) 1
        (\<lambda>_. - logf (p (nat (int (b * T * Vp + t * Vp) + tg (b * T + t))))))) l0"
  by (simp add: crossentropy_forward_def Let_def fun_upd_write_block [abs_def])

lemma crossentropy_forward_row:
  assumes "row_eq (T * Vp) b p1 p2" "row_eq T b tg1 tg2" "row_eq T b l1 l2"
    and "\<forall>t<T. 0 \<le> tg1 (b * T + t) \<and> tg1 (b * T + t) < int Vp"
  shows "row_eq T b (crossentropy_forward l1 p1 tg1 B T Vp) (crossentropy_forward l2 p2 tg2 B T Vp)"
  unfolding crossentropy_forward_blocks
proof (rule blocks2_rel [where base = "\<lambda>b t. b * T + t" and m = "\<lambda>_ _. 1"])
  show "row_eq T b l1 l2" by fact
next
  fix b' t assume "b' < B" "t < T"
  then show "b' * T \<le> b' * T + t \<and> b' * T + t + 1 \<le> b' * T + T" by simp
next
  fix t i :: nat assume t: "t < T"
  have e: "tg1 (b * T + t) = tg2 (b * T + t)" using assms(2) t by (simp add: row_eq_def)
  have r: "0 \<le> tg1 (b * T + t)" "tg1 (b * T + t) < int Vp" using assms(4) t by auto
  then have n: "nat (tg1 (b * T + t)) < Vp" by linarith
  have "nat (int (b * T * Vp + t * Vp) + tg1 (b * T + t)) = b * T * Vp + t * Vp + nat (tg1 (b * T + t))"
    using r(1) nat_add_distrib [of "int (b * T * Vp + t * Vp)" "tg1 (b * T + t)"]
    by (simp only: of_nat_0_le_iff nat_int)
  then show "- logf (p1 (nat (int (b * T * Vp + t * Vp) + tg1 (b * T + t)))) =
        - logf (p2 (nat (int (b * T * Vp + t * Vp) + tg2 (b * T + t))))"
    using row_cell [OF assms(1) t n] e by simp
qed

lemma crossentropy_forward_above:
  assumes "B * T \<le> k"
  shows "crossentropy_forward l0 p tg B T Vp k = l0 k"
  unfolding crossentropy_forward_blocks
  by (rule blocks2_above [where base = "\<lambda>b t. b * T + t" and m = "\<lambda>_ _. 1" and n = T])
     (use assms in auto)

lemma for_upto_add_block:
  fixes w c :: "nat \<Rightarrow> real"
  shows "for_upto m (\<lambda>i out. out(base + i := out (base + i) + c i)) (write_block base m w out0) =
         write_block base m (\<lambda>i. w i + c i) out0"
proof -
  have "for_upto n (\<lambda>i out. out(base + i := out (base + i) + c i)) (write_block base m w out0) k =
        (if base \<le> k \<and> k < base + n then w (k - base) + c (k - base)
         else write_block base m w out0 k)" if "n \<le> m" for n k
    using that by (induction n arbitrary: k) (auto simp add: write_block_def)
  from this [of m] show ?thesis by (auto simp add: fun_eq_iff write_block_def)
qed

lemma for_upto_accumulate:
  fixes a :: "nat \<Rightarrow> real" and x :: "nat \<Rightarrow> nat \<Rightarrow> real"
  shows "for_upto n (\<lambda>t2 out. for_upto m (\<lambda>i out. out(base + i := out (base + i) + a t2 * x t2 i)) out)
           (for_upto m (\<lambda>i out. out(base + i := 0)) out0) =
         write_block base m (\<lambda>i. for_upto n (\<lambda>t2 acc. acc + a t2 * x t2 i) 0) out0"
proof (induction n)
  case 0
  show ?case by (simp only: for_upto.simps for_upto_write_block)
next
  case (Suc n)
  show ?case by (simp only: for_upto.simps Suc for_upto_add_block add_0)
qed

lemma attention_bth_out_raw:
  "fst (attention_bth inp T C NH b t h (out0, pre0, att0)) =
   for_upto (Suc t) (\<lambda>t2 out. for_upto (C div NH) (\<lambda>i out.
       out(b * T * C + t * C + h * (C div NH) + i :=
           out (b * T * C + t * C + h * (C div NH) + i) +
           snd (snd (attention_bth inp T C NH b t h (out0, pre0, att0))) (att_row NH T b h t + t2) *
           inp (b * T * (C * 3) + t2 * (C * 3) + h * (C div NH) + C * 2 + i))) out)
     (for_upto (C div NH) (\<lambda>i out. out(b * T * C + t * C + h * (C div NH) + i := 0)) out0)"
  by (simp add: attention_bth_def Let_def split_def att_row_def del: for_upto.simps)

lemma attention_bth_weight:
  assumes "t < T" "t2 < T"
  shows "snd (snd (attention_bth inp T C NH b t h (out0, pre0, att0))) (att_row NH T b h t + t2) =
         att_weight inp T C NH b t h t2"
  using assms by (simp add: attention_bth_att [OF assms(1)] att_weight_def)

lemma attention_bth_out:
  assumes "t < T"
  shows "fst (attention_bth inp T C NH b t h (out0, pre0, att0)) =
         write_block (b * T * C + t * C + h * (C div NH)) (C div NH) (att_out inp T C NH b t h) out0"
proof -
  have "fst (attention_bth inp T C NH b t h (out0, pre0, att0)) =
   for_upto (Suc t) (\<lambda>t2 out. for_upto (C div NH) (\<lambda>i out.
       out(b * T * C + t * C + h * (C div NH) + i :=
           out (b * T * C + t * C + h * (C div NH) + i) +
           att_weight inp T C NH b t h t2 *
           inp (b * T * (C * 3) + t2 * (C * 3) + h * (C div NH) + C * 2 + i))) out)
     (for_upto (C div NH) (\<lambda>i out. out(b * T * C + t * C + h * (C div NH) + i := 0)) out0)"
    unfolding attention_bth_out_raw
  proof (rule for_upto_cong)
    fix t2 s assume "t2 < Suc t"
    then have "t2 < T" using assms by simp
    from attention_bth_weight [OF assms this]
    show "for_upto (C div NH) (\<lambda>i out.
       out(b * T * C + t * C + h * (C div NH) + i :=
           out (b * T * C + t * C + h * (C div NH) + i) +
           snd (snd (attention_bth inp T C NH b t h (out0, pre0, att0))) (att_row NH T b h t + t2) *
           inp (b * T * (C * 3) + t2 * (C * 3) + h * (C div NH) + C * 2 + i))) s =
      for_upto (C div NH) (\<lambda>i out.
       out(b * T * C + t * C + h * (C div NH) + i :=
           out (b * T * C + t * C + h * (C div NH) + i) +
           att_weight inp T C NH b t h t2 *
           inp (b * T * (C * 3) + t2 * (C * 3) + h * (C div NH) + C * 2 + i))) s"
      by (simp only:)
  qed
  also have "\<dots> = write_block (b * T * C + t * C + h * (C div NH)) (C div NH) (att_out inp T C NH b t h) out0"
    by (simp only: for_upto_accumulate att_out_def [abs_def])
  finally show ?thesis .
qed

lemma attention_bth_blocks:
  assumes "t < T"
  shows "attention_bth inp T C NH b t h (x, y, z) =
     (write_block (b * T * C + t * C + h * (C div NH)) (C div NH) (att_out inp T C NH b t h) x,
      write_block (att_row NH T b h t) (Suc t) (att_score inp T C NH b t h) y,
      write_block (att_row NH T b h t) T (att_weight inp T C NH b t h) z)"
proof -
  have 1: "fst (snd (attention_bth inp T C NH b t h (x, y, z))) =
           write_block (att_row NH T b h t) (Suc t) (att_score inp T C NH b t h) y"
    by (simp only: attention_bth_preatt write_block_def)
  have 2: "snd (snd (attention_bth inp T C NH b t h (x, y, z))) =
           write_block (att_row NH T b h t) T (att_weight inp T C NH b t h) z"
    by (simp only: attention_bth_att [OF assms] write_block_def att_weight_def)
  show ?thesis
    using attention_bth_out [OF assms, of inp C NH b h x y z] 1 2
    by (metis prod.collapse)
qed

lemma attention_loops_blocks:
  "attention_loops inp B T C NH (x, y, z) =
     (for_upto B (\<lambda>b. for_upto T (\<lambda>t. for_upto NH (\<lambda>h.
        write_block (b * T * C + t * C + h * (C div NH)) (C div NH) (att_out inp T C NH b t h)))) x,
      for_upto B (\<lambda>b. for_upto T (\<lambda>t. for_upto NH (\<lambda>h.
        write_block (att_row NH T b h t) (Suc t) (att_score inp T C NH b t h)))) y,
      for_upto B (\<lambda>b. for_upto T (\<lambda>t. for_upto NH (\<lambda>h.
        write_block (att_row NH T b h t) T (att_weight inp T C NH b t h)))) z)"
  unfolding attention_loops_def
  by (rule for3_prod3) (rule attention_bth_blocks)

lemma head_in_channels:
  fixes h NH C :: nat
  assumes "h < NH"
  shows "h * (C div NH) + C div NH \<le> C"
proof -
  have "Suc h * (C div NH) \<le> NH * (C div NH)" using assms by (intro mult_le_mono1) simp
  also have "\<dots> \<le> C" by (rule times_div_less_eq_dividend)
  finally show ?thesis by simp
qed

lemma qkv_cell:
  assumes "row_eq (T * (C * 3)) b f g" "t < T" "h < NH" "i < C div NH"
  shows "f (b * T * (C * 3) + t * (C * 3) + h * (C div NH) + i) =
         g (b * T * (C * 3) + t * (C * 3) + h * (C div NH) + i) \<and>
         f (b * T * (C * 3) + t * (C * 3) + h * (C div NH) + C + i) =
         g (b * T * (C * 3) + t * (C * 3) + h * (C div NH) + C + i) \<and>
         f (b * T * (C * 3) + t * (C * 3) + h * (C div NH) + C * 2 + i) =
         g (b * T * (C * 3) + t * (C * 3) + h * (C div NH) + C * 2 + i)"
proof -
  have hc: "h * (C div NH) + i < C" using head_in_channels [OF assms(3), of C] assms(4) by simp
  then have 1: "h * (C div NH) + i < C * 3" "h * (C div NH) + C + i < C * 3"
    "h * (C div NH) + C * 2 + i < C * 3" by simp_all
  show ?thesis
    using row_cell [OF assms(1,2) 1(1)] row_cell [OF assms(1,2) 1(2)] row_cell [OF assms(1,2) 1(3)]
    by (simp only: add.assoc)
qed

lemma att_score_row:
  assumes "row_eq (T * (C * 3)) b inp1 inp2" "t < T" "t2 < T" "h < NH"
  shows "att_score inp1 T C NH b t h t2 = att_score inp2 T C NH b t h t2"
proof -
  have "for_upto (C div NH) (\<lambda>i val. val + inp1 (b * T * (C * 3) + t * (C * 3) + h * (C div NH) + i) *
         inp1 (b * T * (C * 3) + t2 * (C * 3) + h * (C div NH) + C + i)) 0 =
        for_upto (C div NH) (\<lambda>i val. val + inp2 (b * T * (C * 3) + t * (C * 3) + h * (C div NH) + i) *
         inp2 (b * T * (C * 3) + t2 * (C * 3) + h * (C div NH) + C + i)) 0"
  proof (rule for_upto_cong)
    fix i s assume i: "i < C div NH"
    from qkv_cell [OF assms(1,2,4) i] qkv_cell [OF assms(1,3,4) i]
    show "s + inp1 (b * T * (C * 3) + t * (C * 3) + h * (C div NH) + i) *
         inp1 (b * T * (C * 3) + t2 * (C * 3) + h * (C div NH) + C + i) =
          s + inp2 (b * T * (C * 3) + t * (C * 3) + h * (C div NH) + i) *
         inp2 (b * T * (C * 3) + t2 * (C * 3) + h * (C div NH) + C + i)"
      by simp
  qed
  then show ?thesis by (simp add: att_score_def)
qed

lemma att_maxval_row:
  assumes "row_eq (T * (C * 3)) b inp1 inp2" "t < T" "h < NH"
  shows "att_maxval inp1 T C NH b t h = att_maxval inp2 T C NH b t h"
  unfolding att_maxval_def
proof (rule for_upto_cong)
  fix t2 s assume "t2 < Suc t"
  then have "t2 < T" using assms(2) by simp
  from att_score_row [OF assms(1,2) this assms(3)]
  show "(if s < att_score inp1 T C NH b t h t2 then att_score inp1 T C NH b t h t2 else s) =
        (if s < att_score inp2 T C NH b t h t2 then att_score inp2 T C NH b t h t2 else s)"
    by simp
qed

lemma att_expsum_row:
  assumes "row_eq (T * (C * 3)) b inp1 inp2" "t < T" "h < NH"
  shows "att_expsum inp1 T C NH b t h = att_expsum inp2 T C NH b t h"
  unfolding att_expsum_def att_maxval_row [OF assms]
proof (rule sum.cong)
  fix t2 assume "t2 \<in> {..<Suc t}"
  then have "t2 < T" using assms(2) by simp
  from att_score_row [OF assms(1,2) this assms(3)]
  show "exp (att_score inp1 T C NH b t h t2 - att_maxval inp2 T C NH b t h) =
        exp (att_score inp2 T C NH b t h t2 - att_maxval inp2 T C NH b t h)" by simp
qed simp

lemma att_weight_row:
  assumes "row_eq (T * (C * 3)) b inp1 inp2" "t < T" "h < NH"
  shows "att_weight inp1 T C NH b t h t2 = att_weight inp2 T C NH b t h t2"
proof (cases "t2 \<le> t")
  case True
  then have "t2 < T" using assms(2) by simp
  from att_score_row [OF assms(1,2) this assms(3)] show ?thesis
    by (simp add: att_weight_def att_maxval_row [OF assms] att_expsum_row [OF assms])
next
  case False
  then show ?thesis by (simp add: att_weight_def)
qed

lemma att_out_row:
  assumes "row_eq (T * (C * 3)) b inp1 inp2" "t < T" "h < NH" "i < C div NH"
  shows "att_out inp1 T C NH b t h i = att_out inp2 T C NH b t h i"
  unfolding att_out_def
proof (rule for_upto_cong)
  fix t2 s assume "t2 < Suc t"
  then have "t2 < T" using assms(2) by simp
  from qkv_cell [OF assms(1) this assms(3,4)]
  show "s + att_weight inp1 T C NH b t h t2 *
            inp1 (b * T * (C * 3) + t2 * (C * 3) + h * (C div NH) + C * 2 + i) =
        s + att_weight inp2 T C NH b t h t2 *
            inp2 (b * T * (C * 3) + t2 * (C * 3) + h * (C div NH) + C * 2 + i)"
    by (simp add: att_weight_row [OF assms(1,2,3)])
qed

lemma head_block_in_row:
  fixes b t h T C NH :: nat
  assumes "t < T" "h < NH"
  shows "b * (T * C) \<le> b * T * C + t * C + h * (C div NH) \<and>
         b * T * C + t * C + h * (C div NH) + C div NH \<le> b * (T * C) + T * C"
proof -
  have "t * C + C \<le> T * C" using block_in_row [OF assms(1), of 0 C] by simp
  then show ?thesis using head_in_channels [OF assms(2), of C] by (simp add: mult.assoc)
qed

lemma att_row_in_row:
  fixes b t h T NH :: nat
  assumes "t < T" "h < NH"
  shows "b * (NH * T * T) \<le> att_row NH T b h t \<and> att_row NH T b h t + T \<le> b * (NH * T * T) + NH * T * T"
proof -
  have "h * T + t < NH * T" using assms by (intro idx2_bound)
  then have "Suc (h * T + t) * T \<le> NH * T * T" by (intro mult_le_mono1) simp
  then have "h * T * T + t * T + T \<le> NH * T * T" by (simp add: add_mult_distrib)
  then show ?thesis by (simp add: att_row_def mult.assoc)
qed

lemma attention_loops_row:
  assumes "row_eq (T * (C * 3)) b inp1 inp2"
    and "row_eq (T * C) b x1 x2" "row_eq (NH * T * T) b y1 y2" "row_eq (NH * T * T) b z1 z2"
  shows "row_eq (T * C) b (fst (attention_loops inp1 B T C NH (x1, y1, z1)))
           (fst (attention_loops inp2 B T C NH (x2, y2, z2))) \<and>
         row_eq (NH * T * T) b (fst (snd (attention_loops inp1 B T C NH (x1, y1, z1))))
           (fst (snd (attention_loops inp2 B T C NH (x2, y2, z2)))) \<and>
         row_eq (NH * T * T) b (snd (snd (attention_loops inp1 B T C NH (x1, y1, z1))))
           (snd (snd (attention_loops inp2 B T C NH (x2, y2, z2))))"
  unfolding attention_loops_blocks fst_conv snd_conv
proof (intro conjI)
  show "row_eq (T * C) b
     (for_upto B (\<lambda>b. for_upto T (\<lambda>t. for_upto NH (\<lambda>h.
        write_block (b * T * C + t * C + h * (C div NH)) (C div NH) (att_out inp1 T C NH b t h)))) x1)
     (for_upto B (\<lambda>b. for_upto T (\<lambda>t. for_upto NH (\<lambda>h.
        write_block (b * T * C + t * C + h * (C div NH)) (C div NH) (att_out inp2 T C NH b t h)))) x2)"
    by (rule blocks3_rel [where base = "\<lambda>b t h. b * T * C + t * C + h * (C div NH)" and m = "\<lambda>_ _ _. C div NH"])
       (use assms head_block_in_row att_out_row in auto)
  show "row_eq (NH * T * T) b
     (for_upto B (\<lambda>b. for_upto T (\<lambda>t. for_upto NH (\<lambda>h.
        write_block (att_row NH T b h t) (Suc t) (att_score inp1 T C NH b t h)))) y1)
     (for_upto B (\<lambda>b. for_upto T (\<lambda>t. for_upto NH (\<lambda>h.
        write_block (att_row NH T b h t) (Suc t) (att_score inp2 T C NH b t h)))) y2)"
  proof (rule blocks3_rel [where base = "\<lambda>b t h. att_row NH T b h t" and m = "\<lambda>_ t _. Suc t"])
    show "row_eq (NH * T * T) b y1 y2" by fact
  next
    fix b' t h assume "b' < B" "t < T" "h < NH"
    then show "b' * (NH * T * T) \<le> att_row NH T b' h t \<and>
               att_row NH T b' h t + Suc t \<le> b' * (NH * T * T) + NH * T * T"
      using att_row_in_row [of t T h NH b'] by simp
  next
    fix t h i assume "t < T" "h < NH" "i < Suc t"
    then show "att_score inp1 T C NH b t h i = att_score inp2 T C NH b t h i"
      using assms(1) by (intro att_score_row) simp_all
  qed
  show "row_eq (NH * T * T) b
     (for_upto B (\<lambda>b. for_upto T (\<lambda>t. for_upto NH (\<lambda>h.
        write_block (att_row NH T b h t) T (att_weight inp1 T C NH b t h)))) z1)
     (for_upto B (\<lambda>b. for_upto T (\<lambda>t. for_upto NH (\<lambda>h.
        write_block (att_row NH T b h t) T (att_weight inp2 T C NH b t h)))) z2)"
    by (rule blocks3_rel [where base = "\<lambda>b t h. att_row NH T b h t" and m = "\<lambda>_ _ _. T"])
       (use assms att_row_in_row att_weight_row in auto)
qed

lemma attention_loops_above:
  "B * (T * C) \<le> k \<Longrightarrow> fst (attention_loops inp B T C NH (x, y, z)) k = x k"
  "B * (NH * T * T) \<le> k' \<Longrightarrow> fst (snd (attention_loops inp B T C NH (x, y, z))) k' = y k'"
  "B * (NH * T * T) \<le> k' \<Longrightarrow> snd (snd (attention_loops inp B T C NH (x, y, z))) k' = z k'"
  unfolding attention_loops_blocks fst_conv snd_conv
proof -
  show "B * (T * C) \<le> k \<Longrightarrow>
     for_upto B (\<lambda>b. for_upto T (\<lambda>t. for_upto NH (\<lambda>h.
        write_block (b * T * C + t * C + h * (C div NH)) (C div NH) (att_out inp T C NH b t h)))) x k = x k"
    by (rule blocks3_above [where base = "\<lambda>b t h. b * T * C + t * C + h * (C div NH)"
          and m = "\<lambda>_ _ _. C div NH" and n = "T * C"])
       (use head_block_in_row in auto)
  show "B * (NH * T * T) \<le> k' \<Longrightarrow>
     for_upto B (\<lambda>b. for_upto T (\<lambda>t. for_upto NH (\<lambda>h.
        write_block (att_row NH T b h t) (Suc t) (att_score inp T C NH b t h)))) y k' = y k'"
  proof (rule blocks3_above [where base = "\<lambda>b t h. att_row NH T b h t"
          and m = "\<lambda>_ t _. Suc t" and n = "NH * T * T"])
    fix b' t h assume "b' < B" "t < T" "h < NH"
    then show "att_row NH T b' h t + Suc t \<le> b' * (NH * T * T) + NH * T * T"
      using att_row_in_row [of t T h NH b'] by simp
  qed
  show "B * (NH * T * T) \<le> k' \<Longrightarrow>
     for_upto B (\<lambda>b. for_upto T (\<lambda>t. for_upto NH (\<lambda>h.
        write_block (att_row NH T b h t) T (att_weight inp T C NH b t h)))) z k' = z k'"
    by (rule blocks3_above [where base = "\<lambda>b t h. att_row NH T b h t"
          and m = "\<lambda>_ _ _. T" and n = "NH * T * T"])
       (use att_row_in_row in auto)
qed

subsection \<open>Rows of the slices of a tensor\<close>

lemma rows_eq_view:
  assumes "rows_eq B n b f g"
  shows "row_eq n b (offset_view f (l * (B * n))) (offset_view g (l * (B * n)))"
  using assms by (simp add: rows_eq_def row_eq_def offset_view_def add.assoc)

lemma rows_eq_first:
  assumes "rows_eq B n b f g"
  shows "row_eq n b f g"
  using rows_eq_view [OF assms, of 0] by (simp add: offset_view_def [abs_def])

lemma rows_eq_store:
  assumes inv: "rows_eq B n b f g" and b: "b < B" and row: "row_eq n b v1 v2"
    and a1: "\<And>k. B * n \<le> k \<Longrightarrow> v1 k = f (l * (B * n) + k)"
    and a2: "\<And>k. B * n \<le> k \<Longrightarrow> v2 k = g (l * (B * n) + k)"
  shows "rows_eq B n b (store_view f (l * (B * n)) v1) (store_view g (l * (B * n)) v2)"
  unfolding rows_eq_def
proof (intro allI impI)
  fix l' j assume j: "j < n"
  have in_slice: "b * n + j < B * n" using b j by (rule idx2_bound)
  have same: "f (l' * (B * n) + b * n + j) = g (l' * (B * n) + b * n + j)"
    using inv j by (simp add: rows_eq_def)
  consider "l' < l" | "l' = l" | "l < l'" by linarith
  then show "store_view f (l * (B * n)) v1 (l' * (B * n) + b * n + j) =
             store_view g (l * (B * n)) v2 (l' * (B * n) + b * n + j)"
  proof cases
    case 1
    then have "Suc l' * (B * n) \<le> l * (B * n)" by (intro mult_le_mono1) simp
    then have "l' * (B * n) + b * n + j < l * (B * n)" using in_slice by simp
    then show ?thesis using same by (simp add: store_view_def)
  next
    case 2
    have "v1 (b * n + j) = v2 (b * n + j)" using row j by (simp add: row_eq_def)
    then show ?thesis unfolding 2 by (simp add: store_view_def add.assoc)
  next
    case 3
    define d where "d = l' - Suc l"
    have l': "l' = Suc l + d" using 3 by (simp add: d_def)
    have e: "l' * (B * n) + b * n + j = l * (B * n) + (B * n + d * (B * n) + b * n + j)"
      unfolding l' by (simp add: add_mult_distrib)
    have ge: "B * n \<le> B * n + d * (B * n) + b * n + j" by simp
    show ?thesis
      using same unfolding e by (simp add: store_view_def a1 [OF ge] a2 [OF ge])
  qed
qed

lemma rows_eq_kernel:
  assumes "rows_eq B n b f g" "b < B" "row_eq n b v1 v2"
    and "\<And>k. B * n \<le> k \<Longrightarrow> v1 k = f k" "\<And>k. B * n \<le> k \<Longrightarrow> v2 k = g k"
  shows "rows_eq B n b v1 v2"
proof -
  have "rows_eq B n b (store_view f (0 * (B * n)) v1) (store_view g (0 * (B * n)) v2)"
    by (rule rows_eq_store [OF assms(1,2,3)]) (simp_all add: assms(4,5))
  then show ?thesis by (simp add: store_view_def [abs_def])
qed

lemma matmul_store_rows:
  fixes f g :: "'a::{zero,plus,times} buf"
  assumes "row_eq (T * C) b x1 x2" "rows_eq B (T * OC) b f g" "b < B"
  shows "rows_eq B (T * OC) b
     (store_view f (l * (B * (T * OC)))
        (matmul_forward (offset_view f (l * (B * (T * OC)))) x1 W bias B T C OC))
     (store_view g (l * (B * (T * OC)))
        (matmul_forward (offset_view g (l * (B * (T * OC)))) x2 W bias B T C OC))"
proof (rule rows_eq_store [OF assms(2,3)])
  show "row_eq (T * OC) b (matmul_forward (offset_view f (l * (B * (T * OC)))) x1 W bias B T C OC)
     (matmul_forward (offset_view g (l * (B * (T * OC)))) x2 W bias B T C OC)"
    by (rule matmul_forward_row [OF assms(1) rows_eq_view [OF assms(2)]])
qed (simp_all add: matmul_forward_above offset_view_def)

lemma residual_store_rows:
  fixes f g :: "'a::plus buf"
  assumes "row_eq n b x1 x2" "row_eq n b y1 y2" "rows_eq B n b f g" "b < B"
  shows "rows_eq B n b
     (store_view f (l * (B * n)) (residual_forward (offset_view f (l * (B * n))) x1 y1 (B * n)))
     (store_view g (l * (B * n)) (residual_forward (offset_view g (l * (B * n))) x2 y2 (B * n)))"
proof (rule rows_eq_store [OF assms(3,4)])
  show "row_eq n b (residual_forward (offset_view f (l * (B * n))) x1 y1 (B * n))
     (residual_forward (offset_view g (l * (B * n))) x2 y2 (B * n))"
    by (rule residual_forward_row [OF assms(1,2,4)])
qed (simp_all add: residual_forward_above offset_view_def)

lemma gelu_store_rows:
  assumes "row_eq n b x1 x2" "rows_eq B n b f g" "b < B"
  shows "rows_eq B n b
     (store_view f (l * (B * n)) (gelu_forward (offset_view f (l * (B * n))) x1 (B * n)))
     (store_view g (l * (B * n)) (gelu_forward (offset_view g (l * (B * n))) x2 (B * n)))"
proof (rule rows_eq_store [OF assms(2,3)])
  show "row_eq n b (gelu_forward (offset_view f (l * (B * n))) x1 (B * n))
     (gelu_forward (offset_view g (l * (B * n))) x2 (B * n))"
    by (rule gelu_forward_row [OF assms(1,3)])
qed (simp_all add: gelu_forward_above offset_view_def)

lemma layernorm_store_rows:
  assumes x: "row_eq (T * C) b x1 x2"
    and o: "rows_eq B (T * C) b o1 o2" and m: "rows_eq B T b m1 m2" and r: "rows_eq B T b r1 r2"
    and b: "b < B"
  shows "rows_eq B (T * C) b
     (store_view o1 (l * (B * (T * C))) (fst (layernorm_forward (offset_view o1 (l * (B * (T * C))))
        (offset_view m1 (l * (B * T))) (offset_view r1 (l * (B * T))) x1 W bias B T C)))
     (store_view o2 (l * (B * (T * C))) (fst (layernorm_forward (offset_view o2 (l * (B * (T * C))))
        (offset_view m2 (l * (B * T))) (offset_view r2 (l * (B * T))) x2 W bias B T C))) \<and>
   rows_eq B T b
     (store_view m1 (l * (B * T)) (fst (snd (layernorm_forward (offset_view o1 (l * (B * (T * C))))
        (offset_view m1 (l * (B * T))) (offset_view r1 (l * (B * T))) x1 W bias B T C))))
     (store_view m2 (l * (B * T)) (fst (snd (layernorm_forward (offset_view o2 (l * (B * (T * C))))
        (offset_view m2 (l * (B * T))) (offset_view r2 (l * (B * T))) x2 W bias B T C)))) \<and>
   rows_eq B T b
     (store_view r1 (l * (B * T)) (snd (snd (layernorm_forward (offset_view o1 (l * (B * (T * C))))
        (offset_view m1 (l * (B * T))) (offset_view r1 (l * (B * T))) x1 W bias B T C))))
     (store_view r2 (l * (B * T)) (snd (snd (layernorm_forward (offset_view o2 (l * (B * (T * C))))
        (offset_view m2 (l * (B * T))) (offset_view r2 (l * (B * T))) x2 W bias B T C))))"
proof -
  note rows = layernorm_forward_row [OF x rows_eq_view [OF o, of l] rows_eq_view [OF m, of l]
      rows_eq_view [OF r, of l], of W bias B]
  show ?thesis
  proof (intro conjI)
    show "rows_eq B (T * C) b
     (store_view o1 (l * (B * (T * C))) (fst (layernorm_forward (offset_view o1 (l * (B * (T * C))))
        (offset_view m1 (l * (B * T))) (offset_view r1 (l * (B * T))) x1 W bias B T C)))
     (store_view o2 (l * (B * (T * C))) (fst (layernorm_forward (offset_view o2 (l * (B * (T * C))))
        (offset_view m2 (l * (B * T))) (offset_view r2 (l * (B * T))) x2 W bias B T C)))"
      by (rule rows_eq_store [OF o b]) (use rows in \<open>simp_all add: layernorm_forward_above offset_view_def\<close>)
    show "rows_eq B T b
     (store_view m1 (l * (B * T)) (fst (snd (layernorm_forward (offset_view o1 (l * (B * (T * C))))
        (offset_view m1 (l * (B * T))) (offset_view r1 (l * (B * T))) x1 W bias B T C))))
     (store_view m2 (l * (B * T)) (fst (snd (layernorm_forward (offset_view o2 (l * (B * (T * C))))
        (offset_view m2 (l * (B * T))) (offset_view r2 (l * (B * T))) x2 W bias B T C))))"
      by (rule rows_eq_store [OF m b]) (use rows in \<open>simp_all add: layernorm_forward_above offset_view_def\<close>)
    show "rows_eq B T b
     (store_view r1 (l * (B * T)) (snd (snd (layernorm_forward (offset_view o1 (l * (B * (T * C))))
        (offset_view m1 (l * (B * T))) (offset_view r1 (l * (B * T))) x1 W bias B T C))))
     (store_view r2 (l * (B * T)) (snd (snd (layernorm_forward (offset_view o2 (l * (B * (T * C))))
        (offset_view m2 (l * (B * T))) (offset_view r2 (l * (B * T))) x2 W bias B T C))))"
      by (rule rows_eq_store [OF r b]) (use rows in \<open>simp_all add: layernorm_forward_above offset_view_def\<close>)
  qed
qed

lemma attention_store_rows:
  assumes x: "row_eq (T * (C * 3)) b x1 x2"
    and o: "rows_eq B (T * C) b o1 o2" and p: "rows_eq B (NH * T * T) b p1 p2"
    and a: "rows_eq B (NH * T * T) b a1 a2" and b: "b < B"
  shows "rows_eq B (T * C) b
     (store_view o1 (l * (B * (T * C))) (fst (attention_loops x1 B T C NH
        (offset_view o1 (l * (B * (T * C))), offset_view p1 (l * (B * (NH * T * T))),
         offset_view a1 (l * (B * (NH * T * T)))))))
     (store_view o2 (l * (B * (T * C))) (fst (attention_loops x2 B T C NH
        (offset_view o2 (l * (B * (T * C))), offset_view p2 (l * (B * (NH * T * T))),
         offset_view a2 (l * (B * (NH * T * T))))))) \<and>
   rows_eq B (NH * T * T) b
     (store_view p1 (l * (B * (NH * T * T))) (fst (snd (attention_loops x1 B T C NH
        (offset_view o1 (l * (B * (T * C))), offset_view p1 (l * (B * (NH * T * T))),
         offset_view a1 (l * (B * (NH * T * T))))))))
     (store_view p2 (l * (B * (NH * T * T))) (fst (snd (attention_loops x2 B T C NH
        (offset_view o2 (l * (B * (T * C))), offset_view p2 (l * (B * (NH * T * T))),
         offset_view a2 (l * (B * (NH * T * T)))))))) \<and>
   rows_eq B (NH * T * T) b
     (store_view a1 (l * (B * (NH * T * T))) (snd (snd (attention_loops x1 B T C NH
        (offset_view o1 (l * (B * (T * C))), offset_view p1 (l * (B * (NH * T * T))),
         offset_view a1 (l * (B * (NH * T * T))))))))
     (store_view a2 (l * (B * (NH * T * T))) (snd (snd (attention_loops x2 B T C NH
        (offset_view o2 (l * (B * (T * C))), offset_view p2 (l * (B * (NH * T * T))),
         offset_view a2 (l * (B * (NH * T * T))))))))"
proof -
  note rows = attention_loops_row [OF x rows_eq_view [OF o, of l] rows_eq_view [OF p, of l]
      rows_eq_view [OF a, of l], of B]
  show ?thesis
  proof (intro conjI)
    show "rows_eq B (T * C) b
     (store_view o1 (l * (B * (T * C))) (fst (attention_loops x1 B T C NH
        (offset_view o1 (l * (B * (T * C))), offset_view p1 (l * (B * (NH * T * T))),
         offset_view a1 (l * (B * (NH * T * T)))))))
     (store_view o2 (l * (B * (T * C))) (fst (attention_loops x2 B T C NH
        (offset_view o2 (l * (B * (T * C))), offset_view p2 (l * (B * (NH * T * T))),
         offset_view a2 (l * (B * (NH * T * T)))))))"
      by (rule rows_eq_store [OF o b]) (use rows in \<open>simp_all add: attention_loops_above offset_view_def\<close>)
    show "rows_eq B (NH * T * T) b
     (store_view p1 (l * (B * (NH * T * T))) (fst (snd (attention_loops x1 B T C NH
        (offset_view o1 (l * (B * (T * C))), offset_view p1 (l * (B * (NH * T * T))),
         offset_view a1 (l * (B * (NH * T * T))))))))
     (store_view p2 (l * (B * (NH * T * T))) (fst (snd (attention_loops x2 B T C NH
        (offset_view o2 (l * (B * (T * C))), offset_view p2 (l * (B * (NH * T * T))),
         offset_view a2 (l * (B * (NH * T * T))))))))"
      by (rule rows_eq_store [OF p b]) (use rows in \<open>simp_all add: attention_loops_above offset_view_def\<close>)
    show "rows_eq B (NH * T * T) b
     (store_view a1 (l * (B * (NH * T * T))) (snd (snd (attention_loops x1 B T C NH
        (offset_view o1 (l * (B * (T * C))), offset_view p1 (l * (B * (NH * T * T))),
         offset_view a1 (l * (B * (NH * T * T))))))))
     (store_view a2 (l * (B * (NH * T * T))) (snd (snd (attention_loops x2 B T C NH
        (offset_view o2 (l * (B * (T * C))), offset_view p2 (l * (B * (NH * T * T))),
         offset_view a2 (l * (B * (NH * T * T))))))))"
      by (rule rows_eq_store [OF a b]) (use rows in \<open>simp_all add: attention_loops_above offset_view_def\<close>)
  qed
qed

subsection \<open>The calls of the forward pass keep the rows apart\<close>

lemma layer_residual_row:
  assumes "row_agree cfg B T b a1 a2"
  shows "row_eq (T * channels cfg) b (layer_residual cfg B T l a1) (layer_residual cfg B T l a2)"
proof -
  have i: "rows_eq B (T * channels cfg) b (encoded a1) (encoded a2)"
    "rows_eq B (T * channels cfg) b (residual3 a1) (residual3 a2)"
    using assms by (simp_all add: row_agree_def Let_def)
  show ?thesis
    using rows_eq_first [OF i(1)] rows_eq_view [OF i(2), of "l - 1"]
    by (simp add: layer_residual_def Let_def mult.assoc)
qed

lemma call_ln1_agree:
  assumes "row_agree cfg B T b a1 a2" "b < B"
  shows "row_agree cfg B T b (call_ln1 cfg ps B T l a1) (call_ln1 cfg ps B T l a2)"
proof -
  have i: "rows_eq B (T * channels cfg) b (ln1 a1) (ln1 a2)"
    "rows_eq B T b (ln1_mean a1) (ln1_mean a2)" "rows_eq B T b (ln1_rstd a1) (ln1_rstd a2)"
    using assms(1) by (simp_all add: row_agree_def Let_def)
  from layernorm_store_rows [OF layer_residual_row [OF assms(1)] i assms(2),
      of l l "offset_view (ln1w ps) (l * channels cfg)" "offset_view (ln1b ps) (l * channels cfg)"]
  show ?thesis
    using assms(1) by (simp add: row_agree_def Let_def call_ln1_def case_prod_beta mult.assoc)
qed

lemma call_qkv_agree:
  assumes "row_agree cfg B T b a1 a2" "b < B"
  shows "row_agree cfg B T b (call_qkv cfg ps B T l a1) (call_qkv cfg ps B T l a2)"
proof -
  have i: "rows_eq B (T * channels cfg) b (ln1 a1) (ln1 a2)"
    "rows_eq B (T * (3 * channels cfg)) b (qkv a1) (qkv a2)"
    using assms(1) by (simp_all add: row_agree_def Let_def)
  from matmul_store_rows [OF rows_eq_view [OF i(1), of l] i(2) assms(2),
      of l "offset_view (qkvw ps) (l * 3 * channels cfg * channels cfg)"
         "Some (offset_view (qkvb ps) (l * 3 * channels cfg))"]
  show ?thesis
    using assms(1) by (simp add: row_agree_def Let_def call_qkv_def mult.assoc)
qed

lemma attention_acts_agree:
  assumes "row_agree cfg B T b a1 a2" "b < B"
  shows "row_agree cfg B T b (attention_acts cfg B T l a1) (attention_acts cfg B T l a2)"
proof -
  have i: "rows_eq B (T * channels cfg) b (atty a1) (atty a2)"
    "rows_eq B (num_heads cfg * T * T) b (preatt a1) (preatt a2)"
    "rows_eq B (num_heads cfg * T * T) b (att a1) (att a2)"
    and q: "rows_eq B (T * (3 * channels cfg)) b (qkv a1) (qkv a2)"
    using assms(1) by (simp_all add: row_agree_def Let_def)
  have x: "row_eq (T * (channels cfg * 3)) b (offset_view (qkv a1) (l * (B * (T * (3 * channels cfg)))))
     (offset_view (qkv a2) (l * (B * (T * (3 * channels cfg)))))"
    using rows_eq_view [OF q, of l] by (simp add: mult.commute)
  from attention_store_rows [OF x i assms(2), of l]
  show ?thesis
    using assms(1) by (simp add: row_agree_def Let_def attention_acts_def mult.assoc)
qed

lemma call_attproj_agree:
  assumes "row_agree cfg B T b a1 a2" "b < B"
  shows "row_agree cfg B T b (call_attproj cfg ps B T l a1) (call_attproj cfg ps B T l a2)"
proof -
  have i: "rows_eq B (T * channels cfg) b (atty a1) (atty a2)"
    "rows_eq B (T * channels cfg) b (attproj a1) (attproj a2)"
    using assms(1) by (simp_all add: row_agree_def Let_def)
  from matmul_store_rows [OF rows_eq_view [OF i(1), of l] i(2) assms(2),
      of l "offset_view (attprojw ps) (l * channels cfg * channels cfg)"
         "Some (offset_view (attprojb ps) (l * channels cfg))"]
  show ?thesis
    using assms(1) by (simp add: row_agree_def Let_def call_attproj_def mult.assoc)
qed

lemma call_residual2_agree:
  assumes "row_agree cfg B T b a1 a2" "b < B"
  shows "row_agree cfg B T b (call_residual2 cfg B T l a1) (call_residual2 cfg B T l a2)"
proof -
  have i: "rows_eq B (T * channels cfg) b (attproj a1) (attproj a2)"
    "rows_eq B (T * channels cfg) b (residual2 a1) (residual2 a2)"
    using assms(1) by (simp_all add: row_agree_def Let_def)
  from residual_store_rows [OF layer_residual_row [OF assms(1)] rows_eq_view [OF i(1), of l] i(2) assms(2),
      of l l]
  show ?thesis
    using assms(1) by (simp add: row_agree_def Let_def call_residual2_def mult.assoc)
qed

lemma call_ln2_agree:
  assumes "row_agree cfg B T b a1 a2" "b < B"
  shows "row_agree cfg B T b (call_ln2 cfg ps B T l a1) (call_ln2 cfg ps B T l a2)"
proof -
  have i: "rows_eq B (T * channels cfg) b (ln2 a1) (ln2 a2)"
    "rows_eq B T b (ln2_mean a1) (ln2_mean a2)" "rows_eq B T b (ln2_rstd a1) (ln2_rstd a2)"
    and x: "rows_eq B (T * channels cfg) b (residual2 a1) (residual2 a2)"
    using assms(1) by (simp_all add: row_agree_def Let_def)
  from layernorm_store_rows [OF rows_eq_view [OF x, of l] i assms(2),
      of l "offset_view (ln2w ps) (l * channels cfg)" "offset_view (ln2b ps) (l * channels cfg)"]
  show ?thesis
    using assms(1) by (simp add: row_agree_def Let_def call_ln2_def case_prod_beta mult.assoc)
qed

lemma call_fch_agree:
  assumes "row_agree cfg B T b a1 a2" "b < B"
  shows "row_agree cfg B T b (call_fch cfg ps B T l a1) (call_fch cfg ps B T l a2)"
proof -
  have i: "rows_eq B (T * channels cfg) b (ln2 a1) (ln2 a2)"
    "rows_eq B (T * (4 * channels cfg)) b (fch a1) (fch a2)"
    using assms(1) by (simp_all add: row_agree_def Let_def)
  from matmul_store_rows [OF rows_eq_view [OF i(1), of l] i(2) assms(2),
      of l "offset_view (fcw ps) (l * 4 * channels cfg * channels cfg)"
         "Some (offset_view (fcb ps) (l * 4 * channels cfg))"]
  show ?thesis
    using assms(1) by (simp add: row_agree_def Let_def call_fch_def mult.assoc)
qed

lemma call_gelu_agree:
  assumes "row_agree cfg B T b a1 a2" "b < B"
  shows "row_agree cfg B T b (call_gelu cfg B T l a1) (call_gelu cfg B T l a2)"
proof -
  have i: "rows_eq B (T * (4 * channels cfg)) b (fch a1) (fch a2)"
    "rows_eq B (T * (4 * channels cfg)) b (fch_gelu a1) (fch_gelu a2)"
    using assms(1) by (simp_all add: row_agree_def Let_def)
  from gelu_store_rows [OF rows_eq_view [OF i(1), of l] i(2) assms(2), of l]
  show ?thesis
    using assms(1) by (simp add: row_agree_def Let_def call_gelu_def mult.assoc)
qed

lemma call_fcproj_agree:
  assumes "row_agree cfg B T b a1 a2" "b < B"
  shows "row_agree cfg B T b (call_fcproj cfg ps B T l a1) (call_fcproj cfg ps B T l a2)"
proof -
  have i: "rows_eq B (T * (4 * channels cfg)) b (fch_gelu a1) (fch_gelu a2)"
    "rows_eq B (T * channels cfg) b (fcproj a1) (fcproj a2)"
    using assms(1) by (simp_all add: row_agree_def Let_def)
  from matmul_store_rows [OF rows_eq_view [OF i(1), of l] i(2) assms(2),
      of l "offset_view (fcprojw ps) (l * channels cfg * 4 * channels cfg)"
         "Some (offset_view (fcprojb ps) (l * channels cfg))"]
  show ?thesis
    using assms(1) by (simp add: row_agree_def Let_def call_fcproj_def mult.assoc)
qed

lemma call_residual3_agree:
  assumes "row_agree cfg B T b a1 a2" "b < B"
  shows "row_agree cfg B T b (call_residual3 cfg B T l a1) (call_residual3 cfg B T l a2)"
proof -
  have i: "rows_eq B (T * channels cfg) b (residual2 a1) (residual2 a2)"
    "rows_eq B (T * channels cfg) b (fcproj a1) (fcproj a2)"
    "rows_eq B (T * channels cfg) b (residual3 a1) (residual3 a2)"
    using assms(1) by (simp_all add: row_agree_def Let_def)
  from residual_store_rows [OF rows_eq_view [OF i(1), of l] rows_eq_view [OF i(2), of l] i(3) assms(2), of l]
  show ?thesis
    using assms(1) by (simp add: row_agree_def Let_def call_residual3_def mult.assoc)
qed

lemma layer_acts_agree:
  assumes "row_agree cfg B T b a1 a2" "b < B"
  shows "row_agree cfg B T b (layer_acts cfg ps B T l a1) (layer_acts cfg ps B T l a2)"
  unfolding layer_acts_def
  by (intro call_residual3_agree call_fcproj_agree call_gelu_agree call_fch_agree call_ln2_agree
      call_residual2_agree call_attproj_agree attention_acts_agree call_qkv_agree call_ln1_agree
      assms)

lemma layers_agree:
  assumes "row_agree cfg B T b a1 a2" "b < B"
  shows "row_agree cfg B T b (for_upto L (layer_acts cfg ps B T) a1)
           (for_upto L (layer_acts cfg ps B T) a2)"
  by (rule for_upto_rel [where R = "row_agree cfg B T b"])
     (simp_all add: assms layer_acts_agree)

lemma store_view_0: "store_view f 0 g = g"
  by (simp add: store_view_def)

lemma offset_view_0: "offset_view f 0 = f"
  by (simp add: offset_view_def)

lemma call_encoder_agree:
  assumes "row_agree cfg B T b a1 a2" "b < B" "row_eq T b inp1 inp2"
  shows "row_agree cfg B T b (call_encoder cfg ps inp1 B T a1) (call_encoder cfg ps inp2 B T a2)"
proof -
  have i: "rows_eq B (T * channels cfg) b (encoded a1) (encoded a2)"
    using assms(1) by (simp_all add: row_agree_def Let_def)
  have "rows_eq B (T * channels cfg) b
     (encoder_forward (encoded a1) inp1 (wte ps) (wpe ps) B T (channels cfg))
     (encoder_forward (encoded a2) inp2 (wte ps) (wpe ps) B T (channels cfg))"
    by (rule rows_eq_kernel [OF i assms(2)])
       (simp_all add: encoder_forward_row [OF assms(3) rows_eq_first [OF i]] encoder_forward_above)
  then show ?thesis
    using assms(1) by (simp add: row_agree_def Let_def call_encoder_def)
qed

lemma call_lnf_agree:
  assumes "row_agree cfg B T b a1 a2" "b < B"
  shows "row_agree cfg B T b (call_lnf cfg ps B T a1) (call_lnf cfg ps B T a2)"
proof -
  have i: "rows_eq B (T * channels cfg) b (lnf a1) (lnf a2)"
    "rows_eq B T b (lnf_mean a1) (lnf_mean a2)" "rows_eq B T b (lnf_rstd a1) (lnf_rstd a2)"
    and x: "rows_eq B (T * channels cfg) b (residual3 a1) (residual3 a2)"
    using assms(1) by (simp_all add: row_agree_def Let_def)
  from layernorm_store_rows [OF rows_eq_view [OF x, of "num_layers cfg - 1"] i assms(2),
      of 0 "lnfw ps" "lnfb ps"]
  show ?thesis
    using assms(1)
    by (simp add: row_agree_def Let_def call_lnf_def case_prod_beta mult.assoc store_view_0 offset_view_0)
qed

lemma call_logits_agree:
  assumes "row_agree cfg B T b a1 a2" "b < B"
  shows "row_agree cfg B T b (call_logits cfg ps B T a1) (call_logits cfg ps B T a2)"
proof -
  have i: "rows_eq B (T * channels cfg) b (lnf a1) (lnf a2)"
    "rows_eq B (T * padded_vocab_size cfg) b (logits a1) (logits a2)"
    using assms(1) by (simp_all add: row_agree_def Let_def)
  from matmul_store_rows [OF rows_eq_first [OF i(1)] i(2) assms(2), of 0 "wte ps" None]
  show ?thesis
    using assms(1) by (simp add: row_agree_def Let_def call_logits_def store_view_0 offset_view_0)
qed

lemma call_probs_agree:
  assumes "row_agree cfg B T b a1 a2" "b < B" "vocab_size cfg \<le> padded_vocab_size cfg"
  shows "row_agree cfg B T b (call_probs cfg B T a1) (call_probs cfg B T a2)"
proof -
  have i: "rows_eq B (T * padded_vocab_size cfg) b (probs a1) (probs a2)"
    and x: "rows_eq B (T * padded_vocab_size cfg) b (logits a1) (logits a2)"
    using assms(1) by (simp_all add: row_agree_def Let_def)
  have "rows_eq B (T * padded_vocab_size cfg) b
     (softmax_forward (probs a1) (logits a1) B T (vocab_size cfg) (padded_vocab_size cfg))
     (softmax_forward (probs a2) (logits a2) B T (vocab_size cfg) (padded_vocab_size cfg))"
    by (rule rows_eq_kernel [OF i assms(2)])
       (simp_all add: softmax_rows_agree [OF rows_eq_first [OF x] rows_eq_first [OF i] assms(3)]
          softmax_forward_above [OF assms(3)])
  then show ?thesis
    using assms(1) by (simp add: row_agree_def Let_def call_probs_def)
qed

lemma call_losses_agree:
  assumes "row_agree cfg B T b a1 a2" "b < B" "row_eq T b tg1 tg2"
    and "\<forall>t<T. 0 \<le> tg1 (b * T + t) \<and> tg1 (b * T + t) < int (padded_vocab_size cfg)"
  shows "row_agree cfg B T b (call_losses cfg tg1 B T a1) (call_losses cfg tg2 B T a2)"
proof -
  have i: "rows_eq B T b (losses a1) (losses a2)"
    and x: "rows_eq B (T * padded_vocab_size cfg) b (probs a1) (probs a2)"
    using assms(1) by (simp_all add: row_agree_def Let_def)
  have "rows_eq B T b
     (crossentropy_forward (losses a1) (probs a1) tg1 B T (padded_vocab_size cfg))
     (crossentropy_forward (losses a2) (probs a2) tg2 B T (padded_vocab_size cfg))"
    by (rule rows_eq_kernel [OF i assms(2)])
       (simp_all add: crossentropy_forward_row [OF rows_eq_first [OF x] assms(3) rows_eq_first [OF i] assms(4)]
          crossentropy_forward_above)
  then show ?thesis
    using assms(1) by (simp add: row_agree_def Let_def call_losses_def)
qed

lemma row_agree_refl: "row_agree cfg B T b a a"
  by (simp add: row_agree_def rows_eq_def)

lemma forward_acts_agree:
  assumes inp: "row_eq T b inputs1 inputs2" and tg: "targets_row_eq T b targets1 targets2"
    and ids: "ids_in_range inputs1 targets1 (vocab_size cfg) (B * T)"
    and V: "vocab_size cfg \<le> padded_vocab_size cfg" and b: "b < B"
  shows "row_agree cfg B T b (forward_acts cfg ps inputs1 targets1 B T a)
           (forward_acts cfg ps inputs2 targets2 B T a)"
proof -
  let ?pre = "\<lambda>inputs. call_probs cfg B T (call_logits cfg ps B T (call_lnf cfg ps B T
      (for_upto (num_layers cfg) (layer_acts cfg ps B T) (call_encoder cfg ps inputs B T a))))"
  have pre: "row_agree cfg B T b (?pre inputs1) (?pre inputs2)"
    by (intro call_probs_agree call_logits_agree call_lnf_agree layers_agree call_encoder_agree
        row_agree_refl b V inp)
  show ?thesis
  proof (cases targets1)
    case None
    then have "targets2 = None" using tg by (simp add: targets_row_eq_def)
    then show ?thesis using pre None by (simp add: forward_acts_def Let_def)
  next
    case (Some tg1)
    then obtain tg2 where t2: "targets2 = Some tg2" and r: "row_eq T b tg1 tg2"
      using tg by (cases targets2) (simp_all add: targets_row_eq_def)
    have rng: "\<forall>t<T. 0 \<le> tg1 (b * T + t) \<and> tg1 (b * T + t) < int (padded_vocab_size cfg)"
    proof (intro allI impI)
      fix t assume "t < T"
      with b have "b * T + t < B * T" by (rule idx2_bound)
      then have "0 \<le> tg1 (b * T + t) \<and> tg1 (b * T + t) < int (vocab_size cfg)"
        using ids unfolding ids_in_range_def Some by simp
      then show "0 \<le> tg1 (b * T + t) \<and> tg1 (b * T + t) < int (padded_vocab_size cfg)"
        using V by simp
    qed
    from call_losses_agree [OF pre b r rng] show ?thesis
      by (simp add: forward_acts_def Let_def Some t2)
  qed
qed

lemma rows_eq_layers: "rows_eq B n b f g \<Longrightarrow> layer_rows_eq L B n b f g"
  by (simp add: rows_eq_def layer_rows_eq_def)

lemma row_agree_batch_row:
  assumes "row_agree cfg B T b a1 a2"
  shows "batch_row_eq cfg B T b a1 a2"
  using assms unfolding row_agree_def batch_row_eq_def Let_def
  by (elim conjE, intro conjI) (erule rows_eq_layers rows_eq_first)+

text \<open>
  Claim C9. Take a model with at least one layer and one head and a vocabulary inside the
  padded one, and two batches of the same shape whose token ids (and target ids, when
  there are targets) lie in \<open>[0, vocab_size)\<close>. If the two batches hold the same tokens
  and the same targets at batch row \<open>b\<close>, then \<^verbatim>\<open>gpt2_forward\<close>, from the same model,
  returns for both, and the two sets of activations hold the same values at batch row \<open>b\<close>
  of every tensor, in every layer: the encoded tokens, the outputs, means and reciprocal
  standard deviations of the layer norms, the queries, keys and values, the scores and
  weights and outputs of the attention, the projections, the residual sums, the logits,
  the probabilities and the losses of the \<open>T\<close> positions of the row.
\<close>

theorem gpt2_forward_batch_rows:
  assumes "row_eq T b inputs1 inputs2" and "targets_row_eq T b targets1 targets2"
    and "ids_in_range inputs1 targets1 (vocab_size (config c)) (B * T)"
    and "ids_in_range inputs2 targets2 (vocab_size (config c)) (B * T)"
    and "0 < num_layers (config c)" and "0 < num_heads (config c)"
    and "vocab_size (config c) \<le> padded_vocab_size (config c)" and "b < B"
  shows "\<exists>model1 c1 res1 calls1 model2 c2 res2 calls2.
     gpt2_forward model c inputs1 targets1 B T = Inr (model1, c1, res1, calls1) \<and>
     gpt2_forward model c inputs2 targets2 B T = Inr (model2, c2, res2, calls2) \<and>
     batch_row_eq (config c) B T b (acts model1) (acts model2)"
proof -
  let ?F1 = "forward_acts (config c) (params model) inputs1 targets1 B T (acts model)"
  let ?F2 = "forward_acts (config c) (params model) inputs2 targets2 B T (acts model)"
  note e1 = gpt2_forward_eq [OF assms(3,6,5), of model]
  note e2 = gpt2_forward_eq [OF assms(4,6,5), of model]
  have "batch_row_eq (config c) B T b ?F1 ?F2"
    by (rule row_agree_batch_row) (rule forward_acts_agree [OF assms(1,2,3,7,8)])
  then have r: "batch_row_eq (config c) B T b (acts (model\<lparr>acts := ?F1\<rparr>)) (acts (model\<lparr>acts := ?F2\<rparr>))"
    by simp
  show ?thesis
    by (intro exI conjI) (rule e1, rule e2, rule r)
qed

theorem gpt2_forward_batch_rows_witness:
  "\<exists>model1 c1 res1 calls1 model2 c2 res2 calls2.
     gpt2_forward (example_model 0) (example_const 0) (\<lambda>_. 0) (Some (\<lambda>_. 1)) 2 1 =
       Inr (model1, c1, res1, calls1) \<and>
     gpt2_forward (example_model 0) (example_const 0) (\<lambda>i. if i = 0 then 0 else 1) (Some (\<lambda>_. 1)) 2 1 =
       Inr (model2, c2, res2, calls2) \<and>
     batch_row_eq (config (example_const 0)) 2 1 0 (acts model1) (acts model2)"
proof -
  have h: "row_eq 1 0 (\<lambda>_. 0 :: int) (\<lambda>i. if i = 0 then 0 else 1)"
    "targets_row_eq 1 0 (Some (\<lambda>_. 1)) (Some (\<lambda>_. 1))"
    "ids_in_range (\<lambda>_. 0) (Some (\<lambda>_. 1)) (vocab_size (config (example_const 0))) (2 * 1)"
    "ids_in_range (\<lambda>i. if i = 0 then 0 else 1) (Some (\<lambda>_. 1)) (vocab_size (config (example_const 0))) (2 * 1)"
    "0 < num_layers (config (example_const 0))" "0 < num_heads (config (example_const 0))"
    "vocab_size (config (example_const 0)) \<le> padded_vocab_size (config (example_const 0))"
    "(0 :: nat) < 2"
    by (simp_all add: row_eq_def targets_row_eq_def ids_in_range_def example_const_def example_config_def)
  show ?thesis
    by (rule gpt2_forward_batch_rows [OF h])
qed


end
